(* ===== verification/Prelude.thy ===== *)
theory Prelude
  imports Main "HOL-Library.Char_ord" "HOL-Library.List_Lexorder" "HOL-Library.Sublist"
    "HOL-Library.AList"
begin

text \<open>
  Shared vocabulary of the development. A Go string is a list of bytes, here \<open>string\<close>
  (\<open>char\<close> is one byte); a Go map is an association list with distinct keys, read by
  \<open>map_of\<close> and changed by \<open>AList.update\<close> and \<open>AList.delete\<close> (Go leaves the iteration
  order open: no property below depends on the order of such a list). The parts of the
  packages \<open>strings\<close>, \<open>strconv\<close> and \<open>fmt\<close> the program uses are defined here, with the
  lemmas the components share. Errors are values: \<open>gerror\<close> carries the text of the error
  and the machine-readable cause that \<open>errors.Is\<close> and \<open>apierrors.IsNotFound\<close> look for.
\<close>

named_theorems go_str "string facts used by the component proofs"
named_theorems go_map "association-list facts used by the component proofs"

type_synonym bytes = string
type_synonym 'v gomap = "(string \<times> 'v) list"

section \<open>Maps\<close>

definition wf_map :: "'v gomap \<Rightarrow> bool" where
  "wf_map m \<longleftrightarrow> distinct (map fst m)"

lemma wf_map_Nil [simp, go_map]: "wf_map []"
  by (simp add: wf_map_def)

lemma wf_map_update [go_map]: "wf_map m \<Longrightarrow> wf_map (AList.update k v m)"
  by (simp add: wf_map_def distinct_update)

lemma wf_map_delete [go_map]: "wf_map m \<Longrightarrow> wf_map (AList.delete k m)"
  by (simp add: wf_map_def distinct_delete)

lemma map_of_upd [simp, go_map]: "map_of (AList.update k v m) = (map_of m)(k \<mapsto> v)"
  by (rule update_conv')

lemma map_of_del [simp, go_map]: "map_of (AList.delete k m) = (map_of m)(k := None)"
  by (rule delete_conv')

lemma keys_iff_map_of: "k \<in> fst ` set m \<longleftrightarrow> map_of m k \<noteq> None"
  by (simp add: map_of_eq_None_iff)

lemma wf_map_mem_iff:
  assumes "wf_map m"
  shows "(k, v) \<in> set m \<longleftrightarrow> map_of m k = Some v"
  using assms by (simp add: wf_map_def map_of_eq_Some_iff)

lemma wf_map_values: "wf_map m \<Longrightarrow> v \<in> snd ` set m \<longleftrightarrow> (\<exists>k. map_of m k = Some v)"
  by (auto simp: image_iff wf_map_mem_iff [symmetric] intro: bexI [rotated])

section \<open>Pointers to booleans\<close>

text \<open>\<open>boolOrDefault(b, def)\<close> of the operator: a nil pointer reads as the default.\<close>

definition boolOrDefault :: "bool option \<Rightarrow> bool \<Rightarrow> bool" where
  "boolOrDefault b d = (case b of None \<Rightarrow> d | Some v \<Rightarrow> v)"

lemma boolOrDefault_simps [simp]:
  "boolOrDefault None d = d" "boolOrDefault (Some v) d = v"
  by (simp_all add: boolOrDefault_def)

section \<open>The package strings\<close>

definition hasPrefix :: "string \<Rightarrow> string \<Rightarrow> bool" where
  "hasPrefix s p = prefix p s"

definition hasSuffix :: "string \<Rightarrow> string \<Rightarrow> bool" where
  "hasSuffix s p = prefix (rev p) (rev s)"

lemma hasPrefix_iff [go_str]: "hasPrefix s p \<longleftrightarrow> (\<exists>r. s = p @ r)"
  by (simp add: hasPrefix_def prefix_def)

lemma hasSuffix_iff [go_str]: "hasSuffix s p \<longleftrightarrow> (\<exists>r. s = r @ p)"
  by (auto simp: hasSuffix_def suffix_to_prefix [symmetric] suffix_def)

lemma hasPrefix_append [simp]: "hasPrefix (p @ r) p"
  by (simp add: hasPrefix_def)

lemma hasSuffix_append [simp]: "hasSuffix (r @ p) p"
  by (simp add: hasSuffix_iff)

fun contains :: "string \<Rightarrow> string \<Rightarrow> bool" where
  "contains [] t = prefix t []"
| "contains (c # s) t = (prefix t (c # s) \<or> contains s t)"

lemma contains_iff [go_str]: "contains s t \<longleftrightarrow> (\<exists>a b. s = a @ t @ b)"
proof (induction s)
  case Nil
  then show ?case by (auto simp: prefix_def)
next
  case (Cons c s)
  have "(\<exists>a b. c # s = a @ t @ b) \<longleftrightarrow> prefix t (c # s) \<or> (\<exists>a b. s = a @ t @ b)"
    (is "?l = ?r")
  proof
    assume ?l
    then obtain a b where ab: "c # s = a @ t @ b" by blast
    show ?r
    proof (cases a)
      case Nil
      with ab show ?thesis by (simp add: prefix_def) 
    next
      case (Cons d a')
      with ab show ?thesis by auto
    qed
  next
    assume ?r
    then show ?l
    proof
      assume "prefix t (c # s)"
      then obtain b where "c # s = [] @ t @ b" by (auto simp: prefix_def)
      then show ?l by blast
    next
      assume "\<exists>a b. s = a @ t @ b"
      then obtain a b where "c # s = (c # a) @ t @ b" by auto
      then show ?l by blast
    qed
  qed
  with Cons.IH show ?case by simp
qed

definition trimPrefix :: "string \<Rightarrow> string \<Rightarrow> string" where
  "trimPrefix s p = (if hasPrefix s p then drop (length p) s else s)"

definition trimSuffix :: "string \<Rightarrow> string \<Rightarrow> string" where
  "trimSuffix s p = (if hasSuffix s p then take (length s - length p) s else s)"

lemma trimPrefix_append [simp]: "trimPrefix (p @ r) p = r"
  by (simp add: trimPrefix_def)

definition trimLeftByte :: "char \<Rightarrow> string \<Rightarrow> string" where
  "trimLeftByte c s = dropWhile (\<lambda>x. x = c) s"

definition trimRightByte :: "char \<Rightarrow> string \<Rightarrow> string" where
  "trimRightByte c s = rev (dropWhile (\<lambda>x. x = c) (rev s))"

definition containsAny :: "string \<Rightarrow> string \<Rightarrow> bool" where
  "containsAny s cs = list_ex (\<lambda>c. c \<in> set cs) s"

lemma containsAny_iff: "containsAny s cs \<longleftrightarrow> set s \<inter> set cs \<noteq> {}"
  by (auto simp: containsAny_def list_ex_iff)

text \<open>
  \<open>strings.TrimSpace\<close> removes the UTF-8 encodings of the code points with the property
  White Space at both ends; the list holds all of them.
\<close>

definition spaceEncodings :: "nat list list" where
  "spaceEncodings = [[9], [10], [11], [12], [13], [32], [194, 133], [194, 160], [225, 154, 128],
     [226, 128, 128], [226, 128, 129], [226, 128, 130], [226, 128, 131], [226, 128, 132],
     [226, 128, 133], [226, 128, 134], [226, 128, 135], [226, 128, 136], [226, 128, 137],
     [226, 128, 138], [226, 128, 168], [226, 128, 169], [226, 128, 175], [226, 129, 159],
     [227, 128, 128]]"

definition codes :: "string \<Rightarrow> nat list" where
  "codes s = map of_char s"

fun dropEncodings :: "nat list list \<Rightarrow> nat \<Rightarrow> string \<Rightarrow> string" where
  "dropEncodings es 0 s = s"
| "dropEncodings es (Suc fuel) s =
     (case find (\<lambda>e. prefix e (codes (take 3 s))) es of
        None \<Rightarrow> s
      | Some e \<Rightarrow> dropEncodings es fuel (drop (length e) s))"

definition trimSpace :: "string \<Rightarrow> string" where
  "trimSpace s =
     (let l = dropEncodings spaceEncodings (length s) s
      in rev (dropEncodings (map rev spaceEncodings) (length l) (rev l)))"

lemma trimSpace_Nil [simp]: "trimSpace [] = []"
  by (simp add: trimSpace_def)

text \<open>\<open>strings.Join\<close>, \<open>strings.Split\<close> on a one-byte separator.\<close>

fun join :: "string \<Rightarrow> string list \<Rightarrow> string" where
  "join sep [] = []"
| "join sep [x] = x"
| "join sep (x # y # ys) = x @ sep @ join sep (y # ys)"

fun splitOn :: "char \<Rightarrow> string \<Rightarrow> string list" where
  "splitOn c [] = [[]]"
| "splitOn c (x # xs) =
     (if x = c then [] # splitOn c xs
      else (case splitOn c xs of [] \<Rightarrow> [[x]] | w # ws \<Rightarrow> (x # w) # ws))"

lemma splitOn_nonempty: "splitOn c s \<noteq> []"
  by (cases s) (auto split: list.splits)

section \<open>Letters and digits\<close>

definition isLowerAlpha :: "char \<Rightarrow> bool" where
  "isLowerAlpha c \<longleftrightarrow> CHR ''a'' \<le> c \<and> c \<le> CHR ''z''"

definition isUpperAlpha :: "char \<Rightarrow> bool" where
  "isUpperAlpha c \<longleftrightarrow> CHR ''A'' \<le> c \<and> c \<le> CHR ''Z''"

definition isDigit :: "char \<Rightarrow> bool" where
  "isDigit c \<longleftrightarrow> CHR ''0'' \<le> c \<and> c \<le> CHR ''9''"

lemmas char_class_defs = isLowerAlpha_def isUpperAlpha_def isDigit_def

text \<open>
  \<open>strings.ToLower\<close>: ASCII letters are lowered bytewise. Of the code points above ASCII only
  U+0130 (bytes C4 B0) and U+212A (bytes E2 84 AA) have an ASCII lower case, \<open>i\<close> and \<open>k\<close>; every
  other one keeps a non-ASCII encoding, which is all its users look at.
\<close>

definition lowerByte :: "char \<Rightarrow> char" where
  "lowerByte c = (if isUpperAlpha c then char_of (of_char c + (32 :: nat)) else c)"

fun toLower :: "string \<Rightarrow> string" where
  "toLower [] = []"
| "toLower (c # cs) =
     (case cs of
        d # ds \<Rightarrow>
          (if c = char_of (196 :: nat) \<and> d = char_of (176 :: nat) then CHR ''i'' # toLower ds
           else (case ds of
              e # es \<Rightarrow>
                (if c = char_of (226 :: nat) \<and> d = char_of (132 :: nat) \<and> e = char_of (170 :: nat)
                 then CHR ''k'' # toLower es
                 else lowerByte c # toLower cs)
            | [] \<Rightarrow> lowerByte c # toLower cs))
      | [] \<Rightarrow> [lowerByte c])"

section \<open>Decimal and hexadecimal\<close>

definition digitChar :: "nat \<Rightarrow> char" where
  "digitChar n = ''0123456789'' ! n"

fun itoa :: "nat \<Rightarrow> string" where
  "itoa n = (if n < 10 then [digitChar n] else itoa (n div 10) @ [digitChar (n mod 10)])"

declare itoa.simps [simp del]

definition itoaInt :: "int \<Rightarrow> string" where
  "itoaInt i = (if i < 0 then CHR ''-'' # itoa (nat (- i)) else itoa (nat i))"

lemma less_10_cases: "n < 10 \<Longrightarrow> n \<in> {0, 1, 2, 3, 4, 5, 6, 7, 8, 9 :: nat}"
  by auto

lemma digitChar_isDigit: "n < 10 \<Longrightarrow> isDigit (digitChar n)"
  by (drule less_10_cases) (auto simp: digitChar_def isDigit_def)

lemma digitChar_inj: "m < 10 \<Longrightarrow> n < 10 \<Longrightarrow> digitChar m = digitChar n \<longleftrightarrow> m = n"
  by (drule less_10_cases, drule less_10_cases) (auto simp: digitChar_def)

lemma itoa_nonempty [simp]: "itoa n \<noteq> []"
  by (subst itoa.simps) simp

lemma itoa_digits: "c \<in> set (itoa n) \<Longrightarrow> isDigit c"
proof (induction n rule: itoa.induct)
  case (1 n)
  then show ?case
    by (subst (asm) (2) itoa.simps) (auto simp: digitChar_isDigit split: if_splits)
qed

lemma itoa_inj: "itoa m = itoa n \<longleftrightarrow> m = n"
proof
  show "itoa m = itoa n \<Longrightarrow> m = n"
  proof (induction m arbitrary: n rule: itoa.induct)
    case (1 m)
    show ?case
    proof (cases "m < 10 \<or> n < 10")
      case True
      have "m < 10 \<longleftrightarrow> n < 10"
      proof -
        have "length (itoa m) = length (itoa n)" by (simp add: "1.prems")
        then show ?thesis by (auto simp: itoa.simps [of m] itoa.simps [of n] split: if_splits)
      qed
      with True "1.prems" show ?thesis
        by (auto simp: itoa.simps [of m] itoa.simps [of n] digitChar_inj)
    next
      case False
      with "1.prems" have *: "itoa (m div 10) = itoa (n div 10)" "m mod 10 = n mod 10"
        by (auto simp: itoa.simps [of m] itoa.simps [of n] digitChar_inj)
      with False have "m div 10 = n div 10" by (intro "1.IH") auto
      with * show ?thesis by (metis div_mult_mod_eq)
    qed
  qed
qed simp

definition hexDigit :: "nat \<Rightarrow> char" where
  "hexDigit n = ''0123456789abcdef'' ! n"

definition hexByte :: "char \<Rightarrow> string" where
  "hexByte c = [hexDigit (of_char c div 16), hexDigit (of_char c mod 16)]"

text \<open>\<open>hex.EncodeToString\<close>, also \<open>fmt.Sprintf("%x", ...)\<close> of a byte string.\<close>

definition hexEncode :: "bytes \<Rightarrow> string" where
  "hexEncode bs = concat (map hexByte bs)"

definition isHexChar :: "char \<Rightarrow> bool" where
  "isHexChar c \<longleftrightarrow> c \<in> set ''0123456789abcdef''"

lemma hexDigit_isHex: "n < 16 \<Longrightarrow> isHexChar (hexDigit n)"
  unfolding isHexChar_def hexDigit_def by (rule nth_mem) simp

lemma hexByte_isHex: "c \<in> set (hexByte b) \<Longrightarrow> isHexChar c"
proof -
  have "of_char b < (256 :: nat)" by simp
  then have "of_char b div 16 < (16 :: nat)" by (simp only: div_less_iff_less_mult)
  then show "c \<in> set (hexByte b) \<Longrightarrow> isHexChar c"
    by (auto simp: hexByte_def hexDigit_isHex)
qed

lemma hexEncode_isHex: "c \<in> set (hexEncode bs) \<Longrightarrow> isHexChar c"
  by (auto simp: hexEncode_def hexByte_isHex)

lemma length_hexEncode [simp]: "length (hexEncode bs) = 2 * length bs"
  by (induction bs) (auto simp: hexEncode_def hexByte_def)

lemma isHexChar_no_dash: "isHexChar c \<Longrightarrow> c \<noteq> CHR ''-''"
  by (auto simp: isHexChar_def)

lemma isDigit_no_dash: "isDigit c \<Longrightarrow> c \<noteq> CHR ''-''"
  by (auto simp: isDigit_def)

section \<open>Reading a dash-separated string from its end\<close>

lemma last_dash_split:
  assumes "a @ CHR ''-'' # x = b @ CHR ''-'' # y"
    and "CHR ''-'' \<notin> set x" and "CHR ''-'' \<notin> set y"
  shows "a = b \<and> x = y"
  using assms by (induction a arbitrary: b) (auto simp: Cons_eq_append_conv append_eq_Cons_conv)

section \<open>Errors\<close>

text \<open>
  A Go error: its text and the cause that survives wrapping with \<open>%w\<close>. The causes are the
  ones the program distinguishes: the API status reasons, \<open>meta.NoKindMatchError\<close>, the
  sentinels of the token validator, and everything else.
\<close>

datatype cause = CNotFound | CAlreadyExists | CConflict | CNoMatch | CNotReady | CCooldown | COther

record gerror =
  errText :: string
  errCause :: cause

definition errorf :: "string \<Rightarrow> gerror" where
  "errorf t = \<lparr>errText = t, errCause = COther\<rparr>"

text \<open>\<open>fmt.Errorf(pre + ": %w", err)\<close> keeps the cause.\<close>

definition wrapErr :: "string \<Rightarrow> gerror \<Rightarrow> gerror" where
  "wrapErr pre e = e\<lparr>errText := pre @ '': '' @ errText e\<rparr>"

definition isNotFound :: "gerror \<Rightarrow> bool" where
  "isNotFound e \<longleftrightarrow> errCause e = CNotFound"

definition isAlreadyExists :: "gerror \<Rightarrow> bool" where
  "isAlreadyExists e \<longleftrightarrow> errCause e = CAlreadyExists"

definition isNoMatchError :: "gerror \<Rightarrow> bool" where
  "isNoMatchError e \<longleftrightarrow> errCause e = CNoMatch"

lemma wrapErr_simps [simp]:
  "errCause (wrapErr p e) = errCause e" "errText (wrapErr p e) = p @ '': '' @ errText e"
  by (simp_all add: wrapErr_def)

lemma errorf_simps [simp]: "errCause (errorf t) = COther" "errText (errorf t) = t"
  by (simp_all add: errorf_def)

text \<open>
  The verb \<open>%q\<close> (\<open>strconv.Quote\<close>): quotes and backslashes are escaped, control bytes are
  written as \<open>\x\<close> and two hexadecimal digits or by their letter, other bytes are kept.
\<close>

definition quoteByte :: "char \<Rightarrow> string" where
  "quoteByte c =
     (let n = of_char c :: nat; bs = char_of (92 :: nat)
      in if n = 34 \<or> n = 92 then [bs, c]
         else if n = 7 then [bs, CHR ''a''] else if n = 8 then [bs, CHR ''b'']
         else if n = 9 then [bs, CHR ''t''] else if n = 10 then [bs, CHR ''n'']
         else if n = 11 then [bs, CHR ''v''] else if n = 12 then [bs, CHR ''f'']
         else if n = 13 then [bs, CHR ''r'']
         else if n < 32 \<or> n = 127 then bs # CHR ''x'' # hexByte c
         else [c])"

definition quote :: "string \<Rightarrow> string" where
  "quote s = char_of (34 :: nat) # concat (map quoteByte s) @ [char_of (34 :: nat)]"

section \<open>The environment\<close>

text \<open>
  The environment variables of a process: \<open>os.Getenv\<close> does not tell an unset variable from an
  empty one. \<open>getEnvOrDefault\<close> is declared, with the same body, by both programs.
\<close>

type_synonym environ = "string gomap"

definition getenv :: "environ \<Rightarrow> string \<Rightarrow> string" where
  "getenv e k = (case map_of e k of Some v \<Rightarrow> v | None \<Rightarrow> [])"

definition getEnvOrDefault :: "environ \<Rightarrow> string \<Rightarrow> string \<Rightarrow> string" where
  "getEnvOrDefault e key defaultVal = (let v = getenv e key in if v \<noteq> [] then v else defaultVal)"

section \<open>Actions\<close>

text \<open>
  A call that may fail and may change the state it runs in, and the sequencing
  \<open>if err != nil { return ..., err }\<close> of such calls. \<open>wrapE\<close> decorates the error of a call.
\<close>

type_synonym ('s, 'a) action = "'s \<Rightarrow> (gerror + 'a) \<times> 's"

definition bindE :: "('s, 'a) action \<Rightarrow> ('a \<Rightarrow> ('s, 'b) action) \<Rightarrow> ('s, 'b) action" where
  "bindE f g s = (case f s of (Inl e, s') \<Rightarrow> (Inl e, s') | (Inr a, s') \<Rightarrow> g a s')"

definition returnE :: "'a \<Rightarrow> ('s, 'a) action" where
  "returnE a s = (Inr a, s)"

definition throwE :: "gerror \<Rightarrow> ('s, 'a) action" where
  "throwE e s = (Inl e, s)"

definition liftE :: "gerror + 'a \<Rightarrow> ('s, 'a) action" where
  "liftE r s = (r, s)"

definition wrapE :: "string \<Rightarrow> ('s, 'a) action \<Rightarrow> ('s, 'a) action" where
  "wrapE pre f s = (case f s of (Inl e, s') \<Rightarrow> (Inl (wrapErr pre e), s') | (Inr a, s') \<Rightarrow> (Inr a, s'))"

lemma bindE_Inr:
  "bindE f g s = (Inr b, t) \<longleftrightarrow> (\<exists>a s'. f s = (Inr a, s') \<and> g a s' = (Inr b, t))"
  by (auto simp: bindE_def split: prod.splits sum.splits)

lemma bindE_Inl:
  "bindE f g s = (Inl e, t) \<longleftrightarrow>
     f s = (Inl e, t) \<or> (\<exists>a s'. f s = (Inr a, s') \<and> g a s' = (Inl e, t))"
  by (auto simp: bindE_def split: prod.splits sum.splits)

lemma wrapE_Inr: "wrapE p f s = (Inr a, t) \<longleftrightarrow> f s = (Inr a, t)"
  by (auto simp: wrapE_def split: prod.splits sum.splits)

lemma wrapE_Inl: "wrapE p f s = (Inl e, t) \<longleftrightarrow> (\<exists>e'. e = wrapErr p e' \<and> f s = (Inl e', t))"
  by (auto simp: wrapE_def split: prod.splits sum.splits)

lemma returnE_eq: "returnE a s = (r, t) \<longleftrightarrow> r = Inr a \<and> t = s"
  by (auto simp: returnE_def)

lemma throwE_eq: "throwE e s = (r, t) \<longleftrightarrow> r = Inl e \<and> t = s"
  by (auto simp: throwE_def)

lemma liftE_eq: "liftE q s = (r, t) \<longleftrightarrow> r = q \<and> t = s"
  by (auto simp: liftE_def)

lemmas action_simps = bindE_Inr bindE_Inl wrapE_Inr wrapE_Inl returnE_eq throwE_eq liftE_eq

lemmas action_defs = bindE_def wrapE_def returnE_def throwE_def liftE_def

text \<open>An error that is only logged, and a value that is not used.\<close>

definition ignoreE :: "('s, 'a) action \<Rightarrow> ('s, unit) action" where
  "ignoreE f s = (Inr (), snd (f s))"

definition voidE :: "('s, 'a) action \<Rightarrow> ('s, unit) action" where
  "voidE f s = (case f s of (Inl e, s') \<Rightarrow> (Inl e, s') | (Inr a, s') \<Rightarrow> (Inr (), s'))"

lemma ignoreE_eq: "ignoreE f s = (r, t) \<longleftrightarrow> r = Inr () \<and> (\<exists>q. f s = (q, t))"
  by (cases "f s") (auto simp: ignoreE_def)

lemma voidE_Inr: "voidE f s = (Inr u, t) \<longleftrightarrow> (\<exists>a. f s = (Inr a, t))"
  by (auto simp: voidE_def split: prod.splits sum.splits)

lemma voidE_Inl: "voidE f s = (Inl e, t) \<longleftrightarrow> f s = (Inl e, t)"
  by (auto simp: voidE_def split: prod.splits sum.splits)

section \<open>Frames\<close>

text \<open>
  What a call does to the state however it ends: \<open>keeps R f\<close> relates the state before to the
  state after, errors included. A reflexive and transitive relation passes through sequencing.
\<close>

definition keeps :: "('s \<Rightarrow> 's \<Rightarrow> bool) \<Rightarrow> ('s, 'a) action \<Rightarrow> bool" where
  "keeps R f \<longleftrightarrow> (\<forall>s r s'. f s = (r, s') \<longrightarrow> R s s')"

definition same :: "('s \<Rightarrow> 'v) \<Rightarrow> 's \<Rightarrow> 's \<Rightarrow> bool" where
  "same v s s' \<longleftrightarrow> v s' = v s"

lemma keepsI: "(\<And>s r s'. f s = (r, s') \<Longrightarrow> R s s') \<Longrightarrow> keeps R f"
  by (simp add: keeps_def)

lemma keepsD: "keeps R f \<Longrightarrow> f s = (r, s') \<Longrightarrow> R s s'"
  by (simp add: keeps_def)

lemma keeps_weaken: "keeps R f \<Longrightarrow> (\<And>s s'. R s s' \<Longrightarrow> Q s s') \<Longrightarrow> keeps Q f"
  by (simp add: keeps_def)

lemma same_refl [simp]: "same v s s"
  by (simp add: same_def)

locale frame =
  fixes R :: "'s \<Rightarrow> 's \<Rightarrow> bool"
  assumes refl: "R s s"
    and trans: "R s t \<Longrightarrow> R t u \<Longrightarrow> R s u"
begin

lemma keeps_return [intro]: "keeps R (returnE a)"
  by (rule keepsI) (simp add: returnE_def refl)

lemma keeps_throw [intro]: "keeps R (throwE e)"
  by (rule keepsI) (simp add: throwE_def refl)

lemma keeps_lift [intro]: "keeps R (liftE q)"
  by (rule keepsI) (simp add: liftE_def refl)

text \<open>The second call starts from a value the first one returned.\<close>

lemma keeps_bind_result:
  assumes "keeps R f" and "\<And>s a t. f s = (Inr a, t) \<Longrightarrow> keeps R (g a)"
  shows "keeps R (bindE f g)"
proof (rule keepsI)
  fix s r s' assume b: "bindE f g s = (r, s')"
  obtain q t where f: "f s = (q, t)" by fastforce
  with assms(1) have st: "R s t" by (rule keepsD)
  show "R s s'"
  proof (cases q)
    case (Inl e)
    with b f st show ?thesis by (simp add: bindE_def)
  next
    case (Inr a)
    with b f have g: "g a t = (r, s')" by (simp add: bindE_def)
    from assms(2) f Inr have "keeps R (g a)" by blast
    from keepsD [OF this g] have "R t s'" .
    with st show ?thesis by (rule trans)
  qed
qed

lemma keeps_bind [intro]: "keeps R f \<Longrightarrow> (\<And>a. keeps R (g a)) \<Longrightarrow> keeps R (bindE f g)"
  by (rule keeps_bind_result)

lemma keeps_wrap [intro]: "keeps R f \<Longrightarrow> keeps R (wrapE p f)"
  by (auto simp: keeps_def wrapE_def split: prod.splits sum.splits)

lemma keeps_ignore [intro]: "keeps R f \<Longrightarrow> keeps R (ignoreE f)"
  by (auto simp: keeps_def ignoreE_eq)

lemma keeps_void [intro]: "keeps R f \<Longrightarrow> keeps R (voidE f)"
  by (auto simp: keeps_def voidE_def split: prod.splits sum.splits)

end

end
