(* ===== verification/Digest.thy ===== *)
theory Digest
  imports Prelude "HOL-Library.Word"
begin

text \<open>
  The standard-library functions on bytes that the client IDs, the API keys and the JSON web
  keys depend on: SHA-256 (\<open>crypto/sha256\<close>, by FIPS 180-4) and the unpadded URL-safe base64
  of \<open>base64.RawURLEncoding\<close>. The components take the hash function as an argument; the locale
  \<open>digest\<close> states the one thing they rely on, that a digest has 32 bytes, and SHA-256
  interprets it at the end of the first section.
\<close>

unbundle bit_operations_syntax

section \<open>SHA-256\<close>

type_synonym w32 = "32 word"

type_synonym sha_state = "w32 \<times> w32 \<times> w32 \<times> w32 \<times> w32 \<times> w32 \<times> w32 \<times> w32"

definition rotr32 :: "nat \<Rightarrow> w32 \<Rightarrow> w32" where
  "rotr32 n x = drop_bit n x OR push_bit (32 - n) x"

definition sha_s0 :: "w32 \<Rightarrow> w32" where
  "sha_s0 x = rotr32 7 x XOR rotr32 18 x XOR drop_bit 3 x"

definition sha_s1 :: "w32 \<Rightarrow> w32" where
  "sha_s1 x = rotr32 17 x XOR rotr32 19 x XOR drop_bit 10 x"

definition sha_S0 :: "w32 \<Rightarrow> w32" where
  "sha_S0 x = rotr32 2 x XOR rotr32 13 x XOR rotr32 22 x"

definition sha_S1 :: "w32 \<Rightarrow> w32" where
  "sha_S1 x = rotr32 6 x XOR rotr32 11 x XOR rotr32 25 x"

definition sha_ch :: "w32 \<Rightarrow> w32 \<Rightarrow> w32 \<Rightarrow> w32" where
  "sha_ch x y z = (x AND y) XOR (NOT x AND z)"

definition sha_maj :: "w32 \<Rightarrow> w32 \<Rightarrow> w32 \<Rightarrow> w32" where
  "sha_maj x y z = (x AND y) XOR (x AND z) XOR (y AND z)"

text \<open>
  The constants are the first 32 bits of the fractional parts of the cube roots of the first 64
  primes and of the square roots of the first 8: \<open>iroot k n b 0\<close> is the integer part of the
  \<open>k\<close>-th root of \<open>n\<close>, found bit by bit from the \<open>b\<close>-th, and the word keeps its 32 lowest bits.
\<close>

fun iroot :: "nat \<Rightarrow> nat \<Rightarrow> nat \<Rightarrow> nat \<Rightarrow> nat" where
  "iroot k n 0 r = r"
| "iroot k n (Suc b) r = (let r' = r + 2 ^ b in iroot k n b (if r' ^ k \<le> n then r' else r))"

definition rootWord :: "nat \<Rightarrow> nat \<Rightarrow> w32" where
  "rootWord k p = word_of_nat (iroot k (p * 2 ^ (32 * k)) 40 0)"

definition sha_primes :: "nat list" where
  "sha_primes =
     filter (\<lambda>p. list_all (\<lambda>d. p mod d \<noteq> 0) [2..<p]) [2..<312]"

definition sha_K :: "w32 list" where
  "sha_K = map (rootWord 3) sha_primes"

definition sha_H0 :: sha_state where
  "sha_H0 = (rootWord 2 2, rootWord 2 3, rootWord 2 5, rootWord 2 7,
     rootWord 2 11, rootWord 2 13, rootWord 2 17, rootWord 2 19)"

text \<open>The message schedule, newest word first.\<close>

fun sha_schedule :: "nat \<Rightarrow> w32 list \<Rightarrow> w32 list" where
  "sha_schedule 0 ws = ws"
| "sha_schedule (Suc n) ws =
     sha_schedule n ((sha_s1 (ws ! 1) + ws ! 6 + sha_s0 (ws ! 14) + ws ! 15) # ws)"

fun sha_round :: "sha_state \<Rightarrow> w32 \<Rightarrow> sha_state" where
  "sha_round (a, b, c, d, e, f, g, h) kw =
     (let t1 = h + sha_S1 e + sha_ch e f g + kw; t2 = sha_S0 a + sha_maj a b c
      in (t1 + t2, a, b, c, d + t1, e, f, g))"

fun sha_add :: "sha_state \<Rightarrow> sha_state \<Rightarrow> sha_state" where
  "sha_add (a, b, c, d, e, f, g, h) (a', b', c', d', e', f', g', h') =
     (a + a', b + b', c + c', d + d', e + e', f + f', g + g', h + h')"

definition sha_block :: "sha_state \<Rightarrow> w32 list \<Rightarrow> sha_state" where
  "sha_block s ws =
     sha_add s (foldl sha_round s (map2 (+) sha_K (rev (sha_schedule 48 (rev ws)))))"

definition be_bytes :: "nat \<Rightarrow> nat \<Rightarrow> bytes" where
  "be_bytes k n = map (\<lambda>i. char_of (n div 256 ^ (k - 1 - i))) [0..<k]"

definition sha_pad :: "bytes \<Rightarrow> bytes" where
  "sha_pad m =
     (let z = (119 - length m mod 64) mod 64
      in m @ [char_of (128 :: nat)] @ replicate z (char_of (0 :: nat)) @ be_bytes 8 (8 * length m))"

fun sha_words :: "bytes \<Rightarrow> w32 list" where
  "sha_words (a # b # c # d # r) =
     word_of_nat (((of_char a * 256 + of_char b) * 256 + of_char c) * 256 + of_char d) # sha_words r"
| "sha_words _ = []"

fun sha_blocks :: "nat \<Rightarrow> sha_state \<Rightarrow> w32 list \<Rightarrow> sha_state" where
  "sha_blocks 0 s ws = s"
| "sha_blocks (Suc n) s ws = sha_blocks n (sha_block s (take 16 ws)) (drop 16 ws)"

fun sha_out :: "sha_state \<Rightarrow> bytes" where
  "sha_out (a, b, c, d, e, f, g, h) = concat (map (\<lambda>w. be_bytes 4 (unat w)) [a, b, c, d, e, f, g, h])"

definition sha256 :: "bytes \<Rightarrow> bytes" where
  "sha256 m = (let ws = sha_words (sha_pad m) in sha_out (sha_blocks (length ws div 16) sha_H0 ws))"

lemma length_be_bytes [simp]: "length (be_bytes k n) = k"
  by (simp add: be_bytes_def)

lemma length_sha_out [simp]: "length (sha_out s) = 32"
  by (induction s rule: sha_out.induct) simp

lemma length_sha256: "length (sha256 m) = 32"
  by (simp add: sha256_def Let_def)

text \<open>Padding fills whole blocks of 64 bytes, so no byte of the message is left out.\<close>

lemma sha_pad_arith: "(n + 1 + (119 - n mod 64) mod 64 + 8) mod 64 = 0" for n :: nat
proof -
  define q r where "q = n div 64" and "r = n mod 64"
  then have n: "n = 64 * q + r" and r: "r < 64" by simp_all
  show ?thesis
  proof (cases "r \<le> 55")
    case True
    then have "119 - r = (55 - r) + 64" by simp
    then have "(119 - r) mod 64 = 55 - r" by (simp only: mod_add_self2) simp
    with True have "n + 1 + (119 - r) mod 64 + 8 = 64 * (q + 1)" by (simp add: n)
    then show ?thesis by (simp only: r_def [symmetric] mod_mult_self1_is_0)
  next
    case False
    with r have "(119 - r) mod 64 = 119 - r" by simp
    with r False have "n + 1 + (119 - r) mod 64 + 8 = 64 * (q + 2)" by (simp add: n)
    then show ?thesis by (simp only: r_def [symmetric] mod_mult_self1_is_0)
  qed
qed

lemma sha_pad_blocks: "length (sha_pad m) mod 64 = 0"
  using sha_pad_arith [of "length m"] by (simp add: sha_pad_def Let_def add.commute add.left_commute)

section \<open>The interface of the hash\<close>

locale digest =
  fixes H :: "bytes \<Rightarrow> bytes"
  assumes length_digest: "length (H m) = 32"
begin

lemma length_hex_digest: "length (hexEncode (H m)) = 64"
  by (simp add: length_digest)

lemma length_hex_half: "length (hexEncode (take 16 (H m))) = 32"
  by (simp add: length_digest)

end

interpretation sha: digest sha256
  by unfold_locales (rule length_sha256)

section \<open>Unpadded URL-safe base64\<close>

definition b64Alphabet :: string where
  "b64Alphabet = ''ABCDEFGHIJKLMNOPQRSTUVWXYZabcdefghijklmnopqrstuvwxyz0123456789-_''"

fun b64Sextets :: "nat list \<Rightarrow> nat list" where
  "b64Sextets [] = []"
| "b64Sextets [a] = [a div 4, (a mod 4) * 16]"
| "b64Sextets [a, b] = [a div 4, (a mod 4) * 16 + b div 16, (b mod 16) * 4]"
| "b64Sextets (a # b # c # r) =
     [a div 4, (a mod 4) * 16 + b div 16, (b mod 16) * 4 + c div 64, c mod 64] @ b64Sextets r"

fun b64Octets :: "nat list \<Rightarrow> nat list option" where
  "b64Octets [] = Some []"
| "b64Octets [w] = None"
| "b64Octets [w, x] = Some [w * 4 + x div 16]"
| "b64Octets [w, x, y] = Some [w * 4 + x div 16, (x mod 16) * 16 + y div 4]"
| "b64Octets (w # x # y # z # r) =
     map_option (\<lambda>t. [w * 4 + x div 16, (x mod 16) * 16 + y div 4, (y mod 4) * 64 + z] @ t)
       (b64Octets r)"

fun indexOf :: "char \<Rightarrow> string \<Rightarrow> nat option" where
  "indexOf c [] = None"
| "indexOf c (x # xs) = (if c = x then Some 0 else map_option Suc (indexOf c xs))"

fun mapOption :: "('a \<Rightarrow> 'b option) \<Rightarrow> 'a list \<Rightarrow> 'b list option" where
  "mapOption f [] = Some []"
| "mapOption f (x # xs) =
     (case f x of None \<Rightarrow> None | Some y \<Rightarrow> map_option (\<lambda>ys. y # ys) (mapOption f xs))"

text \<open>\<open>EncodeToString\<close> and \<open>DecodeString\<close> of \<open>base64.RawURLEncoding\<close>: decoding skips line
  breaks, refuses any other byte outside the alphabet (the padding byte too) and a last group
  of a single character.\<close>

definition rawURLEncode :: "bytes \<Rightarrow> string" where
  "rawURLEncode bs = map (\<lambda>s. b64Alphabet ! s) (b64Sextets (map of_char bs))"

definition rawURLDecode :: "string \<Rightarrow> bytes option" where
  "rawURLDecode s =
     (case mapOption (\<lambda>c. indexOf c b64Alphabet)
             (filter (\<lambda>c. c \<noteq> char_of (10 :: nat) \<and> c \<noteq> char_of (13 :: nat)) s) of
        None \<Rightarrow> None
      | Some ss \<Rightarrow> map_option (map char_of) (b64Octets ss))"

lemma b64Sextets_bound: "list_all (\<lambda>a. a < 256) bs \<Longrightarrow> list_all (\<lambda>s. s < 64) (b64Sextets bs)"
  by (induction bs rule: b64Sextets.induct) auto

lemma b64Octets_Sextets: "list_all (\<lambda>a. a < 256) bs \<Longrightarrow> b64Octets (b64Sextets bs) = Some bs"
proof (induction bs rule: b64Sextets.induct)
  case (4 a b c r)
  then show ?case by (auto; presburger)
qed auto

lemma length_b64Sextets: "length (b64Sextets bs) = (4 * length bs + 2) div 3"
  by (induction bs rule: b64Sextets.induct) auto

lemma indexOf_nth: "distinct xs \<Longrightarrow> i < length xs \<Longrightarrow> indexOf (xs ! i) xs = Some i"
  by (induction xs arbitrary: i) (auto simp: nth_Cons split: nat.splits)

lemma distinct_b64Alphabet: "distinct b64Alphabet"
  by (simp add: b64Alphabet_def)

lemma length_b64Alphabet: "length b64Alphabet = 64"
  by (simp add: b64Alphabet_def)

lemma mapOption_map:
  "(\<And>x. x \<in> set xs \<Longrightarrow> f (g x) = Some x) \<Longrightarrow> mapOption f (map g xs) = Some xs"
  by (induction xs) auto

lemma b64Alphabet_no_break:
  "i < 64 \<Longrightarrow> b64Alphabet ! i \<noteq> char_of (10 :: nat) \<and> b64Alphabet ! i \<noteq> char_of (13 :: nat)"
proof -
  have "list_all (\<lambda>c. c \<noteq> char_of (10 :: nat) \<and> c \<noteq> char_of (13 :: nat)) b64Alphabet"
    by code_simp
  then show "i < 64 \<Longrightarrow> ?thesis" by (simp add: list_all_length length_b64Alphabet)
qed

lemma rawURL_roundtrip: "rawURLDecode (rawURLEncode bs) = Some bs"
proof -
  let ?ns = "map of_char bs :: nat list" and ?ok = "\<lambda>c. c \<noteq> char_of (10 :: nat) \<and> c \<noteq> char_of (13 :: nat)"
  have ns: "list_all (\<lambda>a. a < 256) ?ns" by (simp add: list_all_iff)
  then have bound: "s < 64" if "s \<in> set (b64Sextets ?ns)" for s
    using b64Sextets_bound [OF ns] that by (simp add: list_all_iff)
  then have "filter ?ok (rawURLEncode bs) = rawURLEncode bs"
    by (auto simp: rawURLEncode_def b64Alphabet_no_break filter_id_conv)
  moreover have "mapOption (\<lambda>c. indexOf c b64Alphabet) (rawURLEncode bs) = Some (b64Sextets ?ns)"
    unfolding rawURLEncode_def
    by (rule mapOption_map) (simp add: indexOf_nth distinct_b64Alphabet length_b64Alphabet bound)
  ultimately show ?thesis
    by (simp add: rawURLDecode_def b64Octets_Sextets [OF ns] comp_def)
qed

lemma rawURLEncode_inj: "rawURLEncode a = rawURLEncode b \<longleftrightarrow> a = b"
  by (metis rawURL_roundtrip option.inject)

lemma length_rawURLEncode: "length (rawURLEncode bs) = (4 * length bs + 2) div 3"
  by (simp add: rawURLEncode_def length_b64Sextets)

end
