(* ===== verification/Kube.thy ===== *)
theory Kube
  imports Prelude
begin

text \<open>
  The Kubernetes API as the program sees it. The client of controller-runtime is not part of
  the repository: it is an argument of every operation that calls it, a record of functions
  over an unknown cluster state, one such record per kind of object. The locale \<open>kube_kind\<close>
  names the documented behaviour the proofs rely on; the theory Cluster holds a server that
  satisfies it.
\<close>

type_synonym nsname = "string \<times> string"

section \<open>Object metadata, Secrets and ConfigMaps\<close>

text \<open>
  The fields of \<open>metav1.ObjectMeta\<close> the program reads or writes. \<open>om_deleting\<close> is
  \<open>!DeletionTimestamp.IsZero()\<close>; \<open>om_owner\<close> is the kind and name of the controller owner
  reference.
\<close>

record objmeta =
  om_name :: string
  om_namespace :: string
  om_labels :: "string gomap"
  om_annotations :: "string gomap"
  om_finalizers :: "string list"
  om_deleting :: bool
  om_generation :: int
  om_rv :: string
  om_owner :: "(string \<times> string) option"

definition newMeta :: "string \<Rightarrow> string \<Rightarrow> string gomap \<Rightarrow> objmeta" where
  "newMeta name ns labels =
     \<lparr>om_name = name, om_namespace = ns, om_labels = labels, om_annotations = [],
      om_finalizers = [], om_deleting = False, om_generation = 0, om_rv = [], om_owner = None\<rparr>"

definition metaKey :: "objmeta \<Rightarrow> nsname" where
  "metaKey m = (om_namespace m, om_name m)"

text \<open>What an update hands to the server, without the fields the server sets itself.\<close>

definition written :: "objmeta \<Rightarrow> objmeta" where
  "written m = m\<lparr>om_generation := 0, om_rv := []\<rparr>"

text \<open>An object whose deletion was requested stays until its last finalizer is removed.\<close>

definition alive :: "objmeta \<Rightarrow> bool" where
  "alive m \<longleftrightarrow> \<not> (om_deleting m \<and> om_finalizers m = [])"

record secret =
  sec_meta :: objmeta
  sec_type :: string
  sec_data :: "bytes gomap"

record configmap =
  cm_meta :: objmeta
  cm_data :: "string gomap"

definition secretContent :: "secret \<Rightarrow> secret" where
  "secretContent x = x\<lparr>sec_meta := written (sec_meta x)\<rparr>"

definition configmapContent :: "configmap \<Rightarrow> configmap" where
  "configmapContent x = x\<lparr>cm_meta := written (cm_meta x)\<rparr>"

lemma secretContent_eqD:
  "secretContent x = secretContent y \<Longrightarrow> sec_data x = sec_data y \<and> sec_type x = sec_type y \<and>
     om_labels (sec_meta x) = om_labels (sec_meta y)"
  by (cases x, cases y, cases "sec_meta x", cases "sec_meta y")
    (simp add: secretContent_def written_def)

lemma configmapContent_eqD:
  "configmapContent x = configmapContent y \<Longrightarrow> cm_data x = cm_data y \<and>
     om_labels (cm_meta x) = om_labels (cm_meta y)"
  by (cases x, cases y, cases "cm_meta x", cases "cm_meta y")
    (simp add: configmapContent_def written_def)

section \<open>The client\<close>

record ('k, 'o) typed_client =
  tc_get :: "nsname \<Rightarrow> ('k, 'o) action"
  tc_list :: "string \<Rightarrow> string gomap \<Rightarrow> ('k, 'o list) action"
  tc_create :: "'o \<Rightarrow> ('k, 'o) action"
  tc_update :: "'o \<Rightarrow> ('k, 'o) action"
  tc_status_update :: "'o \<Rightarrow> ('k, 'o) action"
  tc_delete :: "nsname \<Rightarrow> ('k, unit) action"

text \<open>
  \<open>tc_list ns sel\<close> lists the objects of the namespace (of every namespace when it is empty)
  whose labels contain \<open>sel\<close>. A call hands back the object as the server stored it, which is
  what controller-runtime writes into the object passed to it.
\<close>

definition matchesLabels :: "string gomap \<Rightarrow> objmeta \<Rightarrow> bool" where
  "matchesLabels sel m \<longleftrightarrow> list_all (\<lambda>(k, v). map_of (om_labels m) k = Some v) sel"

definition inNamespace :: "string \<Rightarrow> objmeta \<Rightarrow> bool" where
  "inNamespace ns m \<longleftrightarrow> ns = [] \<or> om_namespace m = ns"

section \<open>Documented behaviour\<close>

text \<open>
  \<open>view s\<close> is what the API server holds for the kind: reads do not change it and return it, a
  successful write stores what was written under the object's key, and a failed write either
  changed nothing or was applied all the same (a response that was lost). No other writer acts
  during the call: interleavings are a matter of the theory that runs several requests.

  A read is fresh: \<open>get_ok\<close> and \<open>list_ok\<close> say that it returns what the server holds at that moment.
  For the key-manager, whose client reads the server itself, and for the webhooks, which use the
  uncached \<open>mgr.GetAPIReader()\<close>, that is what the API promises. The reconcilers of the operator are
  given \<open>mgr.GetClient()\<close>, whose reads of typed objects come from the manager's cache and may lag
  behind: for them it is an assumption, and what is proved of a pass holds of a pass whose reads
  were up to date.
\<close>

locale kube_kind =
  fixes C :: "('k, 'o) typed_client"
    and view :: "'k \<Rightarrow> nsname \<Rightarrow> 'o option"
    and metaOf :: "'o \<Rightarrow> objmeta"
    and content :: "'o \<Rightarrow> 'c"
  assumes get_ok: "tc_get C n s = (Inr x, s') \<Longrightarrow> view s n = Some x \<and> view s' = view s"
    and get_err: "tc_get C n s = (Inl e, s') \<Longrightarrow> view s' = view s \<and> (isNotFound e \<longrightarrow> view s n = None)"
    and view_key: "view s n = Some x \<Longrightarrow> metaKey (metaOf x) = n \<and> alive (metaOf x)"
    and list_ok: "tc_list C ns sel s = (Inr xs, s') \<Longrightarrow> view s' = view s \<and>
      set xs = {x. \<exists>n. view s n = Some x \<and> inNamespace ns (metaOf x) \<and> matchesLabels sel (metaOf x)}"
    and list_err: "tc_list C ns sel s = (Inl e, s') \<Longrightarrow> view s' = view s"
    and update_ok: "tc_update C x s = (Inr y, s') \<Longrightarrow> alive (metaOf x) \<Longrightarrow>
      view s (metaKey (metaOf x)) \<noteq> None \<and> metaKey (metaOf y) = metaKey (metaOf x) \<and>
      content y = content x \<and> view s' = (view s)(metaKey (metaOf x) \<mapsto> y)"
    and update_err: "tc_update C x s = (Inl e, s') \<Longrightarrow> alive (metaOf x) \<Longrightarrow>
      view s' = view s \<or> (\<exists>y. view s (metaKey (metaOf x)) \<noteq> None \<and>
        metaKey (metaOf y) = metaKey (metaOf x) \<and> content y = content x \<and>
        view s' = (view s)(metaKey (metaOf x) \<mapsto> y))"
    and create_ok: "tc_create C x s = (Inr y, s') \<Longrightarrow> alive (metaOf x) \<Longrightarrow>
      view s (metaKey (metaOf x)) = None \<and> metaKey (metaOf y) = metaKey (metaOf x) \<and>
      content y = content x \<and> view s' = (view s)(metaKey (metaOf x) \<mapsto> y)"
    and create_err: "tc_create C x s = (Inl e, s') \<Longrightarrow> alive (metaOf x) \<Longrightarrow>
      view s' = view s \<or> (\<exists>y. view s (metaKey (metaOf x)) = None \<and>
        metaKey (metaOf y) = metaKey (metaOf x) \<and> content y = content x \<and>
        view s' = (view s)(metaKey (metaOf x) \<mapsto> y))"
    and create_exists: "tc_create C x s = (Inl e, s') \<Longrightarrow> isAlreadyExists e \<Longrightarrow>
      view s (metaKey (metaOf x)) \<noteq> None"
begin

text \<open>What a write can have done, whether or not it reported success.\<close>

lemma update_cases:
  assumes "tc_update C x s = (r, s')" and "alive (metaOf x)"
  shows "view s' = view s \<or> (\<exists>y. metaKey (metaOf y) = metaKey (metaOf x) \<and> content y = content x \<and>
    view s' = (view s)(metaKey (metaOf x) \<mapsto> y))"
  using assms update_ok [of x s _ s'] update_err [of x s _ s'] by (cases r) blast+

lemma get_view: "tc_get C n s = (r, s') \<Longrightarrow> view s' = view s"
  using get_ok [of n s _ s'] get_err [of n s _ s'] by (cases r) auto

lemma list_view: "tc_list C ns sel s = (r, s') \<Longrightarrow> view s' = view s"
  using list_ok [of ns sel s _ s'] list_err [of ns sel s _ s'] by (cases r) auto

end

text \<open>
  Deletion: an object without finalizers goes at once, one with finalizers is marked and stays;
  an update that takes the last finalizer off a marked object removes it.
\<close>

definition gone :: "('o \<Rightarrow> objmeta) \<Rightarrow> (nsname \<Rightarrow> 'o option) \<Rightarrow> nsname \<Rightarrow> (nsname \<Rightarrow> 'o option) \<Rightarrow> bool" where
  "gone metaOf v n v' \<longleftrightarrow> (\<forall>k. k \<noteq> n \<longrightarrow> v' k = v k) \<and>
     (case v n of None \<Rightarrow> v' n = None
      | Some x \<Rightarrow> if om_finalizers (metaOf x) = [] then v' n = None
          else (\<exists>y. v' n = Some y \<and> om_deleting (metaOf y)))"

locale kube_deletes = kube_kind +
  assumes delete_ok: "tc_delete C n s = (Inr u, s') \<Longrightarrow> view s n \<noteq> None \<and> gone metaOf (view s) n (view s')"
    and delete_err: "tc_delete C n s = (Inl e, s') \<Longrightarrow>
      (view s' = view s \<or> gone metaOf (view s) n (view s')) \<and> (isNotFound e \<longrightarrow> view s n = None)"
    and release_ok: "tc_update C x s = (Inr y, s') \<Longrightarrow> \<not> alive (metaOf x) \<Longrightarrow>
      view s (metaKey (metaOf x)) \<noteq> None \<and> view s' = (view s)(metaKey (metaOf x) := None)"
    and release_err: "tc_update C x s = (Inl e, s') \<Longrightarrow> \<not> alive (metaOf x) \<Longrightarrow>
      view s' = view s \<or> view s' = (view s)(metaKey (metaOf x) := None)"
begin

lemma delete_cases:
  assumes "tc_delete C n s = (r, s')"
  shows "view s' = view s \<or> gone metaOf (view s) n (view s')"
  using assms delete_ok [of n s _ s'] delete_err [of n s _ s'] by (cases r) auto

end

text \<open>
  A client all of whose calls relate the states by \<open>R\<close>, and one none of whose calls changes what
  \<open>v\<close> reads of the cluster.
\<close>

definition clientKeeps :: "('k \<Rightarrow> 'k \<Rightarrow> bool) \<Rightarrow> ('k, 'o) typed_client \<Rightarrow> bool" where
  "clientKeeps R c \<longleftrightarrow> (\<forall>n. keeps R (tc_get c n)) \<and> (\<forall>ns sel. keeps R (tc_list c ns sel)) \<and>
     (\<forall>x. keeps R (tc_create c x) \<and> keeps R (tc_update c x) \<and> keeps R (tc_status_update c x)) \<and>
     (\<forall>n. keeps R (tc_delete c n))"

definition unaffected :: "('k \<Rightarrow> 'v) \<Rightarrow> ('k, 'o) typed_client \<Rightarrow> bool" where
  "unaffected v c \<longleftrightarrow> clientKeeps (same v) c"

lemma clientKeepsD:
  assumes "clientKeeps R c"
  shows "keeps R (tc_get c n)" "keeps R (tc_list c ns sel)" "keeps R (tc_create c x)"
    "keeps R (tc_update c x)" "keeps R (tc_status_update c x)" "keeps R (tc_delete c n)"
  using assms by (simp_all add: clientKeeps_def del: split_paired_All)

lemmas unaffectedD = clientKeepsD [OF iffD1 [OF unaffected_def]]

lemma unaffected_keeps:
  assumes "unaffected v c" and "\<And>s s'. v s' = v s \<Longrightarrow> R s s'"
  shows "clientKeeps R c"
  using assms by (auto simp: unaffected_def clientKeeps_def keeps_def same_def simp del: split_paired_All)

lemma keeps_sameD: "keeps (same v) f \<Longrightarrow> f s = (r, s') \<Longrightarrow> v s' = v s"
  by (simp add: keeps_def same_def)

lemmas quietD = keeps_sameD [OF unaffectedD(1)] keeps_sameD [OF unaffectedD(2)]
  keeps_sameD [OF unaffectedD(3)] keeps_sameD [OF unaffectedD(4)]
  keeps_sameD [OF unaffectedD(5)] keeps_sameD [OF unaffectedD(6)]

text \<open>Two kinds of one cluster: a call for one kind leaves the objects of the other alone.\<close>

locale kube_two =
  A: kube_kind CA viewA metaA contentA + B: kube_kind CB viewB metaB contentB
  for CA :: "('k, 'a) typed_client" and viewA metaA contentA
    and CB :: "('k, 'b) typed_client" and viewB metaB contentB +
  assumes A_quiet: "unaffected viewB CA"
    and B_quiet: "unaffected viewA CB"
begin

lemma get_A_B: "tc_get CA n s = (r, s') \<Longrightarrow> viewB s' = viewB s"
  by (rule quietD(1) [OF A_quiet])

lemma get_B_A: "tc_get CB n s = (r, s') \<Longrightarrow> viewA s' = viewA s"
  by (rule quietD(1) [OF B_quiet])

lemma list_B_A: "tc_list CB ns sel s = (r, s') \<Longrightarrow> viewA s' = viewA s"
  by (rule quietD(2) [OF B_quiet])

lemma create_A_B: "tc_create CA x s = (r, s') \<Longrightarrow> viewB s' = viewB s"
  by (rule quietD(3) [OF A_quiet])

lemma create_B_A: "tc_create CB y s = (r, s') \<Longrightarrow> viewA s' = viewA s"
  by (rule quietD(3) [OF B_quiet])

lemma update_A_B: "tc_update CA x s = (r, s') \<Longrightarrow> viewB s' = viewB s"
  by (rule quietD(4) [OF A_quiet])

lemma update_B_A: "tc_update CB y s = (r, s') \<Longrightarrow> viewA s' = viewA s"
  by (rule quietD(4) [OF B_quiet])

end

end
