(* ===== verification/ApiTypes.thy ===== *)
theory ApiTypes
  imports Kube
begin

text \<open>
  The custom resources of \<open>operator/api/v1alpha1\<close>: \<open>LLMModel\<close> and \<open>PassthroughModel\<close>, and
  the operator's configuration record of \<open>operator/internal/config\<close>. A Go string type with
  named constants stays a string here, because the API server may hand over any value of it
  and the code's \<open>switch\<close> statements fall to their default. Pointers are options. The types of
  \<open>k8s.io\<close> the specs embed are kept as far as the code looks into them: a resource list maps
  names to quantity texts, affinity and the scheduler configuration are opaque texts.
\<close>

section \<open>LLMModel\<close>

definition ModelSourceHuggingFace :: string where "ModelSourceHuggingFace = ''huggingface''"
definition ModelSourceOCI :: string where "ModelSourceOCI = ''oci''"
definition StorageTypePVC :: string where "StorageTypePVC = ''pvc''"
definition StorageTypeEmptyDir :: string where "StorageTypeEmptyDir = ''emptyDir''"

record StorageSpec =
  sto_type :: string
  sto_size :: string
  sto_storageClassName :: string

record ModelSpec =
  mod_name :: string
  mod_source :: string
  mod_revision :: string
  mod_authSecretName :: string
  mod_image :: string
  mod_storage :: StorageSpec
  mod_preload :: "bool option"

record GPUSpec =
  gpu_count :: int
  gpu_type :: string

record ResourceSpec =
  res_gpu :: GPUSpec
  res_requests :: "string gomap"
  res_limits :: "string gomap"

record MonitoringSpec =
  mon_enabled :: "bool option"

record ServingSpec =
  srv_image :: string
  srv_command :: "string list"
  srv_replicas :: "int option"
  srv_tensorParallelism :: "int option"
  srv_dataParallelism :: "int option"
  srv_vllmArgs :: "string list"
  srv_updateStrategy :: string
  srv_monitoring :: MonitoringSpec

definition UpdateStrategyRecreate :: string where "UpdateStrategyRecreate = ''Recreate''"
definition UpdateStrategyRollingUpdate :: string where
  "UpdateStrategyRollingUpdate = ''RollingUpdate''"

record AccessSpec =
  acc_public :: "bool option"
  acc_groups :: "string list"

record ExternalEndpointSpec =
  ext_enabled :: "bool option"
  ext_subdomain :: string

record InternalEndpointSpec =
  int_enabled :: "bool option"

record EndpointSpec =
  ep_external :: ExternalEndpointSpec
  ep_internal :: InternalEndpointSpec
  ep_requestTimeout :: string

record Toleration =
  tol_key :: string
  tol_operator :: string
  tol_value :: string
  tol_effect :: string

text \<open>An environment variable has a value or refers to a Secret by name and key.\<close>

record EnvVar =
  env_name :: string
  env_value :: string
  env_secretKeyRef :: "(string \<times> string) option"

record VLLMAdvancedSpec =
  adv_extraArgs :: "string list"
  adv_extraEnv :: "EnvVar list"
  adv_tolerations :: "Toleration list"
  adv_nodeSelector :: "string gomap"
  adv_affinity :: "string option"

record InferencePoolAdvancedSpec =
  ipa_schedulerConfig :: "string option"

record AdvancedSpec =
  adv_vllm :: VLLMAdvancedSpec
  adv_inferencePool :: InferencePoolAdvancedSpec

record LLMModelSpec =
  spec_model :: ModelSpec
  spec_resources :: ResourceSpec
  spec_serving :: ServingSpec
  spec_access :: AccessSpec
  spec_endpoints :: EndpointSpec
  spec_advanced :: AdvancedSpec

text \<open>\<open>LLMModelPhase\<close>: the constants of the type, and the empty string of a fresh object.\<close>

datatype LLMModelPhase = PhaseNone | PhasePending | PhaseDownloading | PhaseStarting | PhaseReady
  | PhaseDegraded | PhaseError

record ReplicaStatus =
  rs_ready :: int
  rs_desired :: int

record EndpointStatus =
  eps_external :: string
  eps_internal :: string

record Condition =
  cond_type :: string
  cond_status :: bool
  cond_reason :: string
  cond_message :: string
  cond_observedGeneration :: int

record LLMModelStatus =
  lst_phase :: LLMModelPhase
  lst_conditions :: "Condition list"
  lst_observedGeneration :: int
  lst_modelSize :: string
  lst_replicas :: ReplicaStatus
  lst_endpoints :: EndpointStatus

record LLMModel =
  lm_meta :: objmeta
  lm_spec :: LLMModelSpec
  lm_status :: LLMModelStatus

section \<open>PassthroughModel\<close>

record ProviderSpec =
  prov_hostname :: string
  prov_port :: int
  prov_schemaVersion :: string
  prov_credentialSecretName :: string

record PassthroughModels =
  pms_catchAll :: bool
  pms_declared :: "string list"

record EndpointToggle =
  tog_enabled :: "bool option"

record PassthroughEndpoints =
  pep_external :: EndpointToggle
  pep_internal :: EndpointToggle

record PassthroughModelSpec =
  pspec_provider :: ProviderSpec
  pspec_models :: PassthroughModels
  pspec_access :: AccessSpec
  pspec_endpoints :: PassthroughEndpoints

datatype PassthroughModelPhase = PassthroughPhaseNone | PassthroughPhaseReady | PassthroughPhaseError

record PassthroughModelStatus =
  pst_phase :: PassthroughModelPhase
  pst_conditions :: "Condition list"
  pst_observedGeneration :: int
  pst_endpoints :: EndpointStatus

record PassthroughModel =
  pm_meta :: objmeta
  pm_spec :: PassthroughModelSpec
  pm_status :: PassthroughModelStatus

section \<open>Operator configuration\<close>

record OperatorConfig =
  cfg_BaseDomain :: string
  cfg_ExternalGatewayName :: string
  cfg_ExternalGatewayNS :: string
  cfg_InternalGatewayName :: string
  cfg_InternalGatewayNS :: string
  cfg_OIDCIssuerURL :: string
  cfg_OIDCGroupsClaim :: string
  cfg_OIDCAudience :: string
  cfg_DefaultServingImage :: string
  cfg_DefaultEPPImage :: string
  cfg_DefaultStorageClassName :: string
  cfg_APIKeysNamespace :: string
  cfg_OperatorNamespace :: string
  cfg_ClusterIssuerName :: string
  cfg_TLSSecretName :: string
  cfg_ManageSharedListeners :: bool

text \<open>Sample values, used by the closed instances of the properties.\<close>

definition sampleModel :: "string \<Rightarrow> string \<Rightarrow> AccessSpec \<Rightarrow> LLMModel" where
  "sampleModel name ns acc =
     \<lparr>lm_meta = newMeta name ns [],
      lm_spec =
        \<lparr>spec_model = \<lparr>mod_name = ''org/'' @ name, mod_source = ModelSourceHuggingFace,
           mod_revision = [], mod_authSecretName = [], mod_image = [],
           mod_storage = \<lparr>sto_type = StorageTypePVC, sto_size = ''30Gi'', sto_storageClassName = []\<rparr>,
           mod_preload = None\<rparr>,
         spec_resources = \<lparr>res_gpu = \<lparr>gpu_count = 1, gpu_type = ''nvidia''\<rparr>,
           res_requests = [], res_limits = []\<rparr>,
         spec_serving = \<lparr>srv_image = [], srv_command = [], srv_replicas = Some 1,
           srv_tensorParallelism = None, srv_dataParallelism = Some 1, srv_vllmArgs = [],
           srv_updateStrategy = UpdateStrategyRecreate, srv_monitoring = \<lparr>mon_enabled = None\<rparr>\<rparr>,
         spec_access = acc,
         spec_endpoints = \<lparr>ep_external = \<lparr>ext_enabled = Some True, ext_subdomain = []\<rparr>,
           ep_internal = \<lparr>int_enabled = Some True\<rparr>, ep_requestTimeout = ''600s''\<rparr>,
         spec_advanced = \<lparr>adv_vllm = \<lparr>adv_extraArgs = [], adv_extraEnv = [], adv_tolerations = [],
           adv_nodeSelector = [], adv_affinity = None\<rparr>, adv_inferencePool = \<lparr>ipa_schedulerConfig = None\<rparr>\<rparr>\<rparr>,
      lm_status = \<lparr>lst_phase = PhaseNone, lst_conditions = [], lst_observedGeneration = 0,
        lst_modelSize = [], lst_replicas = \<lparr>rs_ready = 0, rs_desired = 0\<rparr>, lst_endpoints = \<lparr>eps_external = [], eps_internal = []\<rparr>\<rparr>\<rparr>"

definition samplePassthrough :: "string \<Rightarrow> string \<Rightarrow> AccessSpec \<Rightarrow> PassthroughModel" where
  "samplePassthrough name ns acc =
     \<lparr>pm_meta = newMeta name ns [],
      pm_spec =
        \<lparr>pspec_provider = \<lparr>prov_hostname = ''openrouter.ai'', prov_port = 443,
           prov_schemaVersion = ''api/v1'', prov_credentialSecretName = ''cred''\<rparr>,
         pspec_models = \<lparr>pms_catchAll = False, pms_declared = [''gpt'']\<rparr>,
         pspec_access = acc,
         pspec_endpoints = \<lparr>pep_external = \<lparr>tog_enabled = None\<rparr>, pep_internal = \<lparr>tog_enabled = None\<rparr>\<rparr>\<rparr>,
      pm_status = \<lparr>pst_phase = PassthroughPhaseNone, pst_conditions = [],
        pst_observedGeneration = 0, pst_endpoints = \<lparr>eps_external = [], eps_internal = []\<rparr>\<rparr>\<rparr>"

definition sampleConfig :: OperatorConfig where
  "sampleConfig =
     \<lparr>cfg_BaseDomain = ''example.com'', cfg_ExternalGatewayName = ''gw'',
      cfg_ExternalGatewayNS = ''egs'', cfg_InternalGatewayName = ''gw'', cfg_InternalGatewayNS = ''egs'',
      cfg_OIDCIssuerURL = ''https://kc/realms/nebari'', cfg_OIDCGroupsClaim = ''groups'',
      cfg_OIDCAudience = [], cfg_DefaultServingImage = ''vllm'', cfg_DefaultEPPImage = ''epp'',
      cfg_DefaultStorageClassName = [], cfg_APIKeysNamespace = [], cfg_OperatorNamespace = ''llm'',
      cfg_ClusterIssuerName = ''le'', cfg_TLSSecretName = [], cfg_ManageSharedListeners = True\<rparr>"

end
