(* ===== verification/Config.thy ===== *)
theory Config
  imports ApiTypes
begin

text \<open>
  \<open>operator/internal/config/config.go\<close>: the operator's configuration, read once from the
  environment (a map of variables; an unset one reads as the empty string).
\<close>

definition getEnvBool :: "environ \<Rightarrow> string \<Rightarrow> bool \<Rightarrow> bool" where
  "getEnvBool e key defaultVal =
     (let v = toLower (getenv e key)
      in if v = [] then defaultVal else v \<in> {''true'', ''1'', ''yes'', ''on''})"

text \<open>The closure \<open>require\<close>, on the list of missing names.\<close>

definition require :: "environ \<Rightarrow> string \<Rightarrow> string list \<Rightarrow> string \<times> string list" where
  "require e key missing = (let v = getenv e key in (v, if v = [] then missing @ [key] else missing))"

definition LoadFromEnv :: "environ \<Rightarrow> gerror + OperatorConfig" where
  "LoadFromEnv e =
     (let (baseDomain, missing) = require e ''LLM_BASE_DOMAIN'' [];
          (externalName, missing) = require e ''LLM_EXTERNAL_GATEWAY_NAME'' missing;
          (internalName, missing) = require e ''LLM_INTERNAL_GATEWAY_NAME'' missing;
          (issuer, missing) = require e ''LLM_OIDC_ISSUER_URL'' missing;
          cfg = \<lparr>cfg_BaseDomain = baseDomain, cfg_ExternalGatewayName = externalName,
            cfg_ExternalGatewayNS = getEnvOrDefault e ''LLM_EXTERNAL_GATEWAY_NAMESPACE'' ''envoy-gateway-system'',
            cfg_InternalGatewayName = internalName,
            cfg_InternalGatewayNS = getEnvOrDefault e ''LLM_INTERNAL_GATEWAY_NAMESPACE'' ''envoy-gateway-system'',
            cfg_OIDCIssuerURL = issuer,
            cfg_OIDCGroupsClaim = getEnvOrDefault e ''LLM_OIDC_GROUPS_CLAIM'' ''groups'',
            cfg_OIDCAudience = getenv e ''LLM_OIDC_AUDIENCE'',
            cfg_DefaultServingImage =
              getEnvOrDefault e ''LLM_DEFAULT_SERVING_IMAGE'' ''ghcr.io/llm-d/llm-d-cuda:v0.7.0'',
            cfg_DefaultEPPImage =
              getEnvOrDefault e ''LLM_DEFAULT_EPP_IMAGE'' ''ghcr.io/llm-d/llm-d-inference-scheduler:v0.8.0'',
            cfg_DefaultStorageClassName = getenv e ''LLM_DEFAULT_STORAGE_CLASS_NAME'',
            cfg_APIKeysNamespace = getenv e ''LLM_API_KEYS_NAMESPACE'',
            cfg_OperatorNamespace = getenv e ''POD_NAMESPACE'',
            cfg_ClusterIssuerName = getEnvOrDefault e ''LLM_CLUSTER_ISSUER_NAME'' ''letsencrypt-production'',
            cfg_TLSSecretName = getenv e ''LLM_TLS_SECRET_NAME'',
            cfg_ManageSharedListeners = getEnvBool e ''LLM_MANAGE_SHARED_LISTENERS'' True\<rparr>
      in if missing \<noteq> []
         then Inl (errorf (''missing required environment variables: '' @ join '', '' missing))
         else Inr cfg)"

section \<open>Properties\<close>

definition requiredVariables :: "string list" where
  "requiredVariables = [''LLM_BASE_DOMAIN'', ''LLM_EXTERNAL_GATEWAY_NAME'',
     ''LLM_INTERNAL_GATEWAY_NAME'', ''LLM_OIDC_ISSUER_URL'']"

text \<open>the configuration loads exactly when the four required variables are set, and otherwise the
  error names all missing ones, in order; a loaded configuration has a base domain, both gateways
  with their namespaces, an issuer, a groups claim, images and a cluster issuer.\<close>

theorem config_loads_iff_complete:
  "case LoadFromEnv e of
     Inl err \<Rightarrow> filter (\<lambda>v. getenv e v = []) requiredVariables \<noteq> [] \<and>
       errText err = ''missing required environment variables: '' @
         join '', '' (filter (\<lambda>v. getenv e v = []) requiredVariables)
   | Inr cfg \<Rightarrow> filter (\<lambda>v. getenv e v = []) requiredVariables = [] \<and>
       cfg_BaseDomain cfg = getenv e ''LLM_BASE_DOMAIN'' \<and>
       [] \<notin> {cfg_BaseDomain cfg, cfg_ExternalGatewayName cfg, cfg_ExternalGatewayNS cfg,
         cfg_InternalGatewayName cfg, cfg_InternalGatewayNS cfg, cfg_OIDCIssuerURL cfg,
         cfg_OIDCGroupsClaim cfg, cfg_DefaultServingImage cfg, cfg_DefaultEPPImage cfg,
         cfg_ClusterIssuerName cfg}"
  by (auto simp: LoadFromEnv_def require_def requiredVariables_def getEnvOrDefault_def Let_def)

end
