(* ===== verification/Common.thy ===== *)
theory Common
  imports Config Digest
begin

text \<open>
  \<open>operator/internal/controller/reconcilers/common.go\<close>: names, labels and host names shared by
  the resources of both kinds of model. The hash function is an argument, as in the key-manager's
  theories. \<open>SetOwnerReference\<close> only calls controller-runtime.
\<close>

section \<open>Slugs\<close>

text \<open>
  \<open>ReplaceAllString\<close> of the two regular expressions: a maximal run of at least \<open>k\<close> bytes of the
  class becomes one dash. A code point above ASCII is a run of bytes outside the class.
\<close>

function replaceRuns :: "(char \<Rightarrow> bool) \<Rightarrow> nat \<Rightarrow> string \<Rightarrow> string" where
  "replaceRuns p k [] = []"
| "replaceRuns p k (c # cs) =
     (if p c \<and> k \<le> length (takeWhile p (c # cs)) then CHR ''-'' # replaceRuns p k (dropWhile p cs)
      else c # replaceRuns p k cs)"
  by pat_completeness auto
termination
  by (relation "measure (\<lambda>(p, k, s). length s)") (auto simp: le_imp_less_Suc length_dropWhile_le)

definition slugByte :: "char \<Rightarrow> bool" where
  "slugByte c \<longleftrightarrow> isLowerAlpha c \<or> isDigit c \<or> c = CHR ''-''"

definition nonAlphanumericDash :: "string \<Rightarrow> string" where
  "nonAlphanumericDash s = replaceRuns (\<lambda>c. \<not> slugByte c) 1 s"

definition multipleDashes :: "string \<Rightarrow> string" where
  "multipleDashes s = replaceRuns (\<lambda>c. c = CHR ''-'') 2 s"

definition Slugify :: "(bytes \<Rightarrow> bytes) \<Rightarrow> string \<Rightarrow> string" where
  "Slugify sha name =
     (let s = toLower name; s = nonAlphanumericDash s; s = multipleDashes s;
          s = trimRightByte CHR ''-'' (trimLeftByte CHR ''-'' s)
      in if length s \<le> 48 then s
         else let hash = take 8 (hexEncode (sha name)); prefix = trimRightByte CHR ''-'' (take 48 s)
              in prefix @ ''-'' @ hash)"

section \<open>Names and labels\<close>

definition managedByLabel :: string where "managedByLabel = ''app.kubernetes.io/managed-by''"
definition instanceLabel :: string where "instanceLabel = ''app.kubernetes.io/instance''"
definition nameLabel :: string where "nameLabel = ''app.kubernetes.io/name''"
definition modelLabel :: string where "modelLabel = ''llm.nebari.dev/model''"
definition modelNameLabel :: string where "modelNameLabel = ''llm.nebari.dev/model-name''"
definition operatorName :: string where "operatorName = ''nebari-llm-operator''"

lemmas label_defs = managedByLabel_def instanceLabel_def nameLabel_def modelLabel_def
  modelNameLabel_def operatorName_def

definition lm_name :: "LLMModel \<Rightarrow> string" where "lm_name model = om_name (lm_meta model)"
definition lm_namespace :: "LLMModel \<Rightarrow> string" where "lm_namespace model = om_namespace (lm_meta model)"
definition pm_name :: "PassthroughModel \<Rightarrow> string" where "pm_name p = om_name (pm_meta p)"
definition pm_namespace :: "PassthroughModel \<Rightarrow> string" where
  "pm_namespace p = om_namespace (pm_meta p)"

definition StandardLabels :: "LLMModel \<Rightarrow> string gomap" where
  "StandardLabels model =
     [(managedByLabel, operatorName), (instanceLabel, lm_name model), (nameLabel, ''llmmodel''),
      (modelLabel, lm_name model)]"

definition APIKeySecretSuffix :: string where "APIKeySecretSuffix = ''-api-keys''"

definition APIKeySecretName :: "string \<Rightarrow> string" where
  "APIKeySecretName modelName = modelName @ APIKeySecretSuffix"

definition APIKeyMetadataConfigMapName :: "string \<Rightarrow> string" where
  "APIKeyMetadataConfigMapName modelName = modelName @ ''-api-key-metadata''"

lemma APIKeySecretName_inj [simp]: "APIKeySecretName a = APIKeySecretName b \<longleftrightarrow> a = b"
  by (simp add: APIKeySecretName_def)

section \<open>Host names\<close>

definition EffectiveSubdomain :: "(bytes \<Rightarrow> bytes) \<Rightarrow> LLMModel \<Rightarrow> gerror + string" where
  "EffectiveSubdomain sha model =
     (let subdomain = ext_subdomain (ep_external (spec_endpoints (lm_spec model)));
          subdomain = (if subdomain = [] then Slugify sha (lm_name model) else subdomain)
      in if length subdomain > 63
         then Inl (errorf (''effective subdomain '' @ quote subdomain @ '' is '' @ itoa (length subdomain) @
                '' characters long; subdomains must be 63 characters or fewer''))
         else Inr subdomain)"

definition ExternalHostname :: "string \<Rightarrow> string \<Rightarrow> string" where
  "ExternalHostname subdomain baseDomain = subdomain @ ''.llm.'' @ baseDomain"

definition InternalHostname :: "string \<Rightarrow> string \<Rightarrow> string" where
  "InternalHostname subdomain baseDomain = subdomain @ ''.llm-internal.'' @ baseDomain"

definition SharedExternalHostname :: "string \<Rightarrow> string" where
  "SharedExternalHostname baseDomain = ''llm.'' @ baseDomain"

definition SharedInternalHostname :: "string \<Rightarrow> string" where
  "SharedInternalHostname baseDomain = ''llm-internal.'' @ baseDomain"

section \<open>Lemmas on slugs\<close>

text \<open>No two adjacent dashes.\<close>

fun noDoubleDash :: "string \<Rightarrow> bool" where
  "noDoubleDash (c # d # cs) = (\<not> (c = CHR ''-'' \<and> d = CHR ''-'') \<and> noDoubleDash (d # cs))"
| "noDoubleDash _ = True"

lemma slugByte_dash [simp]: "slugByte CHR ''-''"
  by (simp add: slugByte_def)

lemma replaceRuns_class: "c \<in> set (replaceRuns p 1 s) \<Longrightarrow> c = CHR ''-'' \<or> \<not> p c"
  by (induction p "1::nat" s rule: replaceRuns.induct) (auto split: if_splits)

lemma replaceRuns_keeps: "c \<in> set (replaceRuns p k s) \<Longrightarrow> c = CHR ''-'' \<or> c \<in> set s"
  by (induction p k s rule: replaceRuns.induct) (auto split: if_splits dest: set_dropWhileD)

lemma replaceRuns_hd: "replaceRuns (\<lambda>c. c = CHR ''-'') 2 s \<noteq> [] \<Longrightarrow>
  hd (replaceRuns (\<lambda>c. c = CHR ''-'') 2 s) = hd s"
  by (cases s) auto

lemma hd_dropDash: "dropWhile (\<lambda>x. x = c) s \<noteq> [] \<Longrightarrow> hd (dropWhile (\<lambda>x. x = c) s) \<noteq> c"
  using hd_dropWhile [of "\<lambda>x. x = c" s] by simp

lemma replaceRuns_noDouble: "noDoubleDash (replaceRuns (\<lambda>c. c = CHR ''-'') 2 s)"
proof (induction s rule: length_induct)
  case (1 s)
  let ?p = "\<lambda>c. c = CHR ''-''"
  show ?case
  proof (cases s)
    case Nil
    then show ?thesis by simp
  next
    case s: (Cons c cs)
    show ?thesis
    proof (cases "c = CHR ''-'' \<and> 2 \<le> length (takeWhile ?p (c # cs))")
      case True
      have "length (dropWhile ?p cs) < length s" by (simp add: s le_imp_less_Suc length_dropWhile_le)
      with 1 have IH: "noDoubleDash (replaceRuns ?p 2 (dropWhile ?p cs))" by blast
      have "hd (replaceRuns ?p 2 (dropWhile ?p cs)) \<noteq> CHR ''-''"
        if ne: "replaceRuns ?p 2 (dropWhile ?p cs) \<noteq> []"
        using ne replaceRuns_hd [OF ne] hd_dropDash [of "CHR ''-''" cs] by fastforce
      with True IH show ?thesis
        by (cases "replaceRuns ?p 2 (dropWhile ?p cs)") (auto simp: s)
    next
      case False
      have IH: "noDoubleDash (replaceRuns ?p 2 cs)" using 1 s by simp
      have step: "replaceRuns ?p 2 s = c # replaceRuns ?p 2 cs" using False by (simp add: s)
      show ?thesis
      proof (cases "replaceRuns ?p 2 cs")
        case Nil
        then show ?thesis by (simp add: step)
      next
        case (Cons d ds)
        then have "hd cs = d" and "cs \<noteq> []" using replaceRuns_hd [of cs] by auto
        with False have "\<not> (c = CHR ''-'' \<and> d = CHR ''-'')" by (cases cs) auto
        with Cons IH show ?thesis by (simp add: step)
      qed
    qed
  qed
qed

lemma noDoubleDash_Cons: "noDoubleDash (c # cs) \<longleftrightarrow> \<not> (c = CHR ''-'' \<and> cs \<noteq> [] \<and> hd cs = CHR ''-'') \<and> noDoubleDash cs"
  by (cases cs) auto

lemma noDoubleDash_append: "noDoubleDash (xs @ ys) \<Longrightarrow> noDoubleDash xs \<and> noDoubleDash ys"
  by (induction xs) (auto simp: noDoubleDash_Cons hd_append split: if_splits)

lemma noDoubleDash_join:
  "noDoubleDash xs \<Longrightarrow> (xs \<noteq> [] \<Longrightarrow> last xs \<noteq> CHR ''-'') \<Longrightarrow> CHR ''-'' \<notin> set ys \<Longrightarrow>
    noDoubleDash (xs @ CHR ''-'' # ys)"
proof (induction xs)
  case Nil
  have "CHR ''-'' \<notin> set zs \<Longrightarrow> noDoubleDash zs" for zs
    by (induction zs) (auto simp: noDoubleDash_Cons)
  with Nil show ?case by (cases ys) (auto simp: noDoubleDash_Cons)
next
  case (Cons x xs)
  then show ?case by (cases xs) (auto simp: noDoubleDash_Cons hd_append)
qed

lemma trim_parts: "\<exists>a b. s = a @ trimRightByte c (trimLeftByte c s) @ b"
proof -
  have "\<exists>b. t = trimRightByte c t @ b" for t
    unfolding trimRightByte_def by (metis rev_append rev_rev_ident takeWhile_dropWhile_id)
  moreover have "\<exists>a. s = a @ trimLeftByte c s"
    unfolding trimLeftByte_def by (metis takeWhile_dropWhile_id)
  ultimately show ?thesis by metis
qed

lemma trimRight_last: "trimRightByte c s \<noteq> [] \<Longrightarrow> last (trimRightByte c s) \<noteq> c"
  using hd_dropDash [of c "rev s"] by (simp add: trimRightByte_def last_rev)

lemma trimRight_prefix: "\<exists>b. s = trimRightByte c s @ b"
  unfolding trimRightByte_def by (metis rev_append rev_rev_ident takeWhile_dropWhile_id)

lemma trim_hd: "trimRightByte c (trimLeftByte c s) \<noteq> [] \<Longrightarrow>
  hd (trimRightByte c (trimLeftByte c s)) \<noteq> c"
proof -
  assume ne: "trimRightByte c (trimLeftByte c s) \<noteq> []"
  obtain b where b: "trimLeftByte c s = trimRightByte c (trimLeftByte c s) @ b"
    using trimRight_prefix by blast
  with ne have "hd (trimRightByte c (trimLeftByte c s)) = hd (trimLeftByte c s)"
    and "trimLeftByte c s \<noteq> []" by (metis hd_append2, metis append_is_Nil_conv)
  then show ?thesis using hd_dropDash [of c s] by (simp add: trimLeftByte_def)
qed

definition dnsLabel :: "string \<Rightarrow> bool" where
  "dnsLabel s \<longleftrightarrow> s \<noteq> [] \<and> list_all slugByte s \<and> hd s \<noteq> CHR ''-'' \<and> last s \<noteq> CHR ''-'' \<and>
     length s \<le> 63"

text \<open>The slug before truncation.\<close>

definition longSlug :: "string \<Rightarrow> string" where
  "longSlug name = trimRightByte CHR ''-'' (trimLeftByte CHR ''-''
     (multipleDashes (nonAlphanumericDash (toLower name))))"

lemma longSlug_shape:
  "list_all slugByte (longSlug name) \<and> noDoubleDash (longSlug name) \<and>
   (longSlug name \<noteq> [] \<longrightarrow> hd (longSlug name) \<noteq> CHR ''-'' \<and> last (longSlug name) \<noteq> CHR ''-'')"
proof -
  let ?m = "multipleDashes (nonAlphanumericDash (toLower name))"
  obtain a b where ab: "?m = a @ longSlug name @ b"
    using trim_parts [of ?m "CHR ''-''"] by (auto simp: longSlug_def)
  have "slugByte c" if "c \<in> set (nonAlphanumericDash t)" for c t
    using that replaceRuns_class [of c "\<lambda>c. \<not> slugByte c" t] by (auto simp: nonAlphanumericDash_def)
  then have m: "list_all slugByte ?m"
    by (auto simp: list_all_iff multipleDashes_def dest!: replaceRuns_keeps)
  have "noDoubleDash ?m" by (simp add: multipleDashes_def replaceRuns_noDouble)
  then have "noDoubleDash (longSlug name)" by (metis ab noDoubleDash_append)
  moreover have "list_all slugByte (longSlug name)" using m unfolding ab by simp
  ultimately show ?thesis
    using trim_hd [of "CHR ''-''" ?m] trimRight_last [of "CHR ''-''" "trimLeftByte CHR ''-'' ?m"]
    by (simp add: longSlug_def)
qed

lemma Slugify_eq:
  "Slugify sha name = (if length (longSlug name) \<le> 48 then longSlug name
     else trimRightByte CHR ''-'' (take 48 (longSlug name)) @ ''-'' @ take 8 (hexEncode (sha name)))"
  by (simp add: Slugify_def longSlug_def Let_def)

lemma hex_slugByte: "isHexChar c \<Longrightarrow> slugByte c"
  by (auto simp: isHexChar_def slugByte_def isDigit_def isLowerAlpha_def)

lemma slug_shape:
  assumes "digest sha"
  shows "Slugify sha name = [] \<or> dnsLabel (Slugify sha name) \<and> length (Slugify sha name) \<le> 57 \<and>
    noDoubleDash (Slugify sha name)"
proof (cases "length (longSlug name) \<le> 48")
  case True
  then show ?thesis using longSlug_shape [of name] by (auto simp: Slugify_eq dnsLabel_def)
next
  case False
  let ?p = "trimRightByte CHR ''-'' (take 48 (longSlug name))"
  let ?h = "take 8 (hexEncode (sha name))"
  have slug: "Slugify sha name = ?p @ CHR ''-'' # ?h" using False by (simp add: Slugify_eq)
  obtain b where b: "longSlug name = ?p @ b"
    using trimRight_prefix [of "take 48 (longSlug name)"] by (metis append.assoc append_take_drop_id)
  have lp: "length ?p \<le> 48"
    using trimRight_prefix [of "take 48 (longSlug name)" "CHR ''-''"] by (metis length_append length_take
        le_add1 min.cobounded2 min.commute order_trans)
  have lh: "length ?h = 8" using digest.length_digest [OF assms] by simp
  have hex: "\<forall>c \<in> set ?h. isHexChar c" using in_set_takeD hexEncode_isHex by fast
  have "\<exists>c \<in> set (take 48 (longSlug name)). c \<noteq> CHR ''-''"
    using False longSlug_shape [of name] by (cases "longSlug name") auto
  then have ne: "?p \<noteq> []" by (auto simp: trimRightByte_def)
  then have hd: "hd ?p = hd (longSlug name)" using b by (metis hd_append2)
  have "longSlug name \<noteq> []" using False by auto
  then have "hd ?p \<noteq> CHR ''-''" using hd longSlug_shape [of name] by simp
  moreover have "last ?h \<noteq> CHR ''-''"
    using hex lh by (metis isHexChar_no_dash last_in_set length_0_conv zero_neq_numeral)
  moreover have "list_all slugByte ?p" using longSlug_shape [of name] b by (metis list_all_append)
  moreover have "list_all slugByte ?h" using hex by (auto simp: list_all_iff hex_slugByte)
  moreover have "noDoubleDash (?p @ CHR ''-'' # ?h)"
  proof (rule noDoubleDash_join)
    show "noDoubleDash ?p" using longSlug_shape [of name] b by (metis noDoubleDash_append)
    show "last ?p \<noteq> CHR ''-''" by (rule trimRight_last [OF ne])
    show "CHR ''-'' \<notin> set ?h" using hex isHexChar_no_dash by blast
  qed
  moreover have "?h \<noteq> []" using lh by (metis length_0_conv zero_neq_numeral)
  ultimately show ?thesis using ne lp lh by (simp add: slug dnsLabel_def)
qed

lemma slugByte_code: "slugByte c \<Longrightarrow> of_char c < (128 :: nat) \<and> \<not> isUpperAlpha c"
  by (auto simp: slugByte_def char_class_defs less_eq_char_def)

lemma lowerByte_slug: "slugByte c \<Longrightarrow> lowerByte c = c"
  using slugByte_code [of c] by (simp add: lowerByte_def)

lemma toLower_Cons: "slugByte c \<Longrightarrow> toLower (c # cs) = c # toLower cs"
proof -
  assume c: "slugByte c"
  have "c \<noteq> char_of (196 :: nat)" "c \<noteq> char_of (226 :: nat)"
    using slugByte_code [OF c] by auto
  then show ?thesis using lowerByte_slug [OF c] by (simp split: list.split)
qed

lemma toLower_slug: "list_all slugByte s \<Longrightarrow> toLower s = s"
  by (induction s) (simp_all add: toLower_Cons del: toLower.simps(2))

lemma replaceRuns_id: "list_all (\<lambda>c. \<not> p c) s \<Longrightarrow> replaceRuns p k s = s"
  by (induction p k s rule: replaceRuns.induct) auto

lemma multipleDashes_id: "noDoubleDash s \<Longrightarrow> multipleDashes s = s"
proof (induction s)
  case (Cons c cs)
  then have "noDoubleDash cs" by (cases cs) auto
  moreover have "\<not> (c = CHR ''-'' \<and> 2 \<le> length (takeWhile (\<lambda>c. c = CHR ''-'') (c # cs)))"
    using Cons.prems by (cases cs) auto
  ultimately show ?case using Cons.IH by (auto simp: multipleDashes_def)
qed (simp add: multipleDashes_def)

lemma trim_id: "s \<noteq> [] \<Longrightarrow> hd s \<noteq> c \<Longrightarrow> last s \<noteq> c \<Longrightarrow> trimRightByte c (trimLeftByte c s) = s"
proof -
  assume s: "s \<noteq> []" "hd s \<noteq> c" "last s \<noteq> c"
  then have "trimLeftByte c s = s" by (cases s) (auto simp: trimLeftByte_def)
  moreover have "dropWhile (\<lambda>x. x = c) (rev s) = rev s"
    using s by (cases "rev s") (auto simp: last_conv_nth hd_rev [symmetric])
  ultimately show ?thesis by (simp add: trimRightByte_def)
qed

lemma slug_identity:
  assumes "dnsLabel name" and "noDoubleDash name" and "length name \<le> 48"
  shows "Slugify sha name = name"
proof -
  have "toLower name = name" using assms(1) by (simp add: dnsLabel_def toLower_slug)
  moreover have "nonAlphanumericDash name = name"
    using assms(1) by (simp add: dnsLabel_def nonAlphanumericDash_def replaceRuns_id)
  ultimately show ?thesis
    using assms by (simp add: Slugify_eq longSlug_def multipleDashes_id trim_id dnsLabel_def)
qed

section \<open>Properties\<close>

text \<open>a slug is empty or a DNS label of at most 57 bytes without adjacent dashes, whatever the name; a
  name that already is such a label of at most 48 bytes is its own slug.\<close>

theorem slug_is_dns_label:
  assumes "digest sha"
  shows "(Slugify sha name = [] \<or> dnsLabel (Slugify sha name) \<and> length (Slugify sha name) \<le> 57 \<and>
      noDoubleDash (Slugify sha name)) \<and>
    (dnsLabel name \<and> noDoubleDash name \<and> length name \<le> 48 \<longrightarrow> Slugify sha name = name)"
proof (intro conjI impI)
  show "Slugify sha name = [] \<or> dnsLabel (Slugify sha name) \<and> length (Slugify sha name) \<le> 57 \<and>
      noDoubleDash (Slugify sha name)"
    by (rule slug_shape [OF assms])
  show "Slugify sha name = name" if "dnsLabel name \<and> noDoubleDash name \<and> length name \<le> 48"
    using that by (intro slug_identity) auto
qed

theorem slug_is_dns_label_witness: "dnsLabel (Slugify sha256 ''Org/My Model!'')"
proof -
  have "Slugify sha256 ''Org/My Model!'' \<noteq> []" by code_simp
  then show ?thesis using slug_is_dns_label [OF sha.digest_axioms, of "''Org/My Model!''"] by blast
qed

end
