(* ===== verification/Workloads.thy ===== *)
theory Workloads
  imports Common
begin

text \<open>
  The typed Kubernetes objects the operator builds for a served model, with the fields it sets
  (the types are those of \<open>k8s.io/api\<close>, and a field left out has its zero value in every object
  the operator writes). A quantity is kept as its text; parsing one is a function of apimachinery
  and an argument where it is needed.
\<close>

type_synonym quantity = string
type_synonym quantity_parser = "string \<Rightarrow> gerror + quantity"

record VolumeMount =
  vmt_name :: string
  vmt_path :: string
  vmt_readOnly :: bool

text \<open>The medium and the size limit of an emptyDir; the claim of a PVC; the name of a ConfigMap.\<close>

datatype VolumeSource =
    EmptyDirVolume string "quantity option"
  | ClaimVolume string
  | ConfigMapVolume string

record Volume =
  vol_name :: string
  vol_source :: VolumeSource

datatype PortRef = PortNumber int | PortName string

datatype ProbeHandler = HTTPGetProbe string PortRef | GRPCProbe int string

record Probe =
  prb_handler :: ProbeHandler
  prb_initialDelaySeconds :: int
  prb_periodSeconds :: int
  prb_failureThreshold :: int

record ContainerPort =
  cpt_name :: string
  cpt_port :: int
  cpt_protocol :: string

record Container =
  ctr_name :: string
  ctr_image :: string
  ctr_command :: "string list"
  ctr_args :: "string list"
  ctr_ports :: "ContainerPort list"
  ctr_limits :: "quantity gomap"
  ctr_requests :: "quantity gomap"
  ctr_env :: "EnvVar list"
  ctr_mounts :: "VolumeMount list"
  ctr_startup :: "Probe option"
  ctr_liveness :: "Probe option"
  ctr_readiness :: "Probe option"

definition newContainer :: "string \<Rightarrow> string \<Rightarrow> Container" where
  "newContainer name img =
     \<lparr>ctr_name = name, ctr_image = img, ctr_command = [], ctr_args = [], ctr_ports = [],
      ctr_limits = [], ctr_requests = [], ctr_env = [], ctr_mounts = [], ctr_startup = None,
      ctr_liveness = None, ctr_readiness = None\<rparr>"

record PodSpec =
  pod_serviceAccount :: string
  pod_initContainers :: "Container list"
  pod_containers :: "Container list"
  pod_volumes :: "Volume list"
  pod_tolerations :: "Toleration list"
  pod_nodeSelector :: "string gomap"
  pod_affinity :: "string option"
  pod_fsGroup :: "(int \<times> string) option"

record DeploymentSpec =
  dps_replicas :: "int option"
  dps_strategy :: string
  dps_selector :: "string gomap"
  dps_labels :: "string gomap"
  dps_pod :: PodSpec

record Deployment =
  dep_meta :: objmeta
  dep_spec :: DeploymentSpec
  dep_readyReplicas :: int

text \<open>Of a pod: its metadata, and for each init container whether it is running.\<close>

record Pod =
  pd_meta :: objmeta
  pd_initRunning :: "bool list"

record ServicePort =
  spt_name :: string
  spt_port :: int
  spt_targetPort :: PortRef
  spt_protocol :: string

record Service =
  svc_meta :: objmeta
  svc_type :: string
  svc_selector :: "string gomap"
  svc_ports :: "ServicePort list"
  svc_clusterIP :: string

record ServiceAccount =
  sac_meta :: objmeta

record PolicyRule =
  plr_apiGroups :: "string list"
  plr_resources :: "string list"
  plr_verbs :: "string list"

record Role =
  rol_meta :: objmeta
  rol_rules :: "PolicyRule list"

record RoleBinding =
  rlb_meta :: objmeta
  rlb_roleRef :: "string \<times> string \<times> string"
  rlb_subjects :: "(string \<times> string) list"

record PersistentVolumeClaim =
  pvc_meta :: objmeta
  pvc_accessModes :: "string list"
  pvc_storage :: quantity
  pvc_storageClassName :: "string option"

record NetworkPolicyPeer =
  npp_namespaceSelector :: "string gomap option"
  npp_podSelector :: "string gomap option"

record IngressRule =
  npr_from :: "NetworkPolicyPeer list"
  npr_ports :: "(string \<times> int) list"

record NetworkPolicy =
  npo_meta :: objmeta
  npo_podSelector :: "string gomap"
  npo_policyTypes :: "string list"
  npo_ingress :: "IngressRule list"

section \<open>Well-formed pods\<close>

text \<open>A selector of labels, as in \<open>matchLabels\<close>.\<close>

definition selects :: "string gomap \<Rightarrow> string gomap \<Rightarrow> bool" where
  "selects sel labels = list_all (\<lambda>(k, v). map_of labels k = Some v) sel"

text \<open>
  What the API server demands of a pod with volumes: their names are distinct, every mount names
  one of them, the mount paths of one container differ, and container names are distinct.
\<close>

definition wf_container :: "string list \<Rightarrow> Container \<Rightarrow> bool" where
  "wf_container vols c \<longleftrightarrow> list_all (\<lambda>m. vmt_name m \<in> set vols) (ctr_mounts c) \<and>
     distinct (map vmt_path (ctr_mounts c)) \<and> distinct (map cpt_name (ctr_ports c))"

definition wf_pod :: "PodSpec \<Rightarrow> bool" where
  "wf_pod p \<longleftrightarrow> distinct (map vol_name (pod_volumes p)) \<and>
     list_all (wf_container (map vol_name (pod_volumes p))) (pod_initContainers p @ pod_containers p) \<and>
     distinct (map ctr_name (pod_initContainers p @ pod_containers p))"

definition wf_deployment :: "Deployment \<Rightarrow> bool" where
  "wf_deployment d \<longleftrightarrow> wf_pod (dps_pod (dep_spec d)) \<and>
     selects (dps_selector (dep_spec d)) (dps_labels (dep_spec d))"

text \<open>Every port of a Service that targets a named port finds it in the pod.\<close>

definition servesPorts :: "Service \<Rightarrow> PodSpec \<Rightarrow> bool" where
  "servesPorts s p =
     list_all (\<lambda>sp. case spt_targetPort sp of
        PortName n \<Rightarrow> list_ex (\<lambda>c. n \<in> set (map cpt_name (ctr_ports c))) (pod_containers p)
      | PortNumber _ \<Rightarrow> True) (svc_ports s)"

lemmas wf_defs = wf_deployment_def wf_pod_def wf_container_def selects_def servesPorts_def

end
