(* ===== verification/Json.thy ===== *)
theory Json
  imports Prelude
begin

text \<open>
  The dynamically typed values of the program: a decoded JSON document (the claims of a token)
  and the tree of \<open>map[string]interface{}\<close> that the operator builds and edits for resources
  without a Go type. \<open>JStrs\<close> is a Go \<open>[]string\<close> held in an interface, which is not the same
  dynamic type as the \<open>[]interface{}\<close> of \<open>JArr\<close>.
\<close>

datatype json =
    JNull
  | JBool bool
  | JInt int
  | JStr string
  | JArr "json list"
  | JStrs "string list"
  | JObj "(string \<times> json) list"

text \<open>Type assertions with the two-value form; the zero value stands for a failed one.\<close>

fun asString :: "json \<Rightarrow> string option" where
  "asString (JStr s) = Some s"
| "asString _ = None"

fun asArr :: "json \<Rightarrow> json list option" where
  "asArr (JArr xs) = Some xs"
| "asArr _ = None"

fun asObj :: "json \<Rightarrow> (string \<times> json) list option" where
  "asObj (JObj m) = Some m"
| "asObj _ = None"

definition strOr :: "json option \<Rightarrow> string" where
  "strOr j = (case j of Some (JStr s) \<Rightarrow> s | _ \<Rightarrow> [])"

lemma strOr_simps [simp]:
  "strOr None = []" "strOr (Some (JStr s)) = s" "strOr (Some (JBool b)) = []"
  "strOr (Some (JArr xs)) = []" "strOr (Some (JObj m)) = []" "strOr (Some JNull) = []"
  "strOr (Some (JInt i)) = []" "strOr (Some (JStrs ss)) = []"
  by (simp_all add: strOr_def)

definition objGet :: "json \<Rightarrow> string \<Rightarrow> json option" where
  "objGet j k = (case j of JObj m \<Rightarrow> map_of m k | _ \<Rightarrow> None)"

lemma objGet_JObj [simp]: "objGet (JObj m) k = map_of m k"
  by (simp add: objGet_def)

text \<open>The elements of a slice, and a field of a map, both behind failed assertions.\<close>

definition items :: "json option \<Rightarrow> json list" where
  "items j = (case j of Some (JArr xs) \<Rightarrow> xs | _ \<Rightarrow> [])"

definition fieldOf :: "json option \<Rightarrow> string \<Rightarrow> json option" where
  "fieldOf j k = (case j of Some (JObj m) \<Rightarrow> map_of m k | _ \<Rightarrow> None)"

lemma items_simps [simp]: "items None = []" "items (Some (JArr xs)) = xs"
  by (simp_all add: items_def)

lemma fieldOf_simps [simp]: "fieldOf None k = None" "fieldOf (Some (JObj m)) k = map_of m k"
  by (simp_all add: fieldOf_def)

text \<open>
  The verb \<open>%v\<close> on such a value: strings as they are, a map with its keys in order, and a missing
  value (the nil interface) as \<open>nil\<close> in angle brackets.
\<close>

fun fmtV :: "json \<Rightarrow> string" where
  "fmtV JNull = ''<nil>''"
| "fmtV (JBool b) = (if b then ''true'' else ''false'')"
| "fmtV (JInt i) = itoaInt i"
| "fmtV (JStr s) = s"
| "fmtV (JArr xs) = ''['' @ join '' '' (map fmtV xs) @ '']''"
| "fmtV (JStrs ss) = ''['' @ join '' '' ss @ '']''"
| "fmtV (JObj m) =
     ''map['' @ join '' '' (map (\<lambda>(k, v). k @ '':'' @ v) (sort_key fst (map (\<lambda>(k, v). (k, fmtV v)) m))) @ '']''"

definition fmtOpt :: "json option \<Rightarrow> string" where
  "fmtOpt j = (case j of None \<Rightarrow> ''<nil>'' | Some v \<Rightarrow> fmtV v)"

lemma fmtOpt_simps [simp]: "fmtOpt None = ''<nil>''" "fmtOpt (Some (JStr s)) = s"
  by (simp_all add: fmtOpt_def)

text \<open>A label map as \<open>map[string]interface{}\<close>, and the block \<open>metadata\<close> of a tree.\<close>

definition labelsToInterface :: "string gomap \<Rightarrow> json" where
  "labelsToInterface labels = JObj (map (\<lambda>(k, v). (k, JStr v)) labels)"

definition metaTree :: "string \<Rightarrow> string \<Rightarrow> json \<Rightarrow> json" where
  "metaTree name ns labels =
     JObj [(''name'', JStr name), (''namespace'', JStr ns), (''labels'', labels)]"

definition resourceTree :: "string \<Rightarrow> string \<Rightarrow> json \<Rightarrow> json \<Rightarrow> json" where
  "resourceTree apiVersion kind metadata spec =
     JObj [(''apiVersion'', JStr apiVersion), (''kind'', JStr kind), (''metadata'', metadata),
       (''spec'', spec)]"

definition specOf :: "json \<Rightarrow> json option" where
  "specOf t = objGet t ''spec''"

lemma specOf_resourceTree [simp]: "specOf (resourceTree a k m s) = Some s"
  by (simp add: specOf_def resourceTree_def)

text \<open>What identifies a tree on the API server.\<close>

definition treeKind :: "json \<Rightarrow> string" where "treeKind t = strOr (objGet t ''kind'')"
definition treeName :: "json \<Rightarrow> string" where "treeName t = strOr (fieldOf (objGet t ''metadata'') ''name'')"
definition treeNamespace :: "json \<Rightarrow> string" where
  "treeNamespace t = strOr (fieldOf (objGet t ''metadata'') ''namespace'')"

lemma tree_simps [simp]:
  "treeKind (resourceTree a k m s) = k"
  "treeName (resourceTree a k (metaTree n ns l) s) = n"
  "treeNamespace (resourceTree a k (metaTree n ns l) s) = ns"
  by (simp_all add: treeKind_def treeName_def treeNamespace_def resourceTree_def metaTree_def)

end
