(* ===== verification/Cluster.thy ===== *)
theory Cluster
  imports Workloads Json
begin

text \<open>
  A reference API server: the objects of each kind by namespace and name, a counter for
  resource versions, and a script that says how the next calls fare. It satisfies the
  behaviour that \<open>kube_kind\<close> and \<open>kube_two\<close> name, failed calls and lost responses included,
  and it is where the closed instances of the properties run. It models no code of the
  repository.
\<close>

section \<open>State and errors\<close>

text \<open>
  \<open>Healthy\<close>: the call is served. \<open>Refuse\<close>: it fails and changes nothing. \<open>Stale\<close>: a write
  meets a newer version of the object. \<open>Lose\<close>: a write is applied, but the caller sees an error.
\<close>

datatype fault = Healthy | Refuse string | Stale | Lose string

record cluster =
  cl_secrets :: "(nsname \<times> secret) list"
  cl_configmaps :: "(nsname \<times> configmap) list"
  cl_llmmodels :: "(nsname \<times> LLMModel) list"
  cl_passthroughs :: "(nsname \<times> PassthroughModel) list"
  cl_pvcs :: "(nsname \<times> PersistentVolumeClaim) list"
  cl_networkpolicies :: "(nsname \<times> NetworkPolicy) list"
  cl_serviceaccounts :: "(nsname \<times> ServiceAccount) list"
  cl_services :: "(nsname \<times> Service) list"
  cl_deployments :: "(nsname \<times> Deployment) list"
  cl_roles :: "(nsname \<times> Role) list"
  cl_rolebindings :: "(nsname \<times> RoleBinding) list"
  cl_pods :: "(nsname \<times> Pod) list"
  cl_trees :: "string \<Rightarrow> (nsname \<times> json) list"
  cl_counter :: nat
  cl_script :: "fault list"

definition emptyCluster :: cluster where
  "emptyCluster = \<lparr>cl_secrets = [], cl_configmaps = [], cl_llmmodels = [], cl_passthroughs = [],
     cl_pvcs = [], cl_networkpolicies = [], cl_serviceaccounts = [], cl_services = [],
     cl_deployments = [], cl_roles = [], cl_rolebindings = [], cl_pods = [], cl_trees = (\<lambda>k. []),
     cl_counter = 1, cl_script = []\<rparr>"

definition notFoundError :: "string \<Rightarrow> string \<Rightarrow> gerror" where
  "notFoundError res name =
     \<lparr>errText = res @ '' '' @ quote name @ '' not found'', errCause = CNotFound\<rparr>"

definition alreadyExistsError :: "string \<Rightarrow> string \<Rightarrow> gerror" where
  "alreadyExistsError res name =
     \<lparr>errText = res @ '' '' @ quote name @ '' already exists'', errCause = CAlreadyExists\<rparr>"

text \<open>The text of a conflict is the one \<open>apierrors.NewConflict\<close> produces.\<close>

definition conflictError :: "string \<Rightarrow> string \<Rightarrow> gerror" where
  "conflictError res name =
     \<lparr>errText = ''Operation cannot be fulfilled on '' @ res @ '' '' @ quote name @
        '': the object has been modified; please apply your changes to the latest version and try again'',
      errCause = CConflict\<rparr>"

definition nextFault :: "cluster \<Rightarrow> fault" where
  "nextFault s = (case cl_script s of [] \<Rightarrow> Healthy | f # _ \<Rightarrow> f)"

definition tick :: "cluster \<Rightarrow> cluster" where
  "tick s = s\<lparr>cl_script := tl (cl_script s)\<rparr>"

section \<open>Objects of one kind\<close>

type_synonym 'o field = "cluster \<Rightarrow> (nsname \<times> 'o) list"
type_synonym 'o modifier = "((nsname \<times> 'o) list \<Rightarrow> (nsname \<times> 'o) list) \<Rightarrow> cluster \<Rightarrow> cluster"

text \<open>Only objects stored under their own key and not yet gone are visible.\<close>

definition visible :: "('o \<Rightarrow> objmeta) \<Rightarrow> (nsname \<times> 'o) list \<Rightarrow> nsname \<Rightarrow> 'o option" where
  "visible metaOf xs n =
     (case map_of xs n of
        None \<Rightarrow> None
      | Some x \<Rightarrow> if metaKey (metaOf x) = n \<and> alive (metaOf x) then Some x else None)"

definition storeGet :: "string \<Rightarrow> ('o \<Rightarrow> objmeta) \<Rightarrow> 'o field \<Rightarrow> nsname \<Rightarrow> (cluster, 'o) action" where
  "storeGet res metaOf proj n s =
     (case nextFault s of
        Refuse t \<Rightarrow> (Inl (errorf t), tick s)
      | Lose t \<Rightarrow> (Inl (errorf t), tick s)
      | _ \<Rightarrow> (case visible metaOf (proj s) n of
                None \<Rightarrow> (Inl (notFoundError res (snd n)), tick s)
              | Some x \<Rightarrow> (Inr x, tick s)))"

definition storeList ::
  "('o \<Rightarrow> objmeta) \<Rightarrow> 'o field \<Rightarrow> string \<Rightarrow> string gomap \<Rightarrow> (cluster, 'o list) action" where
  "storeList metaOf proj ns sel s =
     (case nextFault s of
        Refuse t \<Rightarrow> (Inl (errorf t), tick s)
      | Lose t \<Rightarrow> (Inl (errorf t), tick s)
      | _ \<Rightarrow> (Inr (filter (\<lambda>x. inNamespace ns (metaOf x) \<and> matchesLabels sel (metaOf x))
               (List.map_filter (visible metaOf (proj s)) (remdups (map fst (proj s))))), tick s))"

definition stamp :: "((objmeta \<Rightarrow> objmeta) \<Rightarrow> 'o \<Rightarrow> 'o) \<Rightarrow> cluster \<Rightarrow> 'o \<Rightarrow> 'o" where
  "stamp setMeta s x = setMeta (\<lambda>m. m\<lparr>om_rv := itoa (cl_counter s)\<rparr>) x"

definition storePut :: "('o \<Rightarrow> objmeta) \<Rightarrow> 'o modifier \<Rightarrow> 'o \<Rightarrow> cluster \<Rightarrow> cluster" where
  "storePut metaOf upd x s =
     (upd (AList.update (metaKey (metaOf x)) x) (tick s))\<lparr>cl_counter := Suc (cl_counter s)\<rparr>"

definition storeUpdate ::
  "string \<Rightarrow> ('o \<Rightarrow> objmeta) \<Rightarrow> ((objmeta \<Rightarrow> objmeta) \<Rightarrow> 'o \<Rightarrow> 'o) \<Rightarrow> 'o field \<Rightarrow> 'o modifier \<Rightarrow>
   ('o \<Rightarrow> 'o \<Rightarrow> 'o) \<Rightarrow> 'o \<Rightarrow> (cluster, 'o) action" where
  "storeUpdate res metaOf setMeta proj upd merge x s =
     (let n = metaKey (metaOf x)
      in case nextFault s of
           Refuse t \<Rightarrow> (Inl (errorf t), tick s)
         | Stale \<Rightarrow> (Inl (conflictError res (snd n)), tick s)
         | f \<Rightarrow>
             (case visible metaOf (proj s) n of
                None \<Rightarrow> (Inl (notFoundError res (snd n)), tick s)
              | Some old \<Rightarrow>
                  if om_rv (metaOf x) \<noteq> [] \<and> om_rv (metaOf x) \<noteq> om_rv (metaOf old)
                  then (Inl (conflictError res (snd n)), tick s)
                  else let y = stamp setMeta s (merge old x); s' = storePut metaOf upd y s
                       in (case f of Lose t \<Rightarrow> (Inl (errorf t), s') | _ \<Rightarrow> (Inr y, s'))))"

definition storeCreate ::
  "string \<Rightarrow> ('o \<Rightarrow> objmeta) \<Rightarrow> ((objmeta \<Rightarrow> objmeta) \<Rightarrow> 'o \<Rightarrow> 'o) \<Rightarrow> 'o field \<Rightarrow> 'o modifier \<Rightarrow>
   'o \<Rightarrow> (cluster, 'o) action" where
  "storeCreate res metaOf setMeta proj upd x s =
     (let n = metaKey (metaOf x)
      in case nextFault s of
           Refuse t \<Rightarrow> (Inl (errorf t), tick s)
         | Stale \<Rightarrow> (Inl (errorf ''internal error''), tick s)
         | f \<Rightarrow>
             (case visible metaOf (proj s) n of
                Some _ \<Rightarrow> (Inl (alreadyExistsError res (snd n)), tick s)
              | None \<Rightarrow>
                  let y = stamp setMeta s x; s' = storePut metaOf upd y s
                  in (case f of Lose t \<Rightarrow> (Inl (errorf t), s') | _ \<Rightarrow> (Inr y, s'))))"

definition storeDelete ::
  "string \<Rightarrow> ('o \<Rightarrow> objmeta) \<Rightarrow> ((objmeta \<Rightarrow> objmeta) \<Rightarrow> 'o \<Rightarrow> 'o) \<Rightarrow> 'o field \<Rightarrow> 'o modifier \<Rightarrow>
   nsname \<Rightarrow> (cluster, unit) action" where
  "storeDelete res metaOf setMeta proj upd n s =
     (case nextFault s of
        Refuse t \<Rightarrow> (Inl (errorf t), tick s)
      | Stale \<Rightarrow> (Inl (conflictError res (snd n)), tick s)
      | f \<Rightarrow>
          (case visible metaOf (proj s) n of
             None \<Rightarrow> (Inl (notFoundError res (snd n)), tick s)
           | Some old \<Rightarrow>
               let s' = (if om_finalizers (metaOf old) = [] then upd (AList.delete n) (tick s)
                         else upd (AList.update n (setMeta (\<lambda>m. m\<lparr>om_deleting := True\<rparr>) old)) (tick s))
               in (case f of Lose t \<Rightarrow> (Inl (errorf t), s') | _ \<Rightarrow> (Inr (), s'))))"

definition mkClient ::
  "string \<Rightarrow> ('o \<Rightarrow> objmeta) \<Rightarrow> ((objmeta \<Rightarrow> objmeta) \<Rightarrow> 'o \<Rightarrow> 'o) \<Rightarrow> 'o field \<Rightarrow> 'o modifier \<Rightarrow>
   ('o \<Rightarrow> 'o \<Rightarrow> 'o) \<Rightarrow> ('o \<Rightarrow> 'o \<Rightarrow> 'o) \<Rightarrow> (cluster, 'o) typed_client" where
  "mkClient res metaOf setMeta proj upd mergeSpec mergeStatus =
     \<lparr>tc_get = storeGet res metaOf proj, tc_list = storeList metaOf proj,
      tc_create = storeCreate res metaOf setMeta proj upd,
      tc_update = storeUpdate res metaOf setMeta proj upd mergeSpec,
      tc_status_update = storeUpdate res metaOf setMeta proj upd mergeStatus,
      tc_delete = storeDelete res metaOf setMeta proj upd\<rparr>"

text \<open>
  What the generic store needs of a kind: reading and writing its field of the cluster record,
  its metadata, and a merge that keeps what the caller wrote.
\<close>

locale object_store =
  fixes res :: string
    and metaOf :: "'o \<Rightarrow> objmeta"
    and setMeta :: "(objmeta \<Rightarrow> objmeta) \<Rightarrow> 'o \<Rightarrow> 'o"
    and proj :: "'o field"
    and upd :: "'o modifier"
    and mergeSpec :: "'o \<Rightarrow> 'o \<Rightarrow> 'o"
    and mergeStatus :: "'o \<Rightarrow> 'o \<Rightarrow> 'o"
    and content :: "'o \<Rightarrow> 'c"
  assumes proj_upd: "proj (upd f s) = f (proj s)"
    and proj_tick: "proj (tick s) = proj s"
    and proj_counter: "proj (s\<lparr>cl_counter := n\<rparr>) = proj s"
    and meta_stamped: "metaOf (setMeta (\<lambda>m. m\<lparr>om_rv := r\<rparr>) x) = (metaOf x)\<lparr>om_rv := r\<rparr>"
    and meta_marked: "om_finalizers (metaOf x) \<noteq> [] \<Longrightarrow>
      metaOf (setMeta (\<lambda>m. m\<lparr>om_deleting := True\<rparr>) x) = (metaOf x)\<lparr>om_deleting := True\<rparr>"
    and meta_merge: "metaOf (mergeSpec old x) = metaOf x"
    and content_stamp: "content (setMeta (\<lambda>m. m\<lparr>om_rv := r\<rparr>) x) = content x"
    and content_merge: "content (mergeSpec old x) = content x"
begin

abbreviation client :: "(cluster, 'o) typed_client" where
  "client \<equiv> mkClient res metaOf setMeta proj upd mergeSpec mergeStatus"

abbreviation objects :: "cluster \<Rightarrow> nsname \<Rightarrow> 'o option" where
  "objects s \<equiv> visible metaOf (proj s)"

lemma meta_stamp [simp]: "metaOf (stamp setMeta s x) = (metaOf x)\<lparr>om_rv := itoa (cl_counter s)\<rparr>"
  by (simp add: stamp_def meta_stamped)

lemma key_rv [simp]: "metaKey (m\<lparr>om_rv := r\<rparr>) = metaKey m" "alive (m\<lparr>om_rv := r\<rparr>) = alive m"
  by (simp_all add: metaKey_def alive_def)

lemma objects_put:
  "alive (metaOf y) \<Longrightarrow> objects (storePut metaOf upd y s) = (objects s)(metaKey (metaOf y) \<mapsto> y)"
  by (rule ext) (simp add: storePut_def visible_def proj_upd proj_tick proj_counter)

lemma objects_put_dead:
  "\<not> alive (metaOf y) \<Longrightarrow> objects (storePut metaOf upd y s) = (objects s)(metaKey (metaOf y) := None)"
  by (rule ext) (simp add: storePut_def visible_def proj_upd proj_tick proj_counter)

lemma objects_tick [simp]: "objects (tick s) = objects s"
  by (simp add: proj_tick)

lemma objects_key: "objects s n = Some x \<Longrightarrow> metaKey (metaOf x) = n \<and> alive (metaOf x)"
  by (auto simp: visible_def split: option.splits if_splits)

lemma content_stamp' [simp]: "content (stamp setMeta s x) = content x"
  by (simp add: stamp_def content_stamp)

lemma set_storeList:
  "set (List.map_filter (objects s) (remdups (map fst (proj s)))) = {x. \<exists>n. objects s n = Some x}"
proof -
  have "n \<in> fst ` set (proj s)" if "objects s n = Some x" for n x
    using that by (force simp: visible_def keys_iff_map_of dest: map_of_SomeD split: option.splits)
  then have "{x. \<exists>n. objects s n = Some x} =
      {x. \<exists>n \<in> fst ` set (proj s). objects s n = Some x}" by blast
  then show ?thesis by (auto simp: List.map_filter_def simp del: split_paired_Ex split_paired_All) force
qed

text \<open>The effect of a write: nothing, or the object handed over, stamped, under its key.\<close>

definition wrote :: "'o \<Rightarrow> cluster \<Rightarrow> cluster \<Rightarrow> gerror + 'o \<Rightarrow> bool" where
  "wrote x s s' r \<longleftrightarrow> (\<exists>y. metaKey (metaOf y) = metaKey (metaOf x) \<and> content y = content x \<and>
     objects s' = (objects s)(metaKey (metaOf x) \<mapsto> y) \<and> (\<forall>z. r = Inr z \<longrightarrow> z = y))"

lemma wrote_put:
  assumes "alive (metaOf x)" and "metaOf z = metaOf x" and "content z = content x"
    and "r = Inr (stamp setMeta s z) \<or> r = Inl e"
  shows "wrote x s (storePut metaOf upd (stamp setMeta s z) s) r"
  using assms unfolding wrote_def
  by (intro exI [of _ "stamp setMeta s z"]) (auto simp: objects_put)

lemma update_result:
  assumes "storeUpdate res metaOf setMeta proj upd mergeSpec x s = (r, s')" and "alive (metaOf x)"
  shows "(objects s' = objects s \<and> (\<exists>e. r = Inl e)) \<or>
    (objects s (metaKey (metaOf x)) \<noteq> None \<and> wrote x s s' r)"
proof (cases "objects s (metaKey (metaOf x))")
  case None
  with assms show ?thesis by (auto simp: storeUpdate_def Let_def split: fault.splits)
next
  case (Some old)
  have "wrote x s (storePut metaOf upd (stamp setMeta s (mergeSpec old x)) s) r"
    if "r = Inr (stamp setMeta s (mergeSpec old x)) \<or> r = Inl e" for e
    by (rule wrote_put [OF assms(2) meta_merge content_merge that])
  with assms Some show ?thesis
    by (auto simp: storeUpdate_def Let_def split: fault.splits if_splits)
qed

lemma create_result:
  assumes "storeCreate res metaOf setMeta proj upd x s = (r, s')" and "alive (metaOf x)"
  shows "(objects s' = objects s \<and> (\<exists>e. r = Inl e)) \<or>
    (objects s (metaKey (metaOf x)) = None \<and> wrote x s s' r)"
proof (cases "objects s (metaKey (metaOf x))")
  case None
  have "wrote x s (storePut metaOf upd (stamp setMeta s x) s) r"
    if "r = Inr (stamp setMeta s x) \<or> r = Inl e" for e
    by (rule wrote_put [OF assms(2) refl refl that])
  with assms None show ?thesis
    by (auto simp: storeCreate_def Let_def split: fault.splits)
next
  case (Some old)
  with assms show ?thesis by (auto simp: storeCreate_def Let_def split: fault.splits)
qed

sublocale kube_kind client objects metaOf content
proof (unfold_locales, goal_cases)
  case (1 n s x s')
  then show ?case
    by (auto simp: mkClient_def storeGet_def split: fault.splits option.splits)
next
  case (2 n s e s')
  then show ?case
    by (auto simp: mkClient_def storeGet_def isNotFound_def split: fault.splits option.splits)
next
  case (3 s n x)
  then show ?case by (rule objects_key)
next
  case (4 ns sel s xs s')
  then show ?case
    by (auto simp: mkClient_def storeList_def set_storeList split: fault.splits
        simp del: split_paired_Ex split_paired_All)
next
  case (5 ns sel s e s')
  then show ?case by (auto simp: mkClient_def storeList_def split: fault.splits)
next
  case (6 x s y s')
  then show ?case using update_result [of x s "Inr y" s'] by (auto simp: mkClient_def wrote_def)
next
  case (7 x s e s')
  then show ?case using update_result [of x s "Inl e" s'] by (auto simp: mkClient_def wrote_def)
next
  case (8 x s y s')
  then show ?case using create_result [of x s "Inr y" s'] by (auto simp: mkClient_def wrote_def)
next
  case (9 x s e s')
  then show ?case using create_result [of x s "Inl e" s'] by (auto simp: mkClient_def wrote_def)
next
  case (10 x s e s')
  then show ?case
    by (auto simp: mkClient_def storeCreate_def Let_def isAlreadyExists_def split: fault.splits option.splits)
qed

lemma objects_deleted: "objects (upd (AList.delete n) (tick s)) = (objects s)(n := None)"
  by (rule ext) (simp add: visible_def proj_upd proj_tick delete_conv)

lemma objects_marked:
  assumes "objects s n = Some x" and "om_finalizers (metaOf x) \<noteq> []"
  defines "y \<equiv> setMeta (\<lambda>m. m\<lparr>om_deleting := True\<rparr>) x"
  shows "objects (upd (AList.update n y) (tick s)) = (objects s)(n \<mapsto> y) \<and> om_deleting (metaOf y)"
proof -
  have y: "metaOf y = (metaOf x)\<lparr>om_deleting := True\<rparr>"
    unfolding y_def by (rule meta_marked) (rule assms(2))
  with objects_key [OF assms(1)] assms(2) have "metaKey (metaOf y) = n" "alive (metaOf y)"
    by (simp_all add: metaKey_def alive_def)
  then show ?thesis by (auto simp: fun_eq_iff visible_def proj_upd proj_tick y)
qed

lemma delete_result:
  assumes "storeDelete res metaOf setMeta proj upd n s = (r, s')"
  shows "(objects s' = objects s \<and> (\<exists>e. r = Inl e \<and> (isNotFound e \<longrightarrow> objects s n = None))) \<or>
    (objects s n \<noteq> None \<and> gone metaOf (objects s) n (objects s') \<and>
     (\<forall>e. r = Inl e \<longrightarrow> \<not> isNotFound e))"
proof (cases "objects s n")
  case None
  with assms show ?thesis by (auto simp: storeDelete_def isNotFound_def conflictError_def split: fault.splits)
next
  case (Some x)
  define t where "t = (if om_finalizers (metaOf x) = [] then upd (AList.delete n) (tick s)
    else upd (AList.update n (setMeta (\<lambda>m. m\<lparr>om_deleting := True\<rparr>) x)) (tick s))"
  have "gone metaOf (objects s) n (objects t)"
    using Some objects_marked [of s n x] by (auto simp: gone_def t_def objects_deleted)
  with assms Some show ?thesis
    by (auto simp: storeDelete_def Let_def t_def [symmetric] isNotFound_def conflictError_def split: fault.splits)
qed

lemma update_dead:
  assumes "storeUpdate res metaOf setMeta proj upd mergeSpec x s = (r, s')" and "\<not> alive (metaOf x)"
  shows "(objects s' = objects s \<and> (\<exists>e. r = Inl e)) \<or>
    (objects s (metaKey (metaOf x)) \<noteq> None \<and> objects s' = (objects s)(metaKey (metaOf x) := None))"
proof (cases "objects s (metaKey (metaOf x))")
  case None
  with assms show ?thesis by (auto simp: storeUpdate_def Let_def split: fault.splits)
next
  case (Some old)
  define y where "y = stamp setMeta s (mergeSpec old x)"
  have "metaOf y = (metaOf x)\<lparr>om_rv := itoa (cl_counter s)\<rparr>"
    by (simp add: y_def meta_merge)
  then have "objects (storePut metaOf upd y s) = (objects s)(metaKey (metaOf x) := None)"
    using objects_put_dead [of y s] assms(2) by simp
  with assms Some show ?thesis
    by (auto simp: storeUpdate_def Let_def y_def [symmetric] split: fault.splits if_splits)
qed

sublocale kube_deletes client objects metaOf content
proof (unfold_locales, goal_cases)
  case (1 n s u s')
  then show ?case using delete_result [of n s "Inr u" s'] by (auto simp: mkClient_def)
next
  case (2 n s e s')
  then show ?case using delete_result [of n s "Inl e" s'] by (auto simp: mkClient_def)
next
  case (3 x s y s')
  then show ?case using update_dead [of x s "Inr y" s'] by (auto simp: mkClient_def)
next
  case (4 x s e s')
  then show ?case using update_dead [of x s "Inl e" s'] by (auto simp: mkClient_def)
qed

text \<open>What no call of the client touches.\<close>

lemma client_unaffected:
  assumes "\<And>f s. v (upd f s) = v s" and "\<And>s. v (tick s) = v s"
    and "\<And>n s. v (s\<lparr>cl_counter := n\<rparr>) = v s"
  shows "unaffected v client"
proof -
  have put: "v (storePut metaOf upd x s) = v s" for x s by (simp add: storePut_def assms)
  have "keeps (same v) (storeGet res metaOf proj n)" "keeps (same v) (storeList metaOf proj ns sel)"
    "keeps (same v) (storeCreate res metaOf setMeta proj upd x)"
    "keeps (same v) (storeUpdate res metaOf setMeta proj upd m x)"
    "keeps (same v) (storeDelete res metaOf setMeta proj upd n)" for n ns sel x m
    by (auto simp: keeps_def same_def storeGet_def storeList_def storeCreate_def storeUpdate_def
        storeDelete_def Let_def put assms split: fault.splits option.splits if_splits)
  then show ?thesis by (simp add: unaffected_def clientKeeps_def mkClient_def)
qed

end

section \<open>The kinds\<close>

definition secretClient :: "(cluster, secret) typed_client" where
  "secretClient = mkClient ''secrets'' sec_meta sec_meta_update cl_secrets cl_secrets_update
     (\<lambda>old x. x) (\<lambda>old x. x)"

definition configmapClient :: "(cluster, configmap) typed_client" where
  "configmapClient = mkClient ''configmaps'' cm_meta cm_meta_update cl_configmaps cl_configmaps_update
     (\<lambda>old x. x) (\<lambda>old x. x)"

text \<open>The custom resources have a status subresource: an update keeps the stored status.\<close>

definition llmmodelClient :: "(cluster, LLMModel) typed_client" where
  "llmmodelClient = mkClient ''llmmodels.llm.nebari.dev'' lm_meta lm_meta_update cl_llmmodels
     cl_llmmodels_update (\<lambda>old x. x\<lparr>lm_status := lm_status old\<rparr>)
     (\<lambda>old x. old\<lparr>lm_status := lm_status x\<rparr>)"

definition passthroughClient :: "(cluster, PassthroughModel) typed_client" where
  "passthroughClient = mkClient ''passthroughmodels.llm.nebari.dev'' pm_meta pm_meta_update
     cl_passthroughs cl_passthroughs_update (\<lambda>old x. x\<lparr>pm_status := pm_status old\<rparr>)
     (\<lambda>old x. old\<lparr>pm_status := pm_status x\<rparr>)"

definition llmmodelContent :: "LLMModel \<Rightarrow> objmeta \<times> LLMModelSpec" where
  "llmmodelContent x = (written (lm_meta x), lm_spec x)"

definition passthroughContent :: "PassthroughModel \<Rightarrow> objmeta \<times> PassthroughModelSpec" where
  "passthroughContent x = (written (pm_meta x), pm_spec x)"

lemmas content_defs = secretContent_def configmapContent_def llmmodelContent_def
  passthroughContent_def written_def

definition secretsAt :: "cluster \<Rightarrow> nsname \<Rightarrow> secret option" where
  "secretsAt s = visible sec_meta (cl_secrets s)"

definition configmapsAt :: "cluster \<Rightarrow> nsname \<Rightarrow> configmap option" where
  "configmapsAt s = visible cm_meta (cl_configmaps s)"

definition llmmodelsAt :: "cluster \<Rightarrow> nsname \<Rightarrow> LLMModel option" where
  "llmmodelsAt s = visible lm_meta (cl_llmmodels s)"

definition passthroughsAt :: "cluster \<Rightarrow> nsname \<Rightarrow> PassthroughModel option" where
  "passthroughsAt s = visible pm_meta (cl_passthroughs s)"

interpretation secret_store: object_store "''secrets''" sec_meta sec_meta_update cl_secrets
  cl_secrets_update "\<lambda>old x. x" "\<lambda>old x. x" secretContent
  by unfold_locales (simp_all add: content_defs tick_def)

interpretation configmap_store: object_store "''configmaps''" cm_meta cm_meta_update cl_configmaps
  cl_configmaps_update "\<lambda>old x. x" "\<lambda>old x. x" configmapContent
  by unfold_locales (simp_all add: content_defs tick_def)

interpretation llmmodel_store: object_store "''llmmodels.llm.nebari.dev''" lm_meta lm_meta_update
  cl_llmmodels cl_llmmodels_update "\<lambda>old x. x\<lparr>lm_status := lm_status old\<rparr>"
  "\<lambda>old x. old\<lparr>lm_status := lm_status x\<rparr>" llmmodelContent
  by unfold_locales (simp_all add: content_defs tick_def)

interpretation passthrough_store: object_store "''passthroughmodels.llm.nebari.dev''" pm_meta
  pm_meta_update cl_passthroughs cl_passthroughs_update "\<lambda>old x. x\<lparr>pm_status := pm_status old\<rparr>"
  "\<lambda>old x. old\<lparr>pm_status := pm_status x\<rparr>" passthroughContent
  by unfold_locales (simp_all add: content_defs tick_def)

text \<open>The kinds the operator builds; the status of a Deployment is not written with its spec.\<close>

definition pvcClient :: "(cluster, PersistentVolumeClaim) typed_client" where
  "pvcClient = mkClient ''persistentvolumeclaims'' pvc_meta pvc_meta_update cl_pvcs cl_pvcs_update
     (\<lambda>old x. x) (\<lambda>old x. x)"

definition networkpolicyClient :: "(cluster, NetworkPolicy) typed_client" where
  "networkpolicyClient = mkClient ''networkpolicies'' npo_meta npo_meta_update cl_networkpolicies
     cl_networkpolicies_update (\<lambda>old x. x) (\<lambda>old x. x)"

definition serviceaccountClient :: "(cluster, ServiceAccount) typed_client" where
  "serviceaccountClient = mkClient ''serviceaccounts'' sac_meta sac_meta_update cl_serviceaccounts
     cl_serviceaccounts_update (\<lambda>old x. x) (\<lambda>old x. x)"

definition serviceClient :: "(cluster, Service) typed_client" where
  "serviceClient = mkClient ''services'' svc_meta svc_meta_update cl_services cl_services_update
     (\<lambda>old x. x) (\<lambda>old x. x)"

definition deploymentClient :: "(cluster, Deployment) typed_client" where
  "deploymentClient = mkClient ''deployments.apps'' dep_meta dep_meta_update cl_deployments
     cl_deployments_update (\<lambda>old x. x\<lparr>dep_readyReplicas := dep_readyReplicas old\<rparr>)
     (\<lambda>old x. old\<lparr>dep_readyReplicas := dep_readyReplicas x\<rparr>)"

definition roleClient :: "(cluster, Role) typed_client" where
  "roleClient = mkClient ''roles'' rol_meta rol_meta_update cl_roles cl_roles_update
     (\<lambda>old x. x) (\<lambda>old x. x)"

definition rolebindingClient :: "(cluster, RoleBinding) typed_client" where
  "rolebindingClient = mkClient ''rolebindings'' rlb_meta rlb_meta_update cl_rolebindings
     cl_rolebindings_update (\<lambda>old x. x) (\<lambda>old x. x)"

definition podClient :: "(cluster, Pod) typed_client" where
  "podClient = mkClient ''pods'' pd_meta pd_meta_update cl_pods cl_pods_update
     (\<lambda>old x. x) (\<lambda>old x. x)"

definition deploymentContent :: "Deployment \<Rightarrow> objmeta \<times> DeploymentSpec" where
  "deploymentContent x = (written (dep_meta x), dep_spec x)"

text \<open>
  Objects without a Go type, one store per kind. The server writes the resource version into the
  block \<open>metadata\<close> of the tree and leaves the rest as it is.
\<close>

definition treeMeta :: "json \<Rightarrow> objmeta" where
  "treeMeta t = (newMeta (treeName t) (treeNamespace t) [])
     \<lparr>om_rv := strOr (fieldOf (objGet t ''metadata'') ''resourceVersion'')\<rparr>"

definition metaFields :: "json \<Rightarrow> (string \<times> json) list" where
  "metaFields t = (case objGet t ''metadata'' of Some (JObj mm) \<Rightarrow> mm | _ \<Rightarrow> [])"

definition setMetaField :: "string \<Rightarrow> json \<Rightarrow> json \<Rightarrow> json" where
  "setMetaField k v t =
     JObj (AList.update ''metadata'' (JObj (AList.update k v (metaFields t)))
       (case t of JObj m \<Rightarrow> m | _ \<Rightarrow> []))"

definition setTreeMeta :: "(objmeta \<Rightarrow> objmeta) \<Rightarrow> json \<Rightarrow> json" where
  "setTreeMeta g t = setMetaField ''resourceVersion'' (JStr (om_rv (g (treeMeta t)))) t"

definition treeContent :: "json \<Rightarrow> string \<times> string \<times> string \<times> json option" where
  "treeContent t = (treeKind t, treeName t, treeNamespace t, specOf t)"

definition treeClient :: "string \<Rightarrow> (cluster, json) typed_client" where
  "treeClient kind = mkClient kind treeMeta setTreeMeta (\<lambda>s. cl_trees s kind)
     (\<lambda>f. cl_trees_update (\<lambda>t. t(kind := f (t kind)))) (\<lambda>old x. x) (\<lambda>old x. x)"

definition treesAt :: "cluster \<Rightarrow> string \<Rightarrow> nsname \<Rightarrow> json option" where
  "treesAt s kind = visible treeMeta (cl_trees s kind)"

definition deploymentsAt :: "cluster \<Rightarrow> nsname \<Rightarrow> Deployment option" where
  "deploymentsAt s = visible dep_meta (cl_deployments s)"

lemma objGet_setMetaField:
  "objGet (setMetaField k v t) f = (if f = ''metadata'' then Some (JObj (AList.update k v (metaFields t))) else objGet t f)"
  by (cases t) (auto simp: setMetaField_def objGet_def)

lemma fieldOf_metadata: "fieldOf (objGet t ''metadata'') f = map_of (metaFields t) f"
  by (auto simp: fieldOf_def metaFields_def split: option.splits json.splits)

lemma setMetaField_simps [simp]:
  "treeKind (setMetaField k v t) = treeKind t" "specOf (setMetaField k v t) = specOf t"
  "k \<noteq> ''name'' \<Longrightarrow> treeName (setMetaField k v t) = treeName t"
  "k \<noteq> ''namespace'' \<Longrightarrow> treeNamespace (setMetaField k v t) = treeNamespace t"
  "treeNamespace (setMetaField ''namespace'' (JStr ns) t) = ns"
  "strOr (fieldOf (objGet (setMetaField k (JStr r) t) ''metadata'') k) = r"
  by (auto simp: treeKind_def specOf_def treeName_def treeNamespace_def objGet_setMetaField
      fieldOf_metadata [of t])

interpretation tree_store: object_store kind treeMeta setTreeMeta "\<lambda>s. cl_trees s kind"
  "\<lambda>f. cl_trees_update (\<lambda>t. t(kind := f (t kind)))" "\<lambda>old x. x" "\<lambda>old x. x" treeContent for kind
  by unfold_locales (simp_all add: tick_def setTreeMeta_def treeMeta_def treeContent_def newMeta_def)

interpretation deployment_store: object_store "''deployments.apps''" dep_meta dep_meta_update
  cl_deployments cl_deployments_update "\<lambda>old x. x\<lparr>dep_readyReplicas := dep_readyReplicas old\<rparr>"
  "\<lambda>old x. old\<lparr>dep_readyReplicas := dep_readyReplicas x\<rparr>" deploymentContent
  by unfold_locales (simp_all add: deploymentContent_def written_def tick_def)

interpretation pvc_store: object_store "''persistentvolumeclaims''" pvc_meta pvc_meta_update cl_pvcs
  cl_pvcs_update "\<lambda>old x. x" "\<lambda>old x. x" pvc_accessModes
  by unfold_locales (simp_all add: tick_def)

interpretation networkpolicy_store: object_store "''networkpolicies''" npo_meta npo_meta_update
  cl_networkpolicies cl_networkpolicies_update "\<lambda>old x. x" "\<lambda>old x. x" npo_ingress
  by unfold_locales (simp_all add: tick_def)

interpretation serviceaccount_store: object_store "''serviceaccounts''" sac_meta sac_meta_update
  cl_serviceaccounts cl_serviceaccounts_update "\<lambda>old x. x" "\<lambda>old x. x" "\<lambda>x. written (sac_meta x)"
  by unfold_locales (simp_all add: tick_def written_def)

interpretation service_store: object_store "''services''" svc_meta svc_meta_update cl_services
  cl_services_update "\<lambda>old x. x" "\<lambda>old x. x" svc_ports
  by unfold_locales (simp_all add: tick_def)

interpretation role_store: object_store "''roles''" rol_meta rol_meta_update cl_roles cl_roles_update
  "\<lambda>old x. x" "\<lambda>old x. x" rol_rules
  by unfold_locales (simp_all add: tick_def)

interpretation rolebinding_store: object_store "''rolebindings''" rlb_meta rlb_meta_update
  cl_rolebindings cl_rolebindings_update "\<lambda>old x. x" "\<lambda>old x. x" rlb_subjects
  by unfold_locales (simp_all add: tick_def)

interpretation pod_store: object_store "''pods''" pd_meta pd_meta_update cl_pods cl_pods_update
  "\<lambda>old x. x" "\<lambda>old x. x" pd_initRunning
  by unfold_locales (simp_all add: tick_def)

section \<open>Secrets and ConfigMaps side by side\<close>

lemma put_frames:
  "cl_configmaps (storePut sec_meta cl_secrets_update x s) = cl_configmaps s"
  "cl_secrets (storePut cm_meta cl_configmaps_update y s) = cl_secrets s"
  "cl_configmaps (tick s) = cl_configmaps s" "cl_secrets (tick s) = cl_secrets s"
  by (simp_all add: storePut_def tick_def)

lemmas store_defs = storeGet_def storeList_def storeUpdate_def storeCreate_def Let_def

lemmas client_defs = secretClient_def configmapClient_def mkClient_def secretsAt_def configmapsAt_def

text \<open>A view that reads none of the fields a client writes.\<close>

lemmas unaffected_rules =
  secret_store.client_unaffected [folded secretClient_def]
  configmap_store.client_unaffected [folded configmapClient_def]
  llmmodel_store.client_unaffected [folded llmmodelClient_def]
  passthrough_store.client_unaffected [folded passthroughClient_def]
  pvc_store.client_unaffected [folded pvcClient_def]
  networkpolicy_store.client_unaffected [folded networkpolicyClient_def]
  serviceaccount_store.client_unaffected [folded serviceaccountClient_def]
  service_store.client_unaffected [folded serviceClient_def]
  deployment_store.client_unaffected [folded deploymentClient_def]
  role_store.client_unaffected [folded roleClient_def]
  rolebinding_store.client_unaffected [folded rolebindingClient_def]
  pod_store.client_unaffected [folded podClient_def]
  tree_store.client_unaffected [folded treeClient_def]

lemmas at_defs = secretsAt_def configmapsAt_def llmmodelsAt_def passthroughsAt_def treesAt_def
  deploymentsAt_def

interpretation keys: kube_two secretClient secretsAt sec_meta secretContent
  configmapClient configmapsAt cm_meta configmapContent
proof (intro kube_two.intro kube_two_axioms.intro)
  show "kube_kind secretClient secretsAt sec_meta secretContent"
    using secret_store.kube_kind_axioms by (simp add: secretClient_def secretsAt_def [abs_def])
  show "kube_kind configmapClient configmapsAt cm_meta configmapContent"
    using configmap_store.kube_kind_axioms by (simp add: configmapClient_def configmapsAt_def [abs_def])
qed (rule unaffected_rules; simp add: at_defs tick_def)+

end
