(* ===== verification/Secrets.thy ===== *)
theory Secrets
  imports Digest Cluster
begin

text \<open>
  \<open>key-manager/internal/secrets/manager.go\<close>: minting, listing and revoking API keys. A model's
  keys live in a Secret (client ID to key) and its metadata in a ConfigMap (client ID to a JSON
  text). SHA-256, the JSON codec of \<open>KeyInfo\<close>, the random source and the clock are arguments;
  the two API clients are the ones of Kube. The locale \<open>key_stores\<close> holds the proofs, under the
  documented behaviour of the API, and is interpreted on the reference server at the end.
\<close>

section \<open>Names\<close>

record KeyInfo =
  ki_clientID :: string
  ki_creator :: string
  ki_description :: string
  ki_createdAt :: int
  ki_modelName :: string
  ki_namespace :: string

record CreateKeyResult =
  ckr_clientID :: string
  ckr_apiKey :: string

definition secretName :: "string \<Rightarrow> string" where
  "secretName modelName = modelName @ ''-api-keys''"

definition configMapName :: "string \<Rightarrow> string" where
  "configMapName modelName = modelName @ ''-api-key-metadata''"

definition isValidDataKeyByte :: "char \<Rightarrow> bool" where
  "isValidDataKeyByte c \<longleftrightarrow>
     isLowerAlpha c \<or> isUpperAlpha c \<or> isDigit c \<or> c = CHR ''-'' \<or> c = CHR ''.'' \<or> c = CHR ''_''"

definition isValidDataKeyName :: "string \<Rightarrow> bool" where
  "isValidDataKeyName s \<longleftrightarrow> s \<noteq> [] \<and> list_all isValidDataKeyByte s"

text \<open>\<open>shortHash(parts...)\<close>: the parts joined by a NUL byte, half of the digest, in hexadecimal.\<close>

definition shortHash :: "(bytes \<Rightarrow> bytes) \<Rightarrow> string list \<Rightarrow> string" where
  "shortHash sha parts = hexEncode (take 16 (sha (join [char_of (0 :: nat)] parts)))"

definition sanitizeByte :: "char \<Rightarrow> string" where
  "sanitizeByte c =
     (if c = CHR ''@'' then ''-at-'' else if isValidDataKeyByte c then [c] else ''-'')"

definition sanitizeUsernameForKey :: "(bytes \<Rightarrow> bytes) \<Rightarrow> string \<Rightarrow> string" where
  "sanitizeUsernameForKey sha username =
     (if username = [] then []
      else if isValidDataKeyName username then username
      else concat (map sanitizeByte username) @ ''-'' @ shortHash sha [username])"

definition userPrefixFor :: "(bytes \<Rightarrow> bytes) \<Rightarrow> string \<Rightarrow> string \<Rightarrow> string" where
  "userPrefixFor sha username modelName =
     ''user-'' @ sanitizeUsernameForKey sha username @ ''-'' @ sanitizeUsernameForKey sha modelName
       @ ''-'' @ shortHash sha [username, modelName] @ ''-''"

text \<open>\<open>generateAPIKey\<close>, on the outcome of \<open>rand.Read\<close> for 24 bytes.\<close>

definition generateAPIKey :: "gerror + bytes \<Rightarrow> gerror + string" where
  "generateAPIKey rnd =
     (case rnd of
        Inl e \<Rightarrow> Inl (wrapErr ''generating random bytes'' e)
      | Inr b \<Rightarrow> Inr (''sk-'' @ rawURLEncode b))"

definition isConflict :: "gerror \<Rightarrow> bool" where
  "isConflict e \<longleftrightarrow> contains (errText e) ''conflict'' \<or> contains (errText e) ''409''"

section \<open>The manager\<close>

record 'k Manager =
  mgr_secrets :: "('k, secret) typed_client"
  mgr_configmaps :: "('k, configmap) typed_client"
  mgr_namespace :: string

text \<open>The standard library as the manager uses it, and what one attempt draws from outside.\<close>

record keyEnv =
  env_sha :: "bytes \<Rightarrow> bytes"
  env_marshal :: "KeyInfo \<Rightarrow> gerror + string"
  env_unmarshal :: "string \<Rightarrow> KeyInfo option"

record draw =
  dr_rand :: "gerror + bytes"
  dr_now :: int

definition getSecret :: "'k Manager \<Rightarrow> string \<Rightarrow> ('k, secret) action" where
  "getSecret m modelName =
     wrapE (''API key secret not found for model '' @ modelName @ '' - has the operator created it?'')
       (tc_get (mgr_secrets m) (mgr_namespace m, secretName modelName))"

definition getConfigMap :: "'k Manager \<Rightarrow> string \<Rightarrow> ('k, configmap) action" where
  "getConfigMap m modelName =
     wrapE (''API key metadata ConfigMap not found for model '' @ modelName
         @ '' - has the operator created it?'')
       (tc_get (mgr_configmaps m) (mgr_namespace m, configMapName modelName))"

text \<open>
  The loop that probes upward for an unused client ID: it ends because each taken candidate is
  one of the finitely many keys of the two maps.
\<close>

definition taken :: "bytes gomap \<Rightarrow> string gomap \<Rightarrow> string \<Rightarrow> nat \<Rightarrow> bool" where
  "taken sd cd pre n \<longleftrightarrow> map_of sd (pre @ itoa n) \<noteq> None \<or> map_of cd (pre @ itoa n) \<noteq> None"

lemma finite_taken: "finite {n. taken sd cd pre n}"
proof -
  have "{n. taken sd cd pre n} \<subseteq> (\<lambda>n. pre @ itoa n) -` (fst ` set sd \<union> fst ` set cd)"
    by (auto simp: taken_def keys_iff_map_of)
  moreover have "inj (\<lambda>n. pre @ itoa n)"
    by (auto simp: inj_def itoa_inj)
  ultimately show ?thesis
    by (meson finite_Un finite_imageI finite_set finite_subset finite_vimageI)
qed

lemma taken_card_decreases:
  assumes "taken sd cd pre n"
  shows "card {i. Suc n \<le> i \<and> taken sd cd pre i} < card {i. n \<le> i \<and> taken sd cd pre i}"
proof (rule psubset_card_mono)
  show "finite {i. n \<le> i \<and> taken sd cd pre i}"
    by (rule finite_subset [OF _ finite_taken]) auto
  show "{i. Suc n \<le> i \<and> taken sd cd pre i} \<subset> {i. n \<le> i \<and> taken sd cd pre i}"
  proof (rule psubsetI)
    have "n \<in> {i. n \<le> i \<and> taken sd cd pre i}" and "n \<notin> {i. Suc n \<le> i \<and> taken sd cd pre i}"
      using assms by auto
    then show "{i. Suc n \<le> i \<and> taken sd cd pre i} \<noteq> {i. n \<le> i \<and> taken sd cd pre i}" by blast
  qed auto
qed

function nextSequence :: "bytes gomap \<Rightarrow> string gomap \<Rightarrow> string \<Rightarrow> nat \<Rightarrow> nat" where
  "nextSequence sd cd pre sequence =
     (if map_of sd (pre @ itoa sequence) = None \<and> map_of cd (pre @ itoa sequence) = None
      then sequence else nextSequence sd cd pre (Suc sequence))"
  by pat_completeness auto
termination
proof (relation "measure (\<lambda>(sd, cd, pre, n). card {i. n \<le> i \<and> taken sd cd pre i})", goal_cases)
  case 1
  show ?case by simp
next
  case (2 sd cd pre n)
  then have "taken sd cd pre n" by (auto simp: taken_def)
  then show ?case by (simp add: taken_card_decreases)
qed

declare nextSequence.simps [simp del]

definition countPrefix :: "bytes gomap \<Rightarrow> string \<Rightarrow> nat" where
  "countPrefix sd pre = length (filter (\<lambda>(k, v). hasPrefix k pre) sd)"

text \<open>
  \<open>createKeyOnce\<close> in three parts: the client ID chosen from the two maps, the writes, and the
  reads they start from.
\<close>

definition nextClientID :: "keyEnv \<Rightarrow> string \<Rightarrow> string \<Rightarrow> secret \<Rightarrow> configmap \<Rightarrow> string" where
  "nextClientID env username modelName secret cm =
     (let userPrefix = userPrefixFor (env_sha env) username modelName;
          sequence = nextSequence (sec_data secret) (cm_data cm) userPrefix
            (countPrefix (sec_data secret) userPrefix + 1)
      in userPrefix @ itoa sequence)"

definition newKeyInfo :: "'k Manager \<Rightarrow> int \<Rightarrow> string \<Rightarrow> string \<Rightarrow> string \<Rightarrow> string \<Rightarrow> KeyInfo" where
  "newKeyInfo m now modelName username description clientID =
     \<lparr>ki_clientID = clientID, ki_creator = username, ki_description = description,
      ki_createdAt = now, ki_modelName = modelName, ki_namespace = mgr_namespace m\<rparr>"

definition storeKey ::
  "keyEnv \<Rightarrow> 'k Manager \<Rightarrow> draw \<Rightarrow> string \<Rightarrow> string \<Rightarrow> string \<Rightarrow> secret \<Rightarrow> configmap \<Rightarrow>
   ('k, CreateKeyResult) action" where
  "storeKey env m dr modelName username description secret cm =
     (let clientID = nextClientID env username modelName secret cm
      in bindE (wrapE ''generating API key'' (liftE (generateAPIKey (dr_rand dr)))) (\<lambda>apiKey.
         bindE (wrapE (''updating Secret for model '' @ modelName)
           (tc_update (mgr_secrets m)
             (secret\<lparr>sec_data := AList.update clientID apiKey (sec_data secret)\<rparr>))) (\<lambda>_.
         bindE (wrapE ''marshaling key metadata'' (liftE (env_marshal env
           (newKeyInfo m (dr_now dr) modelName username description clientID)))) (\<lambda>infoJSON.
         bindE (wrapE (''updating ConfigMap for model '' @ modelName)
           (tc_update (mgr_configmaps m)
             (cm\<lparr>cm_data := AList.update clientID infoJSON (cm_data cm)\<rparr>))) (\<lambda>_.
         returnE \<lparr>ckr_clientID = clientID, ckr_apiKey = apiKey\<rparr>)))))"

definition createKeyOnce ::
  "keyEnv \<Rightarrow> 'k Manager \<Rightarrow> draw \<Rightarrow> string \<Rightarrow> string \<Rightarrow> string \<Rightarrow> ('k, CreateKeyResult) action" where
  "createKeyOnce env m dr modelName username description =
     bindE (getSecret m modelName) (\<lambda>secret.
     bindE (getConfigMap m modelName) (\<lambda>cm.
       storeKey env m dr modelName username description secret cm))"

definition maxRetries :: nat where "maxRetries = 3"

fun createKeyAttempts ::
  "keyEnv \<Rightarrow> 'k Manager \<Rightarrow> (nat \<Rightarrow> draw) \<Rightarrow> string \<Rightarrow> string \<Rightarrow> string \<Rightarrow> nat \<Rightarrow>
   ('k, CreateKeyResult) action" where
  "createKeyAttempts env m draws modelName username description 0 s =
     (Inl (errorf (''creating key for model '' @ modelName @ '': too many conflicts'')), s)"
| "createKeyAttempts env m draws modelName username description (Suc n) s =
     (case createKeyOnce env m (draws n) modelName username description s of
        (Inr result, s') \<Rightarrow> (Inr result, s')
      | (Inl e, s') \<Rightarrow>
          if \<not> isConflict e then (Inl e, s')
          else createKeyAttempts env m draws modelName username description n s')"

definition createKey ::
  "keyEnv \<Rightarrow> 'k Manager \<Rightarrow> (nat \<Rightarrow> draw) \<Rightarrow> string \<Rightarrow> string \<Rightarrow> string \<Rightarrow>
   ('k, CreateKeyResult) action" where
  "createKey env m draws modelName username description s =
     (if username = [] then (Inl (errorf ''username is required''), s)
      else createKeyAttempts env m draws modelName username description maxRetries s)"

text \<open>\<open>parseConfigMapKeys\<close> skips the entries that do not parse.\<close>

definition parseConfigMapKeys :: "keyEnv \<Rightarrow> configmap \<Rightarrow> KeyInfo list" where
  "parseConfigMapKeys env cm = List.map_filter (\<lambda>(k, v). env_unmarshal env v) (cm_data cm)"

definition listKeys :: "keyEnv \<Rightarrow> 'k Manager \<Rightarrow> string \<Rightarrow> ('k, KeyInfo list) action" where
  "listKeys env m modelName =
     bindE (getConfigMap m modelName) (\<lambda>cm. returnE (parseConfigMapKeys env cm))"

definition metadataLabel :: string where "metadataLabel = ''llm.nebari.dev/model-name''"

definition isMetadataConfigMap :: "configmap \<Rightarrow> bool" where
  "isMetadataConfigMap cm \<longleftrightarrow> map_of (om_labels (cm_meta cm)) metadataLabel \<noteq> None \<and>
     hasSuffix (om_name (cm_meta cm)) ''-api-key-metadata''"

definition listKeysForUser :: "keyEnv \<Rightarrow> 'k Manager \<Rightarrow> string \<Rightarrow> ('k, KeyInfo list) action" where
  "listKeysForUser env m username =
     bindE (wrapE ''listing ConfigMaps'' (tc_list (mgr_configmaps m) (mgr_namespace m) []))
       (\<lambda>cms. returnE (concat (map (\<lambda>cm.
          if isMetadataConfigMap cm
          then filter (\<lambda>info. ki_creator info = username) (parseConfigMapKeys env cm)
          else []) cms)))"

definition revokeKeyOnce :: "'k Manager \<Rightarrow> string \<Rightarrow> string \<Rightarrow> ('k, unit) action" where
  "revokeKeyOnce m modelName clientID =
     bindE (getSecret m modelName) (\<lambda>secret.
     bindE (getConfigMap m modelName) (\<lambda>cm.
       if map_of (sec_data secret) clientID = None
       then throwE (errorf (''key '' @ quote clientID @ '' not found for model '' @ modelName))
       else
         bindE (wrapE (''updating Secret for model '' @ modelName)
           (tc_update (mgr_secrets m)
             (secret\<lparr>sec_data := AList.delete clientID (sec_data secret)\<rparr>))) (\<lambda>_.
         bindE (wrapE (''updating ConfigMap for model '' @ modelName)
           (tc_update (mgr_configmaps m)
             (cm\<lparr>cm_data := AList.delete clientID (cm_data cm)\<rparr>))) (\<lambda>_. returnE ()))))"

fun revokeKeyAttempts :: "'k Manager \<Rightarrow> string \<Rightarrow> string \<Rightarrow> nat \<Rightarrow> ('k, unit) action" where
  "revokeKeyAttempts m modelName clientID 0 s =
     (Inl (errorf (''revoking key '' @ clientID @ '' for model '' @ modelName
        @ '': too many conflicts'')), s)"
| "revokeKeyAttempts m modelName clientID (Suc n) s =
     (case revokeKeyOnce m modelName clientID s of
        (Inr u, s') \<Rightarrow> (Inr u, s')
      | (Inl e, s') \<Rightarrow>
          if \<not> isConflict e then (Inl e, s') else revokeKeyAttempts m modelName clientID n s')"

definition revokeKey :: "'k Manager \<Rightarrow> string \<Rightarrow> string \<Rightarrow> ('k, unit) action" where
  "revokeKey m modelName clientID = revokeKeyAttempts m modelName clientID maxRetries"

section \<open>Names: the lemmas\<close>

lemma isHexChar_valid: "isHexChar c \<Longrightarrow> isValidDataKeyByte c"
proof -
  have "list_all isValidDataKeyByte ''0123456789abcdef''" by code_simp
  then show "isHexChar c \<Longrightarrow> isValidDataKeyByte c"
    unfolding isHexChar_def list_all_iff by blast
qed

lemma isDigit_valid: "isDigit c \<Longrightarrow> isValidDataKeyByte c"
  by (simp add: isValidDataKeyByte_def)

lemma shortHash_hex: "c \<in> set (shortHash sha ps) \<Longrightarrow> isHexChar c"
  by (auto simp: shortHash_def hexEncode_isHex)

lemma shortHash_valid: "list_all isValidDataKeyByte (shortHash sha ps)"
  by (auto simp: list_all_iff shortHash_hex isHexChar_valid)

lemma shortHash_no_dash: "CHR ''-'' \<notin> set (shortHash sha ps)"
  using shortHash_hex isHexChar_no_dash by blast

lemma itoa_no_dash: "CHR ''-'' \<notin> set (itoa n)"
  using itoa_digits isDigit_no_dash by blast

lemma itoa_valid: "list_all isValidDataKeyByte (itoa n)"
  by (auto simp: list_all_iff isDigit_valid dest: itoa_digits)

lemma sanitizeByte_valid: "list_all isValidDataKeyByte (sanitizeByte c)"
  by (auto simp: sanitizeByte_def isValidDataKeyByte_def char_class_defs)

lemma sanitize_valid_bytes: "list_all isValidDataKeyByte (sanitizeUsernameForKey sha u)"
proof -
  have "list_all isValidDataKeyByte (concat (map sanitizeByte u))"
    using sanitizeByte_valid by (induction u) auto
  moreover have "list_all isValidDataKeyByte ''-''"
    by (simp add: isValidDataKeyByte_def)
  ultimately show ?thesis
    by (simp add: sanitizeUsernameForKey_def isValidDataKeyName_def shortHash_valid)
qed

lemma sanitize_empty: "sanitizeUsernameForKey sha u = [] \<longleftrightarrow> u = []"
  by (simp add: sanitizeUsernameForKey_def)

lemma sanitize_valid_name: "u \<noteq> [] \<Longrightarrow> isValidDataKeyName (sanitizeUsernameForKey sha u)"
  by (simp add: isValidDataKeyName_def sanitize_valid_bytes sanitize_empty)

lemma sanitize_id: "isValidDataKeyName u \<Longrightarrow> sanitizeUsernameForKey sha u = u"
  by (simp add: sanitizeUsernameForKey_def)

lemma userPrefix_valid: "list_all isValidDataKeyByte (userPrefixFor sha u m)"
  by (simp add: userPrefixFor_def sanitize_valid_bytes shortHash_valid)
    (simp add: isValidDataKeyByte_def char_class_defs)

lemma clientID_eq:
  "userPrefixFor sha u m @ itoa n = userPrefixFor sha u' m' @ itoa n' \<longleftrightarrow>
     n = n' \<and> shortHash sha [u, m] = shortHash sha [u', m'] \<and>
     sanitizeUsernameForKey sha u @ ''-'' @ sanitizeUsernameForKey sha m =
       sanitizeUsernameForKey sha u' @ ''-'' @ sanitizeUsernameForKey sha m'"
    (is "?l \<longleftrightarrow> ?r")
proof
  let ?A = "\<lambda>u m. ''user-'' @ sanitizeUsernameForKey sha u @ ''-'' @ sanitizeUsernameForKey sha m"
  assume ?l
  then have "(?A u m @ CHR ''-'' # shortHash sha [u, m]) @ CHR ''-'' # itoa n =
      (?A u' m' @ CHR ''-'' # shortHash sha [u', m']) @ CHR ''-'' # itoa n'"
    by (simp add: userPrefixFor_def)
  from last_dash_split [OF this itoa_no_dash itoa_no_dash]
  have "itoa n = itoa n'" and
    "?A u m @ CHR ''-'' # shortHash sha [u, m] = ?A u' m' @ CHR ''-'' # shortHash sha [u', m']"
    by auto
  with last_dash_split [OF this(2) shortHash_no_dash shortHash_no_dash] show ?r
    by (simp add: itoa_inj)
next
  assume ?r
  then show ?l by (simp add: userPrefixFor_def)
qed

section \<open>The probe\<close>

lemma nextSequence_free:
  "map_of sd (pre @ itoa (nextSequence sd cd pre n)) = None \<and>
   map_of cd (pre @ itoa (nextSequence sd cd pre n)) = None"
proof (induction sd cd pre n rule: nextSequence.induct)
  case (1 sd cd pre n)
  then show ?case by (cases "taken sd cd pre n") (auto simp: nextSequence.simps [of sd cd pre n] taken_def)
qed

lemma nextSequence_least:
  "n \<le> nextSequence sd cd pre n \<and>
   (\<forall>i. n \<le> i \<and> i < nextSequence sd cd pre n \<longrightarrow> taken sd cd pre i)"
proof (induction sd cd pre n rule: nextSequence.induct)
  case (1 sd cd pre n)
  show ?case
  proof (cases "taken sd cd pre n")
    case True
    then have *: "\<not> (map_of sd (pre @ itoa n) = None \<and> map_of cd (pre @ itoa n) = None)"
      by (auto simp: taken_def)
    with "1.IH" have IH: "Suc n \<le> nextSequence sd cd pre (Suc n)" by simp
    from "1.IH" * have least: "taken sd cd pre i"
      if "Suc n \<le> i" "i < nextSequence sd cd pre (Suc n)" for i
      using that by auto
    have "taken sd cd pre i" if "n \<le> i" "i < nextSequence sd cd pre (Suc n)" for i
      using that True least by (cases "i = n") auto
    with IH * show ?thesis by (simp add: nextSequence.simps [of sd cd pre n])
  next
    case False
    then show ?thesis by (auto simp: nextSequence.simps [of sd cd pre n] taken_def)
  qed
qed

lemma card_taken_le: "card {i. taken sd cd pre i} \<le> length sd + length cd"
proof -
  let ?f = "\<lambda>i. pre @ itoa i"
  have "card {i. taken sd cd pre i} = card (?f ` {i. taken sd cd pre i})"
    by (rule card_image [symmetric]) (auto simp: inj_on_def itoa_inj)
  also have "\<dots> \<le> card (set (map fst sd @ map fst cd))"
    by (rule card_mono) (auto simp: taken_def image_iff dest!: map_of_SomeD; force)+
  also have "\<dots> \<le> length (map fst sd @ map fst cd)"
    by (rule card_length)
  finally show ?thesis by simp
qed

lemma nextSequence_bound: "nextSequence sd cd pre n \<le> n + length sd + length cd"
proof -
  have "{n..<nextSequence sd cd pre n} \<subseteq> {i. taken sd cd pre i}"
    using nextSequence_least [of n sd cd pre] by auto
  then have "card {n..<nextSequence sd cd pre n} \<le> card {i. taken sd cd pre i}"
    by (rule card_mono [OF finite_taken])
  with card_taken_le [of sd cd pre] show ?thesis by simp
qed

section \<open>Effects on the stored objects\<close>

text \<open>
  \<open>grows\<close>: the same Secrets and metadata ConfigMaps are there, and each holds every entry it
  held, with the same value.
\<close>

definition grows ::
  "('k \<Rightarrow> nsname \<Rightarrow> secret option) \<Rightarrow> ('k \<Rightarrow> nsname \<Rightarrow> configmap option) \<Rightarrow> 'k \<Rightarrow> 'k \<Rightarrow> bool" where
  "grows vS vM s s' \<longleftrightarrow>
     (\<forall>n. rel_option (\<lambda>x x'. map_of (sec_data x) \<subseteq>\<^sub>m map_of (sec_data x')) (vS s n) (vS s' n)) \<and>
     (\<forall>n. rel_option (\<lambda>y y'. map_of (cm_data y) \<subseteq>\<^sub>m map_of (cm_data y')) (vM s n) (vM s' n))"

text \<open>\<open>agreeS\<close> and \<open>agreeM\<close>: two views agree on every entry but those of client ID \<open>cid\<close> of one model.\<close>

definition agreeS :: "(nsname \<Rightarrow> secret option) \<Rightarrow> (nsname \<Rightarrow> secret option) \<Rightarrow> nsname \<Rightarrow> string \<Rightarrow> bool" where
  "agreeS v v' n0 cid \<longleftrightarrow> (\<forall>n k. n \<noteq> n0 \<or> k \<noteq> cid \<longrightarrow>
     map_option (\<lambda>x. map_of (sec_data x) k) (v' n) = map_option (\<lambda>x. map_of (sec_data x) k) (v n))"

definition agreeM ::
  "(nsname \<Rightarrow> configmap option) \<Rightarrow> (nsname \<Rightarrow> configmap option) \<Rightarrow> nsname \<Rightarrow> string \<Rightarrow> bool" where
  "agreeM v v' n0 cid \<longleftrightarrow> (\<forall>n k. n \<noteq> n0 \<or> k \<noteq> cid \<longrightarrow>
     map_option (\<lambda>x. map_of (cm_data x) k) (v' n) = map_option (\<lambda>x. map_of (cm_data x) k) (v n))"

lemma grows_refl: "vS s' = vS s \<Longrightarrow> vM s' = vM s \<Longrightarrow> grows vS vM s s'"
  by (simp add: grows_def rel_option_reflI)

lemma rel_option_trans:
  "rel_option P x y \<Longrightarrow> rel_option P y z \<Longrightarrow> (\<And>a b c. P a b \<Longrightarrow> P b c \<Longrightarrow> P a c) \<Longrightarrow> rel_option P x z"
  by (cases x; cases y; cases z; simp) blast?

lemma grows_trans: "grows vS vM s t \<Longrightarrow> grows vS vM t u \<Longrightarrow> grows vS vM s u"
  unfolding grows_def by (fast intro: rel_option_trans map_le_trans)

lemma map_le_None: "f \<subseteq>\<^sub>m g \<Longrightarrow> g k = None \<Longrightarrow> f k = None"
  by (metis domIff map_le_def)

lemma growsS_absent:
  assumes "grows vS vM s t" and "vS t n = Some y" and "map_of (sec_data y) k = None"
  shows "\<exists>x. vS s n = Some x \<and> map_of (sec_data x) k = None"
proof -
  from assms(1) have "rel_option (\<lambda>x x'. map_of (sec_data x) \<subseteq>\<^sub>m map_of (sec_data x')) (vS s n) (vS t n)"
    by (simp add: grows_def del: split_paired_All)
  with assms(2,3) show ?thesis by (cases "vS s n") (auto dest: map_le_None)
qed

lemma growsM_absent:
  assumes "grows vS vM s t" and "vM t n = Some y" and "map_of (cm_data y) k = None"
  shows "\<exists>x. vM s n = Some x \<and> map_of (cm_data x) k = None"
proof -
  from assms(1) have "rel_option (\<lambda>x x'. map_of (cm_data x) \<subseteq>\<^sub>m map_of (cm_data x')) (vM s n) (vM t n)"
    by (simp add: grows_def del: split_paired_All)
  with assms(2,3) show ?thesis by (cases "vM s n") (auto dest: map_le_None)
qed

lemma map_le_fresh: "f k = None \<Longrightarrow> f \<subseteq>\<^sub>m f(k \<mapsto> v)"
  by (auto simp: map_le_def)

lemma agree_refl: "agreeS v v n cid" "agreeM w w n cid"
  by (simp_all add: agreeS_def agreeM_def)

lemma agree_trans:
  "agreeS v v' n cid \<Longrightarrow> agreeS v' v'' n cid \<Longrightarrow> agreeS v v'' n cid"
  "agreeM w w' n cid \<Longrightarrow> agreeM w' w'' n cid \<Longrightarrow> agreeM w w'' n cid"
  by (simp_all add: agreeS_def agreeM_def)

lemma nextClientID_free:
  "map_of (sec_data sec) (nextClientID env u mn sec cm) = None"
  "map_of (cm_data cm) (nextClientID env u mn sec cm) = None"
  using nextSequence_free by (simp_all add: nextClientID_def Let_def)

text \<open>What both clients keep, the manager keeps.\<close>

context frame
begin

lemma keeps_manager:
  assumes "clientKeeps R (mgr_secrets m)" and "clientKeeps R (mgr_configmaps m)"
  shows "keeps R (createKey env m draws mn u d)" and "keeps R (revokeKey m mn cid)"
    and "keeps R (listKeys env m mn)" and "keeps R (listKeysForUser env m u)"
proof -
  note clients = clientKeepsD [OF assms(1)] clientKeepsD [OF assms(2)]
  have reads: "keeps R (getSecret m mn)" "keeps R (getConfigMap m mn)" for mn
    unfolding getSecret_def getConfigMap_def by (intro keeps_wrap clients)+
  have create: "keeps R (createKeyOnce env m dr mn u d)" for dr
    unfolding createKeyOnce_def storeKey_def Let_def
    by (intro keeps_bind keeps_wrap keeps_lift keeps_return reads clients)
  have ite: "keeps R (if b then f else g)" if "keeps R f" "keeps R g" for b and f g :: "('s, unit) action"
    using that by simp
  have revoke: "keeps R (revokeKeyOnce m mn cid)"
    unfolding revokeKeyOnce_def
    by (intro ite keeps_bind keeps_wrap keeps_throw keeps_return reads clients)
  have "createKeyAttempts env m draws mn u d n s = (q, t) \<Longrightarrow> R s t" for n s q t
    by (induction n arbitrary: s) (auto intro: refl trans split: prod.splits sum.splits if_splits dest!: keepsD [OF create])
  then show "keeps R (createKey env m draws mn u d)"
    by (intro keepsI) (auto simp: createKey_def refl split: if_splits)
  have "revokeKeyAttempts m mn cid n s = (q, t) \<Longrightarrow> R s t" for n s q t
    by (induction n arbitrary: s) (auto intro: refl trans split: prod.splits sum.splits if_splits dest!: keepsD [OF revoke])
  then show "keeps R (revokeKey m mn cid)"
    by (intro keepsI) (auto simp: revokeKey_def)
  show "keeps R (listKeys env m mn)"
    unfolding listKeys_def by (intro keeps_bind keeps_return reads)
  show "keeps R (listKeysForUser env m u)"
    unfolding listKeysForUser_def by (intro keeps_bind keeps_wrap keeps_return clients)
qed

end

locale key_stores =
  kube_two "mgr_secrets m" viewS sec_meta secretContent "mgr_configmaps m" viewM cm_meta configmapContent
  for m :: "'k Manager" and viewS viewM
begin

lemma put_secret:
  assumes view: "viewS s n = Some x"
    and upd: "tc_update (mgr_secrets m) (x\<lparr>sec_data := D\<rparr>) s = (r, s')"
  shows "viewM s' = viewM s \<and>
    ((viewS s' = viewS s \<and> (\<exists>e. r = Inl e)) \<or> (\<exists>y. sec_data y = D \<and> viewS s' = (viewS s)(n \<mapsto> y)))"
proof -
  have k: "metaKey (sec_meta x) = n" "alive (sec_meta x)" using A.view_key [OF view] by auto
  have "viewM s' = viewM s" by (rule update_A_B [OF upd])
  moreover have "(viewS s' = viewS s \<and> (\<exists>e. r = Inl e)) \<or>
      (\<exists>y. sec_data y = D \<and> viewS s' = (viewS s)(n \<mapsto> y))"
  proof (cases r)
    case (Inr y)
    with A.update_ok [of "x\<lparr>sec_data := D\<rparr>" s y s'] upd k show ?thesis
      by (auto dest!: secretContent_eqD)
  next
    case (Inl e)
    with A.update_err [of "x\<lparr>sec_data := D\<rparr>" s e s'] upd k show ?thesis
      by (auto dest!: secretContent_eqD)
  qed
  ultimately show ?thesis by blast
qed

lemma put_configmap:
  assumes view: "viewM s n = Some x"
    and upd: "tc_update (mgr_configmaps m) (x\<lparr>cm_data := D\<rparr>) s = (r, s')"
  shows "viewS s' = viewS s \<and>
    ((viewM s' = viewM s \<and> (\<exists>e. r = Inl e)) \<or> (\<exists>y. cm_data y = D \<and> viewM s' = (viewM s)(n \<mapsto> y)))"
proof -
  have k: "metaKey (cm_meta x) = n" "alive (cm_meta x)" using B.view_key [OF view] by auto
  have "viewS s' = viewS s" by (rule update_B_A [OF upd])
  moreover have "(viewM s' = viewM s \<and> (\<exists>e. r = Inl e)) \<or>
      (\<exists>y. cm_data y = D \<and> viewM s' = (viewM s)(n \<mapsto> y))"
  proof (cases r)
    case (Inr y)
    with B.update_ok [of "x\<lparr>cm_data := D\<rparr>" s y s'] upd k show ?thesis
      by (auto dest!: configmapContent_eqD)
  next
    case (Inl e)
    with B.update_err [of "x\<lparr>cm_data := D\<rparr>" s e s'] upd k show ?thesis
      by (auto dest!: configmapContent_eqD)
  qed
  ultimately show ?thesis by blast
qed

lemma getSecret_view:
  assumes "getSecret m mn s = (r, s')"
  shows "viewS s' = viewS s \<and> viewM s' = viewM s \<and>
    (\<forall>x. r = Inr x \<longrightarrow> viewS s (mgr_namespace m, secretName mn) = Some x)"
  using assms A.get_view get_A_B A.get_ok
  by (cases r) (fastforce simp: getSecret_def wrapE_Inl wrapE_Inr)+

lemma getConfigMap_view:
  assumes "getConfigMap m mn s = (r, s')"
  shows "viewS s' = viewS s \<and> viewM s' = viewM s \<and>
    (\<forall>x. r = Inr x \<longrightarrow> viewM s (mgr_namespace m, configMapName mn) = Some x)"
  using assms B.get_view get_B_A B.get_ok
  by (cases r) (fastforce simp: getConfigMap_def wrapE_Inl wrapE_Inr)+

end

section \<open>Minting\<close>

context key_stores
begin

abbreviation secAt :: "string \<Rightarrow> nsname" where
  "secAt mn \<equiv> (mgr_namespace m, secretName mn)"

abbreviation cmAt :: "string \<Rightarrow> nsname" where
  "cmAt mn \<equiv> (mgr_namespace m, configMapName mn)"

text \<open>Minting and revoking both begin by reading the two objects.\<close>

lemma reads:
  assumes run: "bindE (getSecret m mn) (\<lambda>sec. bindE (getConfigMap m mn) (\<lambda>cm. body sec cm)) s = (r, s')"
  shows "(viewS s' = viewS s \<and> viewM s' = viewM s \<and> (\<exists>e. r = Inl e)) \<or>
    (\<exists>sec cm s2. viewS s (secAt mn) = Some sec \<and> viewM s (cmAt mn) = Some cm \<and>
      viewS s2 = viewS s \<and> viewM s2 = viewM s \<and> body sec cm s2 = (r, s'))"
proof -
  obtain r1 s1 where g1: "getSecret m mn s = (r1, s1)" by fastforce
  obtain r2 s2 where g2: "getConfigMap m mn s1 = (r2, s2)" by fastforce
  from run g1 g2 getSecret_view [OF g1] getConfigMap_view [OF g2] show ?thesis
    by (cases r1; cases r2) (auto simp: bindE_def)
qed

text \<open>
  What one attempt can have done to the two views: nothing; the new credential was stored
  without its metadata; or both were stored, and then the result may still be an error.
\<close>

lemma storeKey_effect:
  assumes run: "storeKey env m dr mn u d sec cm s = (r, s')"
    and sec: "viewS s (secAt mn) = Some sec" and cm: "viewM s (cmAt mn) = Some cm"
    and cid: "cid = nextClientID env u mn sec cm"
  shows "(viewS s' = viewS s \<and> viewM s' = viewM s \<and> (\<exists>e. r = Inl e)) \<or>
    (\<exists>key y. generateAPIKey (dr_rand dr) = Inr key \<and>
      sec_data y = AList.update cid key (sec_data sec) \<and> viewS s' = (viewS s)(secAt mn \<mapsto> y) \<and>
      ((viewM s' = viewM s \<and> (\<exists>e. r = Inl e)) \<or>
       (\<exists>js z. env_marshal env (newKeyInfo m (dr_now dr) mn u d cid) = Inr js \<and>
          cm_data z = AList.update cid js (cm_data cm) \<and> viewM s' = (viewM s)(cmAt mn \<mapsto> z) \<and>
          ((\<exists>e. r = Inl e) \<or> r = Inr \<lparr>ckr_clientID = cid, ckr_apiKey = key\<rparr>))))"
proof (cases "generateAPIKey (dr_rand dr)")
  case (Inl e)
  with run show ?thesis by (auto simp: storeKey_def action_defs Let_def)
next
  case key: (Inr key)
  note defs = storeKey_def action_defs Let_def cid [symmetric]
  let ?info = "newKeyInfo m (dr_now dr) mn u d cid"
  obtain r3 s3 where
    u3: "tc_update (mgr_secrets m) (sec\<lparr>sec_data := AList.update cid key (sec_data sec)\<rparr>) s = (r3, s3)"
    by fastforce
  note v3 = put_secret [OF sec u3]
  show ?thesis
  proof (cases "\<exists>e. r3 = Inl e \<or> env_marshal env ?info = Inl e")
    case True
    with run v3 u3 key show ?thesis
      by (cases r3; cases "env_marshal env ?info") (auto simp: defs)
  next
    case False
    then obtain y0 js where ok: "r3 = Inr y0" "env_marshal env ?info = Inr js"
      by (cases r3; cases "env_marshal env ?info") auto
    obtain r4 s4 where
      u4: "tc_update (mgr_configmaps m) (cm\<lparr>cm_data := AList.update cid js (cm_data cm)\<rparr>) s3 = (r4, s4)"
      by fastforce
    have "viewM s3 (cmAt mn) = Some cm" using cm v3 by simp
    note v4 = put_configmap [OF this u4]
    have "r = (case r4 of Inl e \<Rightarrow> Inl (wrapErr (''updating ConfigMap for model '' @ mn) e)
        | Inr _ \<Rightarrow> Inr \<lparr>ckr_clientID = cid, ckr_apiKey = key\<rparr>) \<and> s' = s4"
      using run u3 u4 key ok by (auto simp: defs split: sum.splits)
    with v3 v4 ok key show ?thesis by (cases r4) auto
  qed
qed

lemma createKeyOnce_effect:
  assumes run: "createKeyOnce env m dr mn u d s = (r, s')"
  shows "(viewS s' = viewS s \<and> viewM s' = viewM s \<and> (\<exists>e. r = Inl e)) \<or>
    (\<exists>sec cm key y. viewS s (secAt mn) = Some sec \<and> viewM s (cmAt mn) = Some cm \<and>
      generateAPIKey (dr_rand dr) = Inr key \<and>
      sec_data y = AList.update (nextClientID env u mn sec cm) key (sec_data sec) \<and>
      viewS s' = (viewS s)(secAt mn \<mapsto> y) \<and>
      ((viewM s' = viewM s \<and> (\<exists>e. r = Inl e)) \<or>
       (\<exists>js z. env_marshal env (newKeyInfo m (dr_now dr) mn u d (nextClientID env u mn sec cm)) = Inr js \<and>
          cm_data z = AList.update (nextClientID env u mn sec cm) js (cm_data cm) \<and>
          viewM s' = (viewM s)(cmAt mn \<mapsto> z) \<and>
          ((\<exists>e. r = Inl e) \<or>
            r = Inr \<lparr>ckr_clientID = nextClientID env u mn sec cm, ckr_apiKey = key\<rparr>))))"
  using reads [OF run [unfolded createKeyOnce_def]]
proof (elim disjE exE conjE)
  fix sec cm s2
  assume sec: "viewS s (secAt mn) = Some sec" and cm: "viewM s (cmAt mn) = Some cm"
    and v: "viewS s2 = viewS s" "viewM s2 = viewM s"
    and run: "storeKey env m dr mn u d sec cm s2 = (r, s')"
  from v sec cm have "viewS s2 (secAt mn) = Some sec" "viewM s2 (cmAt mn) = Some cm" by simp_all
  from storeKey_effect [OF run this refl] sec cm v show ?thesis by simp
qed auto

text \<open>
  An attempt that fails at the metadata write has stored the credential, and the metadata at most
  when the write was carried out although it was answered with an error.
\<close>

abbreviation metadataFailed :: "string \<Rightarrow> gerror \<Rightarrow> gerror" where
  "metadataFailed mn e \<equiv> wrapErr (''updating ConfigMap for model '' @ mn) e"

lemma wrapped_text:
  "wrapErr a e = wrapErr b e' \<Longrightarrow> a @ '': '' @ errText e = b @ '': '' @ errText e'"
  "errorf t = wrapErr b e' \<Longrightarrow> t = b @ '': '' @ errText e'"
  by (metis wrapErr_simps(2), metis errorf_simps(2) wrapErr_simps(2))

lemma storeKey_unfinished:
  assumes run: "storeKey env m dr mn u d sec cm s = (Inl (metadataFailed mn e), s')"
    and sec: "viewS s (secAt mn) = Some sec" and cm: "viewM s (cmAt mn) = Some cm"
  shows "viewS s' \<noteq> viewS s"
proof -
  note defs = storeKey_def action_defs Let_def
  let ?cid = "nextClientID env u mn sec cm"
  obtain key where key: "generateAPIKey (dr_rand dr) = Inr key"
    using run by (cases "generateAPIKey (dr_rand dr)") (auto simp: defs dest!: wrapped_text)
  obtain r3 s3 where
    u3: "tc_update (mgr_secrets m) (sec\<lparr>sec_data := AList.update ?cid key (sec_data sec)\<rparr>) s = (r3, s3)"
    by fastforce
  obtain y0 where r3: "r3 = Inr y0" using run key u3 by (cases r3) (auto simp: defs dest!: wrapped_text)
  with put_secret [OF sec u3] obtain y where y: "sec_data y = AList.update ?cid key (sec_data sec)"
    "viewS s3 = (viewS s)(secAt mn \<mapsto> y)" "viewM s3 = viewM s" by auto
  obtain js where js: "env_marshal env (newKeyInfo m (dr_now dr) mn u d ?cid) = Inr js"
    using run key u3 r3 by (cases "env_marshal env (newKeyInfo m (dr_now dr) mn u d ?cid)") (auto simp: defs dest!: wrapped_text)
  obtain r4 s4 where
    u4: "tc_update (mgr_configmaps m) (cm\<lparr>cm_data := AList.update ?cid js (cm_data cm)\<rparr>) s3 = (r4, s4)"
    by fastforce
  have "viewM s3 (cmAt mn) = Some cm" using cm y by simp
  from put_configmap [OF this u4] have "viewS s4 = viewS s3" by simp
  moreover have "s' = s4" using run key u3 r3 js u4 by (auto simp: defs split: sum.splits)
  ultimately have "viewS s' (secAt mn) = Some y" using y by simp
  moreover have "y \<noteq> sec" using y(1) nextClientID_free(1) [of sec env u mn cm]
    by (metis fun_upd_same option.distinct(1) update_conv')
  ultimately show ?thesis using sec by auto
qed

lemma createKeyOnce_unfinished:
  assumes run: "createKeyOnce env m dr mn u d s = (Inl (metadataFailed mn e), s')"
  shows "viewS s' \<noteq> viewS s"
proof -
  obtain r1 s1 where g1: "getSecret m mn s = (r1, s1)" by fastforce
  obtain sec where 1: "r1 = Inr sec"
    using run g1 by (cases r1) (auto simp: createKeyOnce_def getSecret_def action_defs dest!: wrapped_text split: sum.splits prod.splits)
  obtain r2 s2 where g2: "getConfigMap m mn s1 = (r2, s2)" by fastforce
  obtain cm where 2: "r2 = Inr cm"
    using run g1 g2 1
    by (cases r2) (auto simp: createKeyOnce_def bindE_def getConfigMap_def wrapE_def dest!: wrapped_text split: sum.splits prod.splits)
  note v = getSecret_view [OF g1] getConfigMap_view [OF g2]
  have "storeKey env m dr mn u d sec cm s2 = (Inl (metadataFailed mn e), s')"
    using run g1 g2 1 2 by (simp add: createKeyOnce_def bindE_def)
  from storeKey_unfinished [OF this] v 1 2 show ?thesis by simp
qed

lemma createKeyOnce_grows:
  assumes "createKeyOnce env m dr mn u d s = (r, s')"
  shows "grows viewS viewM s s'"
  using createKeyOnce_effect [OF assms]
  by (elim disjE exE conjE)
    (auto simp: grows_def nextClientID_free map_le_fresh rel_option_reflI)

text \<open>What a successful attempt leaves behind.\<close>

definition stored :: "keyEnv \<Rightarrow> (nat \<Rightarrow> draw) \<Rightarrow> string \<Rightarrow> string \<Rightarrow> string \<Rightarrow> CreateKeyResult \<Rightarrow> 'k \<Rightarrow> 'k \<Rightarrow> bool" where
  "stored env draws mn u d res s s' \<longleftrightarrow>
     (\<exists>n sec sec' cm cm' js. generateAPIKey (dr_rand (draws n)) = Inr (ckr_apiKey res) \<and>
        env_marshal env (newKeyInfo m (dr_now (draws n)) mn u d (ckr_clientID res)) = Inr js \<and>
        viewS s (secAt mn) = Some sec \<and> map_of (sec_data sec) (ckr_clientID res) = None \<and>
        viewM s (cmAt mn) = Some cm \<and> map_of (cm_data cm) (ckr_clientID res) = None \<and>
        viewS s' (secAt mn) = Some sec' \<and> map_of (sec_data sec') (ckr_clientID res) = Some (ckr_apiKey res) \<and>
        viewM s' (cmAt mn) = Some cm' \<and> map_of (cm_data cm') (ckr_clientID res) = Some js)"

lemma createKeyOnce_stored:
  assumes "createKeyOnce env m (draws n) mn u d s = (Inr res, s')"
  shows "stored env draws mn u d res s s'"
  using createKeyOnce_effect [OF assms] unfolding stored_def
  by (elim disjE exE conjE) (auto simp: nextClientID_free, blast?)

lemma stored_mono:
  assumes "grows viewS viewM s t" and "stored env draws mn u d res t s'"
  shows "stored env draws mn u d res s s'"
  using assms(2) growsS_absent [OF assms(1)] growsM_absent [OF assms(1)]
  unfolding stored_def by metis

lemma createKeyAttempts_spec:
  "createKeyAttempts env m draws mn u d n s = (r, s') \<Longrightarrow>
     grows viewS viewM s s' \<and> (\<forall>res. r = Inr res \<longrightarrow> stored env draws mn u d res s s')"
proof (induction n arbitrary: s)
  case 0
  then show ?case by (auto intro: grows_refl)
next
  case (Suc n)
  obtain r1 t where once: "createKeyOnce env m (draws n) mn u d s = (r1, t)" by fastforce
  note g = createKeyOnce_grows [OF once]
  show ?case
  proof (cases r1)
    case (Inl e)
    show ?thesis
    proof (cases "isConflict e")
      case True
      with Suc.prems once Inl have "createKeyAttempts env m draws mn u d n t = (r, s')" by simp
      from Suc.IH [OF this] g show ?thesis by (blast intro: grows_trans stored_mono)
    next
      case False
      with Suc.prems once Inl g show ?thesis by auto
    qed
  next
    case (Inr res)
    with Suc.prems once have "r = Inr res" "s' = t" by auto
    with g once Inr show ?thesis by (auto intro: createKeyOnce_stored)
  qed
qed

lemma createKeyAttempts_unfinished:
  "createKeyAttempts env m draws mn u d n s = (Inl (metadataFailed mn e), s') \<Longrightarrow>
     \<exists>i t. i < n \<and> grows viewS viewM s t \<and> createKeyOnce env m (draws i) mn u d t = (Inl (metadataFailed mn e), s')"
proof (induction n arbitrary: s)
  case 0
  then show ?case by (auto dest!: wrapped_text)
next
  case (Suc n)
  obtain r1 t where once: "createKeyOnce env m (draws n) mn u d s = (r1, t)" by fastforce
  show ?case
  proof (cases "\<exists>e. r1 = Inl e \<and> isConflict e")
    case True
    with Suc.prems once have "createKeyAttempts env m draws mn u d n t = (Inl (metadataFailed mn e), s')" by auto
    from Suc.IH [OF this] createKeyOnce_grows [OF once] show ?thesis by (meson grows_trans less_SucI)
  next
    case False
    with Suc.prems once have "r1 = Inl (metadataFailed mn e)" "s' = t" by (cases r1; auto)+
    with once show ?thesis by (blast intro: grows_refl)
  qed
qed

text \<open>The credential a mint that fails at the metadata write leaves, in terms of its start.\<close>

lemma createKey_unfinished:
  assumes "createKey env m draws mn u d s = (Inl (metadataFailed mn e), s')"
  shows "\<exists>i j cid key sec sec' cm cm'. i < maxRetries \<and> generateAPIKey (dr_rand (draws i)) = Inr key \<and>
    cid = userPrefixFor (env_sha env) u mn @ itoa j \<and>
    viewS s (secAt mn) = Some sec \<and> map_of (sec_data sec) cid = None \<and>
    viewS s' (secAt mn) = Some sec' \<and> map_of (sec_data sec') cid = Some key \<and>
    viewM s (cmAt mn) = Some cm \<and> map_of (cm_data cm) cid = None \<and> viewM s' (cmAt mn) = Some cm' \<and>
    (map_of (cm_data cm') cid = None \<or>
     (\<exists>js. env_marshal env (newKeyInfo m (dr_now (draws i)) mn u d cid) = Inr js \<and> map_of (cm_data cm') cid = Some js))"
proof -
  from assms have "createKeyAttempts env m draws mn u d maxRetries s = (Inl (metadataFailed mn e), s')"
    by (auto simp: createKey_def dest!: wrapped_text split: if_splits)
  from createKeyAttempts_unfinished [OF this] obtain i t where i: "i < maxRetries" and g: "grows viewS viewM s t"
    and once: "createKeyOnce env m (draws i) mn u d t = (Inl (metadataFailed mn e), s')" by blast
  from createKeyOnce_effect [OF once] createKeyOnce_unfinished [OF once] obtain sec cm key y
    where t: "viewS t (secAt mn) = Some sec" "viewM t (cmAt mn) = Some cm"
      and key: "generateAPIKey (dr_rand (draws i)) = Inr key"
      and y: "sec_data y = AList.update (nextClientID env u mn sec cm) key (sec_data sec)" "viewS s' = (viewS t)(secAt mn \<mapsto> y)"
      and z: "viewM s' = viewM t \<or> (\<exists>js z. env_marshal env (newKeyInfo m (dr_now (draws i)) mn u d (nextClientID env u mn sec cm)) = Inr js \<and>
          cm_data z = AList.update (nextClientID env u mn sec cm) js (cm_data cm) \<and> viewM s' = (viewM t)(cmAt mn \<mapsto> z))"
    by blast
  let ?cid = "nextClientID env u mn sec cm"
  note free = nextClientID_free [where env = env and u = u and mn = mn and sec = sec and cm = cm]
  obtain sec0 where "viewS s (secAt mn) = Some sec0" "map_of (sec_data sec0) ?cid = None"
    using growsS_absent [OF g t(1) free(1)] by blast
  moreover obtain cm0 where "viewM s (cmAt mn) = Some cm0" "map_of (cm_data cm0) ?cid = None"
    using growsM_absent [OF g t(2) free(2)] by blast
  moreover have "\<exists>cm'. viewM s' (cmAt mn) = Some cm' \<and> (map_of (cm_data cm') ?cid = None \<or>
      (\<exists>js. env_marshal env (newKeyInfo m (dr_now (draws i)) mn u d ?cid) = Inr js \<and> map_of (cm_data cm') ?cid = Some js))"
    using z t(2) free(2) by auto
  moreover have "\<exists>j. ?cid = userPrefixFor (env_sha env) u mn @ itoa j" by (auto simp: nextClientID_def Let_def)
  moreover have "viewS s' (secAt mn) = Some y" "map_of (sec_data y) ?cid = Some key" using y by simp_all
  ultimately show ?thesis using i key by blast
qed

lemma createKey_spec:
  assumes "createKey env m draws mn u d s = (r, s')"
  shows "grows viewS viewM s s' \<and> (\<forall>res. r = Inr res \<longrightarrow> stored env draws mn u d res s s')"
  using assms createKeyAttempts_spec by (auto simp: createKey_def grows_refl split: if_splits)

end

section \<open>Revoking and listing\<close>

context key_stores
begin

lemma revokeKeyOnce_effect:
  assumes run: "revokeKeyOnce m mn cid s = (r, s')"
  shows "(viewS s' = viewS s \<and> viewM s' = viewM s \<and> (\<exists>e. r = Inl e)) \<or>
    (\<exists>sec cm y. viewS s (secAt mn) = Some sec \<and> viewM s (cmAt mn) = Some cm \<and>
      map_of (sec_data sec) cid \<noteq> None \<and> sec_data y = AList.delete cid (sec_data sec) \<and>
      viewS s' = (viewS s)(secAt mn \<mapsto> y) \<and>
      ((viewM s' = viewM s \<and> (\<exists>e. r = Inl e)) \<or>
       (\<exists>z. cm_data z = AList.delete cid (cm_data cm) \<and> viewM s' = (viewM s)(cmAt mn \<mapsto> z))))"
  using reads [OF run [unfolded revokeKeyOnce_def]]
proof (elim disjE exE conjE)
  fix sec cm s2
  assume sec: "viewS s (secAt mn) = Some sec" and cm: "viewM s (cmAt mn) = Some cm"
    and v: "viewS s2 = viewS s" "viewM s2 = viewM s"
    and run: "(if map_of (sec_data sec) cid = None
      then throwE (errorf (''key '' @ quote cid @ '' not found for model '' @ mn))
      else bindE (wrapE (''updating Secret for model '' @ mn) (tc_update (mgr_secrets m)
             (sec\<lparr>sec_data := AList.delete cid (sec_data sec)\<rparr>))) (\<lambda>_.
           bindE (wrapE (''updating ConfigMap for model '' @ mn) (tc_update (mgr_configmaps m)
             (cm\<lparr>cm_data := AList.delete cid (cm_data cm)\<rparr>))) (\<lambda>_. returnE ()))) s2 = (r, s')"
  obtain r3 s3 where
    u3: "tc_update (mgr_secrets m) (sec\<lparr>sec_data := AList.delete cid (sec_data sec)\<rparr>) s2 = (r3, s3)"
    by fastforce
  obtain r4 s4 where
    u4: "tc_update (mgr_configmaps m) (cm\<lparr>cm_data := AList.delete cid (cm_data cm)\<rparr>) s3 = (r4, s4)"
    by fastforce
  from v sec have "viewS s2 (secAt mn) = Some sec" by simp
  note v3 = put_secret [OF this u3]
  from v v3 cm have "viewM s3 (cmAt mn) = Some cm" by simp
  note v4 = put_configmap [OF this u4]
  show ?thesis
  proof (cases "map_of (sec_data sec) cid = None")
    case True
    with run v show ?thesis by (auto simp: throwE_def)
  next
    case False
    with run u3 u4 v v3 v4 sec cm show ?thesis
      by (cases r3; cases r4) (auto simp: action_defs)
  qed
qed auto

lemma agree_delete:
  assumes "viewS s (secAt mn) = Some sec" and "sec_data y = AList.delete cid (sec_data sec)"
  shows "agreeS (viewS s) ((viewS s)(secAt mn \<mapsto> y)) (secAt mn) cid"
  using assms by (auto simp: agreeS_def)

lemma agree_deleteM:
  assumes "viewM s (cmAt mn) = Some cm" and "cm_data z = AList.delete cid (cm_data cm)"
  shows "agreeM (viewM s) ((viewM s)(cmAt mn \<mapsto> z)) (cmAt mn) cid"
  using assms by (auto simp: agreeM_def)

definition gone :: "string \<Rightarrow> string \<Rightarrow> 'k \<Rightarrow> bool" where
  "gone mn cid s \<longleftrightarrow>
     (\<exists>sec cm. viewS s (secAt mn) = Some sec \<and> map_of (sec_data sec) cid = None \<and>
        viewM s (cmAt mn) = Some cm \<and> map_of (cm_data cm) cid = None)"

lemma revokeKeyOnce_spec:
  assumes "revokeKeyOnce m mn cid s = (r, s')"
  shows "agreeS (viewS s) (viewS s') (secAt mn) cid \<and> agreeM (viewM s) (viewM s') (cmAt mn) cid \<and>
    (r = Inr () \<longrightarrow> gone mn cid s')"
  using revokeKeyOnce_effect [OF assms]
  by (elim disjE exE conjE) (auto simp: agree_refl agree_delete agree_deleteM gone_def)

lemma revokeKeyAttempts_spec:
  "revokeKeyAttempts m mn cid n s = (r, s') \<Longrightarrow>
     agreeS (viewS s) (viewS s') (secAt mn) cid \<and> agreeM (viewM s) (viewM s') (cmAt mn) cid \<and>
     (r = Inr () \<longrightarrow> gone mn cid s')"
proof (induction n arbitrary: s)
  case 0
  then show ?case by (auto simp: agree_refl)
next
  case (Suc n)
  obtain r1 t where once: "revokeKeyOnce m mn cid s = (r1, t)" by fastforce
  note one = revokeKeyOnce_spec [OF once]
  show ?case
  proof (cases "\<exists>e. r1 = Inl e \<and> isConflict e")
    case True
    with Suc.prems once have "revokeKeyAttempts m mn cid n t = (r, s')" by auto
    from Suc.IH [OF this] one show ?thesis by (meson agree_trans)
  next
    case False
    with Suc.prems once have "r = r1" "s' = t" by (cases r1; auto)+
    with one show ?thesis by simp
  qed
qed

text \<open>Listing returns the parsable entries of the ConfigMap.\<close>

lemma listKeys_spec:
  assumes "listKeys env m mn s = (Inr infos, s')"
  shows "viewS s' = viewS s \<and> viewM s' = viewM s \<and>
    (\<exists>cm. viewM s (cmAt mn) = Some cm \<and>
      set infos = {i. \<exists>k v. (k, v) \<in> set (cm_data cm) \<and> env_unmarshal env v = Some i})"
proof -
  from assms obtain cm t where g: "getConfigMap m mn s = (Inr cm, t)"
    and rest: "infos = parseConfigMapKeys env cm" "s' = t"
    by (auto simp: listKeys_def bindE_Inr returnE_eq)
  have "set (parseConfigMapKeys env cm) =
      {i. \<exists>k v. (k, v) \<in> set (cm_data cm) \<and> env_unmarshal env v = Some i}"
    by (force simp: parseConfigMapKeys_def List.map_filter_def)
  with getConfigMap_view [OF g] rest show ?thesis by simp
qed

lemma set_parse: "set (parseConfigMapKeys env cm) =
    {i. \<exists>k v. (k, v) \<in> set (cm_data cm) \<and> env_unmarshal env v = Some i}"
  by (force simp: parseConfigMapKeys_def List.map_filter_def)

lemma listKeysForUser_spec:
  assumes "listKeysForUser env m u s = (Inr infos, s')"
  shows "set infos = {i. ki_creator i = u \<and> (\<exists>n cm k v. viewM s n = Some cm \<and>
      inNamespace (mgr_namespace m) (cm_meta cm) \<and> isMetadataConfigMap cm \<and>
      (k, v) \<in> set (cm_data cm) \<and> env_unmarshal env v = Some i)}"
proof -
  from assms obtain cms where l: "tc_list (mgr_configmaps m) (mgr_namespace m) [] s = (Inr cms, s')"
    and infos: "infos = concat (map (\<lambda>cm. if isMetadataConfigMap cm
          then filter (\<lambda>info. ki_creator info = u) (parseConfigMapKeys env cm) else []) cms)"
    by (auto simp: listKeysForUser_def bindE_Inr wrapE_Inr returnE_eq)
  from B.list_ok [OF l] have "set cms = {cm. \<exists>n. viewM s n = Some cm \<and>
      inNamespace (mgr_namespace m) (cm_meta cm)}"
    by (simp add: matchesLabels_def del: split_paired_Ex)
  then show ?thesis
    by (auto simp: infos set_parse simp del: split_paired_Ex)
qed

text \<open>Without its Secret entry a key cannot be revoked, and its metadata stays.\<close>

lemma revokeKeyAttempts_missing:
  "viewS s (secAt mn) = Some sec \<Longrightarrow> map_of (sec_data sec) cid = None \<Longrightarrow>
   revokeKeyAttempts m mn cid n s = (r, s') \<Longrightarrow>
     (\<exists>e. r = Inl e) \<and> viewS s' = viewS s \<and> viewM s' = viewM s"
proof (induction n arbitrary: s)
  case 0
  then show ?case by auto
next
  case (Suc n)
  obtain r1 t where once: "revokeKeyOnce m mn cid s = (r1, t)" by fastforce
  from revokeKeyOnce_effect [OF once] Suc.prems(1,2)
  have t: "viewS t = viewS s" "viewM t = viewM s" and "\<exists>e. r1 = Inl e" by auto
  then obtain e where "r1 = Inl e" by blast
  with Suc.prems once t Suc.IH [of t] show ?case by (auto split: if_splits)
qed

end

section \<open>The reference server\<close>

definition serverManager :: "cluster Manager" where
  "serverManager = \<lparr>mgr_secrets = secretClient, mgr_configmaps = configmapClient,
     mgr_namespace = ''llm''\<rparr>"

interpretation server: key_stores serverManager secretsAt configmapsAt
proof -
  have "kube_two (mgr_secrets serverManager) secretsAt sec_meta secretContent
      (mgr_configmaps serverManager) configmapsAt cm_meta configmapContent"
    by (simp add: serverManager_def keys.kube_two_axioms)
  then show "key_stores serverManager secretsAt configmapsAt" by (rule key_stores.intro)
qed

text \<open>
  The instance the closed theorems run on: a server with the Secret and the ConfigMap of one
  model, a short digest in place of SHA-256, and a codec that writes the creator only.
\<close>

definition sampleSha :: "bytes \<Rightarrow> bytes" where
  "sampleSha b = take 32 (b @ replicate 32 (char_of (0 :: nat)))"

definition sampleKeyEnv :: keyEnv where
  "sampleKeyEnv = \<lparr>env_sha = sampleSha, env_marshal = (\<lambda>i. Inr (ki_creator i)),
     env_unmarshal = (\<lambda>t. Some \<lparr>ki_clientID = [], ki_creator = t, ki_description = [],
       ki_createdAt = 0, ki_modelName = [], ki_namespace = []\<rparr>)\<rparr>"

definition sampleDraws :: "nat \<Rightarrow> draw" where
  "sampleDraws n = \<lparr>dr_rand = Inr ''abcdefghijklmnopqrstuvwx'', dr_now = 0\<rparr>"

definition sampleSecret :: "bytes gomap \<Rightarrow> secret" where
  "sampleSecret d = \<lparr>sec_meta = newMeta ''m-api-keys'' ''llm'' [], sec_type = ''Opaque'', sec_data = d\<rparr>"

definition sampleConfigMap :: "string gomap \<Rightarrow> configmap" where
  "sampleConfigMap d = \<lparr>cm_meta = newMeta ''m-api-key-metadata'' ''llm'' [(metadataLabel, ''m'')],
     cm_data = d\<rparr>"

definition sampleCluster :: "fault list \<Rightarrow> bytes gomap \<Rightarrow> string gomap \<Rightarrow> cluster" where
  "sampleCluster script sd cd = emptyCluster\<lparr>
     cl_secrets := [((''llm'', ''m-api-keys''), sampleSecret sd)],
     cl_configmaps := [((''llm'', ''m-api-key-metadata''), sampleConfigMap cd)],
     cl_script := script\<rparr>"

section \<open>Properties\<close>

definition lostStart :: cluster where
  "lostStart = sampleCluster [Healthy, Healthy, Lose ''409 conflict''] [(''k'', ''v'')] [(''k'', ''j'')]"

definition lostRun :: "(gerror + CreateKeyResult) \<times> cluster" where
  "lostRun = createKey sampleKeyEnv serverManager sampleDraws ''m'' ''alice'' ''d'' lostStart"

lemma lostRun_value:
  "fst lostRun = Inr \<lparr>ckr_clientID = ''user-alice-m-616c696365006d000000000000000000-2'',
     ckr_apiKey = ''sk-YWJjZGVmZ2hpamtsbW5vcHFyc3R1dnd4''\<rparr>"
  by code_simp

text \<open>C10: minting never removes or changes a credential or a metadata entry of any model,
  whatever fails on the way, conflicts and lost responses included.\<close>

theorem createKey_keeps_all_keys:
  assumes "key_stores m vS vM"
    and "createKey env m draws mn u d s = (r, s')"
  shows "grows vS vM s s'"
  using key_stores.createKey_spec [OF assms] by blast

theorem createKey_keeps_all_keys_witness:
  "fst lostRun = Inr \<lparr>ckr_clientID = ''user-alice-m-616c696365006d000000000000000000-2'',
     ckr_apiKey = ''sk-YWJjZGVmZ2hpamtsbW5vcHFyc3R1dnd4''\<rparr> \<and>
   grows secretsAt configmapsAt lostStart (snd lostRun)"
  using createKey_keeps_all_keys [OF server.key_stores_axioms, of sampleKeyEnv sampleDraws "''m''"
      "''alice''" "''d''" lostStart "fst lostRun" "snd lostRun"] lostRun_value
  by (simp add: lostRun_def)

definition healthyStart :: cluster where
  "healthyStart = sampleCluster [] [(''k'', ''v'')] [(''k'', ''j'')]"

definition healthyRun :: "(gerror + CreateKeyResult) \<times> cluster" where
  "healthyRun = createKey sampleKeyEnv serverManager sampleDraws ''m'' ''alice'' ''d'' healthyStart"

lemma healthyRun_value:
  "fst healthyRun = Inr \<lparr>ckr_clientID = ''user-alice-m-616c696365006d000000000000000000-1'',
     ckr_apiKey = ''sk-YWJjZGVmZ2hpamtsbW5vcHFyc3R1dnd4''\<rparr>"
  by code_simp

text \<open>C11: a successful mint returns a client ID that was unused in both maps, and afterwards the
  Secret holds the key under it and the ConfigMap holds its metadata, so the key both
  authenticates and is listed.\<close>

theorem createKey_stores_fresh_key:
  assumes "key_stores m vS vM"
    and "createKey env m draws mn u d s = (Inr res, s')"
  shows "\<exists>n sec sec' cm cm' js. generateAPIKey (dr_rand (draws n)) = Inr (ckr_apiKey res) \<and>
     env_marshal env (newKeyInfo m (dr_now (draws n)) mn u d (ckr_clientID res)) = Inr js \<and>
     vS s (mgr_namespace m, secretName mn) = Some sec \<and>
     map_of (sec_data sec) (ckr_clientID res) = None \<and>
     vM s (mgr_namespace m, configMapName mn) = Some cm \<and>
     map_of (cm_data cm) (ckr_clientID res) = None \<and>
     vS s' (mgr_namespace m, secretName mn) = Some sec' \<and>
     map_of (sec_data sec') (ckr_clientID res) = Some (ckr_apiKey res) \<and>
     vM s' (mgr_namespace m, configMapName mn) = Some cm' \<and>
     map_of (cm_data cm') (ckr_clientID res) = Some js"
  using key_stores.createKey_spec [OF assms] key_stores.stored_def [OF assms(1)] by auto

theorem createKey_stores_fresh_key_witness:
  "\<exists>sec'. secretsAt (snd healthyRun) (''llm'', ''m-api-keys'') = Some sec' \<and>
     map_of (sec_data sec') ''user-alice-m-616c696365006d000000000000000000-1'' =
       Some ''sk-YWJjZGVmZ2hpamtsbW5vcHFyc3R1dnd4''"
proof -
  let ?res = "\<lparr>ckr_clientID = ''user-alice-m-616c696365006d000000000000000000-1'',
     ckr_apiKey = ''sk-YWJjZGVmZ2hpamtsbW5vcHFyc3R1dnd4''\<rparr>"
  have "createKey sampleKeyEnv serverManager sampleDraws ''m'' ''alice'' ''d'' healthyStart =
      (Inr ?res, snd healthyRun)"
    using healthyRun_value by (metis healthyRun_def prod.collapse)
  from createKey_stores_fresh_key [OF server.key_stores_axioms this] show ?thesis
    by (auto simp: serverManager_def secretName_def)
qed

text \<open>C30: a client ID is a valid key of a Secret and of a ConfigMap, and two requests for a
  different user or model get different client IDs as soon as the digests of their user-model
  pairs differ, whatever the sanitised names look like.\<close>

theorem clientIDs_valid_and_separate:
  "isValidDataKeyName (nextClientID env u mn sec cm) \<and>
   (shortHash (env_sha env) [u, mn] = shortHash (env_sha env) [u', mn'] \<or>
    nextClientID env u mn sec cm \<noteq> nextClientID env u' mn' sec' cm')"
  by (auto simp: nextClientID_def Let_def clientID_eq isValidDataKeyName_def userPrefix_valid itoa_valid)

lemma sampleHashes_differ:
  "shortHash (env_sha sampleKeyEnv) [''a@b'', ''m''] \<noteq> shortHash (env_sha sampleKeyEnv) [''a-at-b'', ''m'']"
  by code_simp

theorem clientIDs_valid_and_separate_witness:
  "nextClientID sampleKeyEnv ''a@b'' ''m'' (sampleSecret []) (sampleConfigMap []) \<noteq>
   nextClientID sampleKeyEnv ''a-at-b'' ''m'' (sampleSecret []) (sampleConfigMap [])"
  using clientIDs_valid_and_separate [of sampleKeyEnv "''a@b''" "''m''" "sampleSecret []" "sampleConfigMap []"
      "''a-at-b''" "''m''" "sampleSecret []" "sampleConfigMap []"] sampleHashes_differ by simp

text \<open>C12: revoking touches only the entries of the named client ID of the named model, and when
  it reports success the credential and its metadata are both gone.\<close>

theorem revokeKey_removes_exactly:
  assumes "key_stores m vS vM"
    and "revokeKey m mn cid s = (r, s')"
  shows "agreeS (vS s) (vS s') (mgr_namespace m, secretName mn) cid \<and>
     agreeM (vM s) (vM s') (mgr_namespace m, configMapName mn) cid \<and>
     (r = Inr () \<longrightarrow> (\<exists>sec cm. vS s' (mgr_namespace m, secretName mn) = Some sec \<and>
        map_of (sec_data sec) cid = None \<and>
        vM s' (mgr_namespace m, configMapName mn) = Some cm \<and> map_of (cm_data cm) cid = None))"
  using key_stores.revokeKeyAttempts_spec [OF assms(1) assms(2) [unfolded revokeKey_def]]
    key_stores.gone_def [OF assms(1)] by auto

definition revokeRun :: "(gerror + unit) \<times> cluster" where
  "revokeRun = revokeKey serverManager ''m'' ''k'' healthyStart"

lemma revokeRun_value: "fst revokeRun = Inr ()"
  by code_simp

theorem revokeKey_removes_exactly_witness:
  "\<exists>sec cm. secretsAt (snd revokeRun) (''llm'', ''m-api-keys'') = Some sec \<and>
     map_of (sec_data sec) ''k'' = None \<and>
     configmapsAt (snd revokeRun) (''llm'', ''m-api-key-metadata'') = Some cm \<and>
     map_of (cm_data cm) ''k'' = None"
proof -
  have "revokeKey serverManager ''m'' ''k'' healthyStart = (Inr (), snd revokeRun)"
    using revokeRun_value by (metis revokeRun_def prod.collapse)
  from revokeKey_removes_exactly [OF server.key_stores_axioms this] show ?thesis
    by (auto simp: serverManager_def secretName_def configMapName_def)
qed

text \<open>Sanitising yields a valid key of a Secret for every non-empty name, but it maps the
  sanitised form of a name to itself: a user whose name is another user's sanitised name gets
  the same sanitised name, although the comment of the function says that distinct names never
  collide.\<close>

theorem sanitize_valid_and_idempotent:
  "isValidDataKeyName (sanitizeUsernameForKey sha u) = (u \<noteq> []) \<and>
   sanitizeUsernameForKey sha (sanitizeUsernameForKey sha u) = sanitizeUsernameForKey sha u"
proof (cases "u = []")
  case True
  then show ?thesis by (simp add: sanitizeUsernameForKey_def isValidDataKeyName_def)
next
  case False
  then show ?thesis by (simp add: sanitize_valid_name sanitize_id)
qed

text \<open>C31: the probe for a free sequence number ends on the least number, from the start on,
  that is free in both maps, and skips at most as many numbers as the maps have entries.\<close>

theorem probe_finds_least_free:
  "map_of sd (pre @ itoa (nextSequence sd cd pre n)) = None \<and>
   map_of cd (pre @ itoa (nextSequence sd cd pre n)) = None \<and>
   n \<le> nextSequence sd cd pre n \<and> nextSequence sd cd pre n \<le> n + length sd + length cd \<and>
   filter (\<lambda>i. \<not> taken sd cd pre i) [n..<nextSequence sd cd pre n] = []"
  using nextSequence_free nextSequence_bound nextSequence_least [of n sd cd pre]
  by (auto simp: filter_empty_conv)

text \<open>An API key is \<open>sk-\<close> and 32 characters, and keys made from different random bytes
  differ.\<close>

theorem apiKey_shape_and_injective:
  assumes "length b = 24" and "length b' = 24"
  shows "\<exists>k. generateAPIKey (Inr b) = Inr k \<and> hasPrefix k ''sk-'' \<and> length k = 35 \<and>
    (generateAPIKey (Inr b') = Inr k \<longleftrightarrow> b' = b)"
  using assms by (auto simp: generateAPIKey_def length_rawURLEncode rawURLEncode_inj hasPrefix_def)

theorem apiKey_shape_and_injective_witness:
  "generateAPIKey (Inr ''abcdefghijklmnopqrstuvwx'') \<noteq> generateAPIKey (Inr ''abcdefghijklmnopqrstuvwy'')"
  using apiKey_shape_and_injective [of "''abcdefghijklmnopqrstuvwx''" "''abcdefghijklmnopqrstuvwy''"]
  by auto

text \<open>Listing a user's keys returns the metadata entries of that user in the metadata
  ConfigMaps of the manager's namespace, all of them and nothing else.\<close>

theorem listKeysForUser_exact:
  assumes "key_stores m vS vM"
    and "listKeysForUser env m u s = (Inr infos, s')"
  shows "set infos = {i. ki_creator i = u \<and> (\<exists>n cm k v. vM s n = Some cm \<and>
      inNamespace (mgr_namespace m) (cm_meta cm) \<and> isMetadataConfigMap cm \<and>
      (k, v) \<in> set (cm_data cm) \<and> env_unmarshal env v = Some i)}"
  by (rule key_stores.listKeysForUser_spec [OF assms])

definition aliceInfo :: KeyInfo where
  "aliceInfo = \<lparr>ki_clientID = [], ki_creator = ''alice'', ki_description = [], ki_createdAt = 0,
     ki_modelName = [], ki_namespace = []\<rparr>"

lemma listing_value: "fst (listKeysForUser sampleKeyEnv serverManager ''alice''
    (sampleCluster [] [] [(''a'', ''alice''), (''b'', ''bob'')])) = Inr [aliceInfo]"
  by code_simp

theorem listKeysForUser_exact_witness:
  "\<exists>n cm k v. configmapsAt (sampleCluster [] [] [(''a'', ''alice''), (''b'', ''bob'')]) n = Some cm \<and>
     isMetadataConfigMap cm \<and> (k, v) \<in> set (cm_data cm) \<and>
     env_unmarshal sampleKeyEnv v = Some aliceInfo"
proof -
  let ?s = "sampleCluster [] [] [(''a'', ''alice''), (''b'', ''bob'')]"
  have "listKeysForUser sampleKeyEnv serverManager ''alice'' ?s =
      (Inr [aliceInfo], snd (listKeysForUser sampleKeyEnv serverManager ''alice'' ?s))"
    using listing_value by (metis prod.collapse)
  from listKeysForUser_exact [OF server.key_stores_axioms this]
  have "aliceInfo \<in> {i. ki_creator i = ''alice'' \<and> (\<exists>n cm k v. configmapsAt ?s n = Some cm \<and>
      inNamespace (mgr_namespace serverManager) (cm_meta cm) \<and> isMetadataConfigMap cm \<and>
      (k, v) \<in> set (cm_data cm) \<and> env_unmarshal sampleKeyEnv v = Some i)}"
    by (metis list.set_intros(1))
  then show ?thesis by blast
qed

section \<open>What the retry loop does with a real conflict\<close>

text \<open>A text without the byte \<open>c\<close> occurs in a concatenation around \<open>c\<close> only in one of its parts.\<close>

lemma contains_around:
  assumes "c \<notin> set w" and "w \<noteq> []"
  shows "contains (xs @ c # ys) w \<longleftrightarrow> contains xs w \<or> contains ys w"
proof
  assume "contains (xs @ c # ys) w"
  then obtain a b where "xs @ c # ys = a @ (w @ b)" by (auto simp: contains_iff)
  then consider us where "xs = a @ us" "us @ c # ys = w @ b" | us where "a = xs @ us" "c # ys = us @ w @ b"
    by (auto simp: append_eq_append_conv2)
  then show "contains xs w \<or> contains ys w"
  proof cases
    case 1
    then consider vs where "us = w @ vs" | vs where "w = us @ vs" "c # ys = vs @ b"
      by (auto simp: append_eq_append_conv2)
    then show ?thesis
    proof cases
      case 1
      with \<open>xs = a @ us\<close> show ?thesis by (auto simp: contains_iff)
    next
      case 2
      with assms(1) have "vs = []" by (cases vs) auto
      with 2 \<open>xs = a @ us\<close> have "xs = a @ w @ []" by simp
      then show ?thesis unfolding contains_iff by blast
    qed
  next
    case 2
    with assms show ?thesis by (cases us; cases w) (auto simp: contains_iff)
  qed
next
  assume "contains xs w \<or> contains ys w"
  then show "contains (xs @ c # ys) w"
  proof
    assume "contains xs w"
    then obtain a b where "xs = a @ w @ b" by (auto simp: contains_iff)
    then have "xs @ c # ys = a @ w @ (b @ c # ys)" by simp
    then show ?thesis unfolding contains_iff by blast
  next
    assume "contains ys w"
    then obtain a b where "ys = a @ w @ b" by (auto simp: contains_iff)
    then have "xs @ c # ys = (xs @ c # a) @ w @ b" by simp
    then show ?thesis unfolding contains_iff by blast
  qed
qed

lemma quote_plain:
  assumes "list_all isValidDataKeyByte s"
  shows "quote s = char_of (34 :: nat) # s @ [char_of (34 :: nat)]"
proof -
  have byte: "quoteByte c = [c]" if "isValidDataKeyByte c" for c
  proof -
    have "of_char c = (34::nat) \<or> of_char c = (92::nat) \<or> of_char c < (32::nat) \<or> of_char c = (127::nat)
       \<Longrightarrow> \<not> isValidDataKeyByte c"
      by (auto simp: isValidDataKeyByte_def char_class_defs less_eq_char_def)
    then show ?thesis using that by (auto simp: quoteByte_def Let_def)
  qed
  from assms have "concat (map quoteByte s) = s"
    by (induction s) (auto simp: byte)
  then show ?thesis by (simp add: quote_def)
qed

text \<open>
  The conflicts the two writes can meet, in the words of the API server, wrapped as the manager
  wraps them: the model's name is the only part of them in which the retry test can find its words.
\<close>

definition writeConflicts :: "string \<Rightarrow> gerror set" where
  "writeConflicts mn =
     {wrapErr (''updating Secret for model '' @ mn) (conflictError ''secrets'' (secretName mn)),
      wrapErr (''updating ConfigMap for model '' @ mn) (conflictError ''configmaps'' (configMapName mn))}"

definition mentionsConflict :: "string \<Rightarrow> bool" where
  "mentionsConflict t \<longleftrightarrow> contains t ''conflict'' \<or> contains t ''409''"

lemma mentions_around:
  "c \<notin> set ''conflict409'' \<Longrightarrow> mentionsConflict (xs @ c # ys) \<longleftrightarrow> mentionsConflict xs \<or> mentionsConflict ys"
  unfolding mentionsConflict_def
  using contains_around [of c "''conflict''" xs ys] contains_around [of c "''409''" xs ys] by auto

lemma mentions_parts:
  "mentionsConflict (a @ CHR '' '' # mn @ CHR '':'' # b @ CHR '' '' # [] @ CHR 0x22 # mn @ CHR ''-'' # c @ CHR 0x22 # d) \<longleftrightarrow>
     mentionsConflict a \<or> mentionsConflict mn \<or> mentionsConflict b \<or> mentionsConflict c \<or> mentionsConflict d"
proof -
  have around: "mentionsConflict (xs @ CHR '' '' # ys) \<longleftrightarrow> mentionsConflict xs \<or> mentionsConflict ys"
    "mentionsConflict (xs @ CHR '':'' # ys) \<longleftrightarrow> mentionsConflict xs \<or> mentionsConflict ys"
    "mentionsConflict (xs @ CHR ''-'' # ys) \<longleftrightarrow> mentionsConflict xs \<or> mentionsConflict ys"
    "mentionsConflict (xs @ CHR 0x22 # ys) \<longleftrightarrow> mentionsConflict xs \<or> mentionsConflict ys" for xs ys
    by (rule mentions_around; simp)+
  have "\<not> mentionsConflict []" by code_simp
  then show ?thesis unfolding around by blast
qed

lemma conflict_text:
  assumes "list_all isValidDataKeyByte mn" and "list_all isValidDataKeyByte (CHR ''-'' # sfx)"
  shows "errText (wrapErr (verb @ '' for model '' @ mn) (conflictError kind (mn @ CHR ''-'' # sfx))) =
    (verb @ '' for model'') @ CHR '' '' # mn @ CHR '':'' # ('' Operation cannot be fulfilled on '' @ kind) @
    CHR '' '' # [] @ CHR 0x22 # mn @ CHR ''-'' # sfx @
    CHR 0x22 # '': the object has been modified; please apply your changes to the latest version and try again''"
proof -
  have q: "char_of (34 :: nat) = CHR 0x22" by code_simp
  have "list_all isValidDataKeyByte (mn @ CHR ''-'' # sfx)" using assms by simp
  from quote_plain [OF this] show ?thesis by (simp add: conflictError_def q)
qed

lemma conflict_parts:
  assumes "list_all isValidDataKeyByte mn" and "list_all isValidDataKeyByte (CHR ''-'' # sfx)"
    and "\<not> mentionsConflict (verb @ '' for model'')" and "\<not> mentionsConflict ('' Operation cannot be fulfilled on '' @ kind)"
    and "\<not> mentionsConflict sfx"
  shows "mentionsConflict (errText (wrapErr (verb @ '' for model '' @ mn) (conflictError kind (mn @ CHR ''-'' # sfx)))) \<longleftrightarrow>
    mentionsConflict mn"
proof -
  have "\<not> mentionsConflict
    '': the object has been modified; please apply your changes to the latest version and try again''"
    by code_simp
  with assms(3-5) show ?thesis unfolding conflict_text [OF assms(1,2)] mentions_parts by blast
qed

lemma conflict_recognised:
  assumes "list_all isValidDataKeyByte mn" and "e \<in> writeConflicts mn"
  shows "isConflict e \<longleftrightarrow> contains mn ''conflict'' \<or> contains mn ''409''"
proof -
  have v: "list_all isValidDataKeyByte ''-api-keys''" "list_all isValidDataKeyByte ''-api-key-metadata''"
    by code_simp+
  have plain: "\<not> mentionsConflict (''updating Secret'' @ '' for model'')" "\<not> mentionsConflict ''api-keys''"
    "\<not> mentionsConflict (''updating ConfigMap'' @ '' for model'')" "\<not> mentionsConflict ''api-key-metadata''"
    "\<not> mentionsConflict ('' Operation cannot be fulfilled on '' @ ''secrets'')"
    "\<not> mentionsConflict ('' Operation cannot be fulfilled on '' @ ''configmaps'')"
    by code_simp+
  have "mentionsConflict (errText e) \<longleftrightarrow> mentionsConflict mn"
    using assms(2) conflict_parts [OF assms(1) v(1) plain(1,5,2)] conflict_parts [OF assms(1) v(2) plain(3,6,4)]
    by (auto simp: writeConflicts_def secretName_def configMapName_def)
  then show ?thesis by (simp add: isConflict_def mentionsConflict_def)
qed

text \<open>C32: a write conflict of the API server is retried or not by the name of the model: neither
  \<open>createKey\<close> nor \<open>revokeKey\<close> recognises the words the API server uses for it, so the conflict of the
  first attempt, at either write, is what they return, without a retry; only for a model whose own
  name contains \<open>conflict\<close> or \<open>409\<close> do they try again.\<close>

theorem createKey_gives_up_on_conflict:
  assumes "list_all isValidDataKeyByte mn" and "u \<noteq> []" and "e \<in> writeConflicts mn"
  shows "(createKeyOnce env m (draws (maxRetries - 1)) mn u d s = (Inl e, s1) \<longrightarrow>
      createKey env m draws mn u d s =
        (if contains mn ''conflict'' \<or> contains mn ''409''
         then createKeyAttempts env m draws mn u d (maxRetries - 1) s1 else (Inl e, s1))) \<and>
    (revokeKeyOnce m mn cid t = (Inl e, t1) \<longrightarrow>
      revokeKey m mn cid t =
        (if contains mn ''conflict'' \<or> contains mn ''409''
         then revokeKeyAttempts m mn cid (maxRetries - 1) t1 else (Inl e, t1)))"
  using assms(2) conflict_recognised [OF assms(1,3)]
  by (simp add: createKey_def revokeKey_def maxRetries_def numeral_3_eq_3 numeral_2_eq_2)

definition staleStart :: cluster where
  "staleStart = sampleCluster [Healthy, Healthy, Stale] [(''k'', ''v'')] [(''k'', ''j'')]"

definition staleError :: gerror where
  "staleError = wrapErr (''updating Secret for model '' @ ''m'') (conflictError ''secrets'' (secretName ''m''))"

lemma stale_value:
  "fst (createKeyOnce sampleKeyEnv serverManager (sampleDraws (maxRetries - 1)) ''m'' ''alice'' ''d'' staleStart) =
     Inl staleError"
  "fst (revokeKeyOnce serverManager ''m'' ''k'' staleStart) = Inl staleError"
  by code_simp+

theorem createKey_gives_up_on_conflict_witness:
  "fst (createKey sampleKeyEnv serverManager sampleDraws ''m'' ''alice'' ''d'' staleStart) = Inl staleError \<and>
   fst (revokeKey serverManager ''m'' ''k'' staleStart) = Inl staleError"
proof -
  have v: "list_all isValidDataKeyByte ''m''" "\<not> contains ''m'' ''conflict''" "\<not> contains ''m'' ''409''"
    by code_simp+
  have e: "staleError \<in> writeConflicts ''m''" by (simp add: staleError_def writeConflicts_def)
  obtain s1 where c: "createKeyOnce sampleKeyEnv serverManager (sampleDraws (maxRetries - 1)) ''m'' ''alice'' ''d'' staleStart =
      (Inl staleError, s1)" using stale_value(1) by (metis prod.collapse)
  obtain t1 where r: "revokeKeyOnce serverManager ''m'' ''k'' staleStart = (Inl staleError, t1)"
    using stale_value(2) by (metis prod.collapse)
  from createKey_gives_up_on_conflict [where draws = sampleDraws, OF v(1) _ e] c r v(2,3) show ?thesis by fastforce
qed

text \<open>C33: a mint that fails at the metadata write leaves the credential it has just made: a client ID
  that was in neither object holds, in the Secret the gateway reads, the key generated by that
  attempt, although the caller only gets the error; its metadata entry is missing, or it is there
  because the failed write was carried out all the same.\<close>

theorem failed_mint_leaves_credential:
  assumes "key_stores m vS vM"
    and "createKey env m draws mn u d s = (Inl (wrapErr (''updating ConfigMap for model '' @ mn) e), s')"
  shows "\<exists>i j cid key sec sec' cm cm'. i < maxRetries \<and> generateAPIKey (dr_rand (draws i)) = Inr key \<and>
    cid = userPrefixFor (env_sha env) u mn @ itoa j \<and>
    vS s (mgr_namespace m, secretName mn) = Some sec \<and> map_of (sec_data sec) cid = None \<and>
    vS s' (mgr_namespace m, secretName mn) = Some sec' \<and> map_of (sec_data sec') cid = Some key \<and>
    vM s (mgr_namespace m, configMapName mn) = Some cm \<and> map_of (cm_data cm) cid = None \<and>
    vM s' (mgr_namespace m, configMapName mn) = Some cm' \<and>
    (map_of (cm_data cm') cid = None \<or>
     (\<exists>js. env_marshal env (newKeyInfo m (dr_now (draws i)) mn u d cid) = Inr js \<and> map_of (cm_data cm') cid = Some js))"
  by (rule key_stores.createKey_unfinished [OF assms])

definition refusedRun :: "(gerror + CreateKeyResult) \<times> cluster" where
  "refusedRun = createKey sampleKeyEnv serverManager sampleDraws ''m'' ''alice'' ''d''
     (sampleCluster [Healthy, Healthy, Healthy, Refuse ''timeout''] [] [])"

lemma refusedRun_value:
  "fst refusedRun = Inl (wrapErr (''updating ConfigMap for model '' @ ''m'') (errorf ''timeout''))"
  "map_option cm_data (configmapsAt (snd refusedRun) (''llm'', ''m-api-key-metadata'')) = Some []"
  by code_simp+

theorem failed_mint_leaves_credential_witness:
  "\<exists>sec' cm key cid. secretsAt (snd refusedRun) (''llm'', ''m-api-keys'') = Some sec' \<and>
     map_of (sec_data sec') cid = Some key \<and>
     configmapsAt (snd refusedRun) (''llm'', ''m-api-key-metadata'') = Some cm \<and>
     map_of (cm_data cm) cid = None"
proof -
  have "createKey sampleKeyEnv serverManager sampleDraws ''m'' ''alice'' ''d''
      (sampleCluster [Healthy, Healthy, Healthy, Refuse ''timeout''] [] []) =
      (Inl (wrapErr (''updating ConfigMap for model '' @ ''m'') (errorf ''timeout'')), snd refusedRun)"
    using refusedRun_value(1) by (metis prod.collapse refusedRun_def)
  from failed_mint_leaves_credential [OF server.key_stores_axioms this] refusedRun_value(2) show ?thesis
    by (auto simp: serverManager_def secretName_def configMapName_def)
qed

text \<open>Once the Secret entry of a client ID is gone, for example because the metadata write of
  an earlier revocation failed, revoking it always fails and its metadata stays.\<close>

theorem revokeKey_stuck_without_credential:
  assumes "key_stores m vS vM"
    and "vS s (mgr_namespace m, secretName mn) = Some sec" and "map_of (sec_data sec) cid = None"
  shows "isl (fst (revokeKey m mn cid s)) \<and> vS (snd (revokeKey m mn cid s)) = vS s \<and>
    vM (snd (revokeKey m mn cid s)) = vM s"
  using key_stores.revokeKeyAttempts_missing [OF assms, of maxRetries "fst (revokeKey m mn cid s)"
      "snd (revokeKey m mn cid s)"]
  by (auto simp: revokeKey_def)

theorem revokeKey_stuck_without_credential_witness:
  "isl (fst (revokeKey serverManager ''m'' ''x'' (sampleCluster [] [] [(''x'', ''j'')])))"
proof -
  have "secretsAt (sampleCluster [] [] [(''x'', ''j'')]) (''llm'', ''m-api-keys'') = Some (sampleSecret [])"
    by code_simp
  then have "secretsAt (sampleCluster [] [] [(''x'', ''j'')])
      (mgr_namespace serverManager, secretName ''m'') = Some (sampleSecret [])"
    by (simp add: serverManager_def secretName_def)
  from revokeKey_stuck_without_credential [OF server.key_stores_axioms this, of "''x''"] show ?thesis
    by (simp add: sampleSecret_def)
qed

end
