(* ===== verification/Watcher.thy ===== *)
theory Watcher
  imports Cluster
begin

text \<open>
  \<open>key-manager/internal/models/watcher.go\<close>: the cache of the models a key can be minted for.
  A watcher is a record of its two API clients and its cache, an association list under
  kind-prefixed names. The lock makes each method one step, so a method is a function of the
  watcher and of the cluster. The locale \<open>model_lists\<close> states what the two List calls promise;
  it is interpreted on the reference server.
\<close>

record ModelInfo =
  mi_Name :: string
  mi_Namespace :: string
  mi_ModelName :: string
  mi_Public :: bool
  mi_Groups :: "string list"
  mi_Passthrough :: bool
  mi_Provider :: string

record 'k Watcher =
  w_llmmodels :: "('k, LLMModel) typed_client"
  w_passthroughs :: "('k, PassthroughModel) typed_client"
  w_models :: "ModelInfo gomap"

definition NewWatcher ::
  "('k, LLMModel) typed_client \<Rightarrow> ('k, PassthroughModel) typed_client \<Rightarrow> 'k Watcher" where
  "NewWatcher cl cp = \<lparr>w_llmmodels = cl, w_passthroughs = cp, w_models = []\<rparr>"

definition llmKey :: "LLMModel \<Rightarrow> string" where
  "llmKey m = ''llmmodel/'' @ om_namespace (lm_meta m) @ ''/'' @ om_name (lm_meta m)"

definition llmInfo :: "LLMModel \<Rightarrow> ModelInfo" where
  "llmInfo m =
     \<lparr>mi_Name = om_name (lm_meta m), mi_Namespace = om_namespace (lm_meta m),
      mi_ModelName = mod_name (spec_model (lm_spec m)),
      mi_Public = (case acc_public (spec_access (lm_spec m)) of None \<Rightarrow> False | Some p \<Rightarrow> p),
      mi_Groups = acc_groups (spec_access (lm_spec m)), mi_Passthrough = False, mi_Provider = []\<rparr>"

definition passthroughKey :: "PassthroughModel \<Rightarrow> string" where
  "passthroughKey pm =
     ''passthroughmodel/'' @ om_namespace (pm_meta pm) @ ''/'' @ om_name (pm_meta pm)"

definition passthroughInfo :: "PassthroughModel \<Rightarrow> ModelInfo" where
  "passthroughInfo pm =
     \<lparr>mi_Name = om_name (pm_meta pm), mi_Namespace = om_namespace (pm_meta pm),
      mi_ModelName = prov_hostname (pspec_provider (pm_spec pm)),
      mi_Public = (case acc_public (pspec_access (pm_spec pm)) of None \<Rightarrow> False | Some p \<Rightarrow> p),
      mi_Groups = acc_groups (pspec_access (pm_spec pm)), mi_Passthrough = True,
      mi_Provider = prov_hostname (pspec_provider (pm_spec pm))\<rparr>"

text \<open>The two loops of \<open>Sync\<close> that fill the new map.\<close>

definition addLLMModels :: "LLMModel list \<Rightarrow> ModelInfo gomap \<Rightarrow> ModelInfo gomap" where
  "addLLMModels ms updated = fold (\<lambda>m. AList.update (llmKey m) (llmInfo m)) ms updated"

definition addPassthroughs :: "PassthroughModel list \<Rightarrow> ModelInfo gomap \<Rightarrow> ModelInfo gomap" where
  "addPassthroughs pms updated = fold (\<lambda>pm. AList.update (passthroughKey pm) (passthroughInfo pm)) pms updated"

definition Sync :: "'k Watcher \<Rightarrow> ('k, 'k Watcher) action" where
  "Sync w =
     bindE (tc_list (w_llmmodels w) [] []) (\<lambda>ms.
     bindE (tc_list (w_passthroughs w) [] []) (\<lambda>pms.
       returnE (w\<lparr>w_models := addPassthroughs pms (addLLMModels ms [])\<rparr>)))"

definition ListModels :: "'k Watcher \<Rightarrow> ModelInfo list" where
  "ListModels w = map snd (w_models w)"

definition accessibleTo :: "string list \<Rightarrow> ModelInfo \<Rightarrow> bool" where
  "accessibleTo groups m \<longleftrightarrow> mi_Public m \<or> list_ex (\<lambda>g. g \<in> set groups) (mi_Groups m)"

definition FilterModelsForUser :: "'k Watcher \<Rightarrow> string list \<Rightarrow> ModelInfo list" where
  "FilterModelsForUser w groups = filter (accessibleTo groups) (map snd (w_models w))"

section \<open>The cache as a map\<close>

lemma map_of_fold_update:
  "map_of (fold (\<lambda>x. AList.update (key x) (val x)) xs m) =
     (\<lambda>k. case find (\<lambda>x. key x = k) (rev xs) of Some x \<Rightarrow> Some (val x) | None \<Rightarrow> map_of m k)"
proof (induction xs arbitrary: m)
  case Nil
  then show ?case by simp
next
  case (Cons x xs)
  have "find P (ys @ [x]) = (case find P ys of Some y \<Rightarrow> Some y | None \<Rightarrow> if P x then Some x else None)"
    for P and ys by (induction ys) auto
  with Cons.IH show ?case by (auto simp: fun_eq_iff split: option.splits)
qed

lemma find_SomeD: "find P xs = Some x \<Longrightarrow> x \<in> set xs \<and> P x"
  by (induction xs) (auto split: if_splits)

lemma wf_fold_update: "wf_map m \<Longrightarrow> wf_map (fold (\<lambda>x. AList.update (key x) (val x)) xs m)"
  by (induction xs arbitrary: m) (auto simp: wf_map_update)

lemma values_fold_update:
  assumes "wf_map m" and inj: "\<And>x y. x \<in> set xs \<Longrightarrow> y \<in> set xs \<Longrightarrow> key x = key y \<Longrightarrow> val x = val y"
    and fresh: "\<And>x. x \<in> set xs \<Longrightarrow> map_of m (key x) = None"
  shows "snd ` set (fold (\<lambda>x. AList.update (key x) (val x)) xs m) = snd ` set m \<union> val ` set xs"
proof -
  let ?r = "fold (\<lambda>x. AList.update (key x) (val x)) xs m"
  have wf: "wf_map ?r" by (rule wf_fold_update [OF assms(1)])
  have mem: "v \<in> snd ` set ?r \<longleftrightarrow> v \<in> snd ` set m \<or> v \<in> val ` set xs" for v
  proof
    assume "v \<in> snd ` set ?r"
    then obtain k where k: "map_of ?r k = Some v" by (auto simp: wf_map_values [OF wf])
    show "v \<in> snd ` set m \<or> v \<in> val ` set xs"
    proof (cases "find (\<lambda>x. key x = k) (rev xs)")
      case None
      with k have "map_of m k = Some v" by (simp add: map_of_fold_update)
      with wf_map_values [OF assms(1)] show ?thesis by blast
    next
      case (Some x)
      with k have "v = val x" by (simp add: map_of_fold_update)
      with find_SomeD [OF Some] show ?thesis by simp
    qed
  next
    assume "v \<in> snd ` set m \<or> v \<in> val ` set xs"
    then show "v \<in> snd ` set ?r"
    proof
      assume "v \<in> snd ` set m"
      then obtain k where k: "map_of m k = Some v" by (auto simp: wf_map_values [OF assms(1)])
      have "find (\<lambda>x. key x = k) (rev xs) = None"
        using fresh k by (auto simp: find_None_iff)
      with k have "map_of ?r k = Some v" by (simp add: map_of_fold_update)
      then show ?thesis by (auto simp: wf_map_values [OF wf])
    next
      assume "v \<in> val ` set xs"
      then obtain x where x: "x \<in> set xs" "v = val x" by blast
      then obtain y where y: "find (\<lambda>z. key z = key x) (rev xs) = Some y"
        by (cases "find (\<lambda>z. key z = key x) (rev xs)") (auto simp: find_None_iff)
      then have "y \<in> set xs" "key y = key x" by (auto dest: find_SomeD)
      with x inj have "val y = v" by blast
      with y have "map_of ?r (key x) = Some v" by (simp add: map_of_fold_update)
      then show ?thesis by (auto simp: wf_map_values [OF wf])
    qed
  qed
  then show ?thesis by blast
qed

text \<open>
  A namespace holds no slash (it is a DNS label), so the keys of one kind are injective in the
  namespace and the name; the prefixes keep the kinds apart.
\<close>

lemma slash_split:
  assumes "a @ CHR ''/'' # x = b @ CHR ''/'' # y" and "CHR ''/'' \<notin> set a" and "CHR ''/'' \<notin> set b"
  shows "a = b \<and> x = y"
  using assms by (induction a arbitrary: b) (auto simp: Cons_eq_append_conv append_eq_Cons_conv)

lemma keys_apart: "llmKey m \<noteq> passthroughKey pm"
  by (simp add: llmKey_def passthroughKey_def)

definition noSlash :: "objmeta \<Rightarrow> bool" where
  "noSlash m \<longleftrightarrow> CHR ''/'' \<notin> set (om_namespace m)"

lemma llmKey_inj:
  "llmKey m = llmKey m' \<Longrightarrow> noSlash (lm_meta m) \<Longrightarrow> noSlash (lm_meta m') \<Longrightarrow>
     metaKey (lm_meta m) = metaKey (lm_meta m')"
  by (auto simp: llmKey_def noSlash_def metaKey_def dest!: slash_split)

lemma passthroughKey_inj:
  "passthroughKey m = passthroughKey m' \<Longrightarrow> noSlash (pm_meta m) \<Longrightarrow> noSlash (pm_meta m') \<Longrightarrow>
     metaKey (pm_meta m) = metaKey (pm_meta m')"
  by (auto simp: passthroughKey_def noSlash_def metaKey_def dest!: slash_split)

lemma image_Collect: "f ` {x. \<exists>n. P n x} = {f x | x n. P n x}"
  by blast

section \<open>Synchronising\<close>

locale model_lists =
  L: kube_kind CL viewL lm_meta contentL + P: kube_kind CP viewP pm_meta contentP
  for CL :: "('k, LLMModel) typed_client" and viewL :: "'k \<Rightarrow> nsname \<Rightarrow> LLMModel option" and contentL
    and CP :: "('k, PassthroughModel) typed_client"
    and viewP :: "'k \<Rightarrow> nsname \<Rightarrow> PassthroughModel option" and contentP +
  assumes list_L_P: "tc_list CL ns sel s = (r, s') \<Longrightarrow> viewP s' = viewP s"
begin

definition namespaces_ok :: "'k \<Rightarrow> bool" where
  "namespaces_ok s \<longleftrightarrow> (\<forall>n m. viewL s n = Some m \<longrightarrow> noSlash (lm_meta m)) \<and>
     (\<forall>n pm. viewP s n = Some pm \<longrightarrow> noSlash (pm_meta pm))"

lemma sync_models:
  assumes run: "Sync w s = (Inr w', s')" and clients: "w_llmmodels w = CL" "w_passthroughs w = CP"
    and ok: "namespaces_ok s"
  shows "set (ListModels w') = {llmInfo m | m n. viewL s n = Some m} \<union>
     {passthroughInfo pm | pm n. viewP s n = Some pm}"
proof -
  from run clients obtain ms pms t where l1: "tc_list CL [] [] s = (Inr ms, t)"
    and l2: "tc_list CP [] [] t = (Inr pms, s')"
    and w': "w_models w' = addPassthroughs pms (addLLMModels ms [])"
    by (auto simp: Sync_def bindE_Inr returnE_eq)
  have ms: "set ms = {m. \<exists>n. viewL s n = Some m}"
    using L.list_ok [OF l1] by (auto simp: inNamespace_def matchesLabels_def simp del: split_paired_Ex)
  have pms: "set pms = {pm. \<exists>n. viewP s n = Some pm}"
    using P.list_ok [OF l2] list_L_P [OF l1]
    by (auto simp: inNamespace_def matchesLabels_def simp del: split_paired_Ex)
  have msInj: "llmInfo x = llmInfo y" if "x \<in> set ms" "y \<in> set ms" "llmKey x = llmKey y" for x y
  proof -
    from that obtain n n' where n: "viewL s n = Some x" "viewL s n' = Some y"
      by (auto simp: ms simp del: split_paired_Ex)
    from n ok have "noSlash (lm_meta x)" "noSlash (lm_meta y)"
      unfolding namespaces_ok_def by blast+
    from llmKey_inj [OF that(3) this] have "metaKey (lm_meta x) = metaKey (lm_meta y)" .
    with L.view_key [OF n(1)] L.view_key [OF n(2)] n show ?thesis by simp
  qed
  have pmsInj: "passthroughInfo x = passthroughInfo y"
    if "x \<in> set pms" "y \<in> set pms" "passthroughKey x = passthroughKey y" for x y
  proof -
    from that obtain n n' where n: "viewP s n = Some x" "viewP s n' = Some y"
      by (auto simp: pms simp del: split_paired_Ex)
    from n ok have "noSlash (pm_meta x)" "noSlash (pm_meta y)"
      unfolding namespaces_ok_def by blast+
    from passthroughKey_inj [OF that(3) this] have "metaKey (pm_meta x) = metaKey (pm_meta y)" .
    with P.view_key [OF n(1)] P.view_key [OF n(2)] n show ?thesis by simp
  qed
  have wf_llm: "wf_map (addLLMModels ms [])"
    by (simp add: addLLMModels_def wf_fold_update)
  have first: "snd ` set (addLLMModels ms []) = llmInfo ` set ms"
    unfolding addLLMModels_def by (subst values_fold_update) (auto intro: msInj)
  have fresh: "map_of (addLLMModels ms []) (passthroughKey pm) = None" for pm
    by (auto simp: addLLMModels_def map_of_fold_update find_Some_iff keys_apart split: option.splits)
  have "snd ` set (addPassthroughs pms (addLLMModels ms [])) = llmInfo ` set ms \<union> passthroughInfo ` set pms"
    unfolding addPassthroughs_def first [symmetric]
    by (rule values_fold_update) (auto intro: pmsInj simp: fresh wf_llm)
  then show ?thesis
    by (simp only: ListModels_def set_map w' ms pms image_Collect)
qed

end

interpretation listing: model_lists llmmodelClient llmmodelsAt llmmodelContent
  passthroughClient passthroughsAt passthroughContent
proof -
  have "kube_kind llmmodelClient llmmodelsAt lm_meta llmmodelContent"
    using llmmodel_store.kube_kind_axioms by (simp add: llmmodelClient_def llmmodelsAt_def [abs_def])
  moreover have "kube_kind passthroughClient passthroughsAt pm_meta passthroughContent"
    using passthrough_store.kube_kind_axioms
    by (simp add: passthroughClient_def passthroughsAt_def [abs_def])
  moreover have "model_lists_axioms llmmodelClient passthroughsAt"
    by (unfold_locales; clarsimp simp: llmmodelClient_def mkClient_def storeList_def
        passthroughsAt_def tick_def fun_eq_iff split: fault.splits)
  ultimately show "model_lists llmmodelClient llmmodelsAt llmmodelContent
      passthroughClient passthroughsAt passthroughContent"
    by (rule model_lists.intro)
qed

section \<open>Properties\<close>

lemma accessibleTo_iff:
  "accessibleTo gs (llmInfo m) \<longleftrightarrow> acc_public (spec_access (lm_spec m)) = Some True \<or>
     set (acc_groups (spec_access (lm_spec m))) \<inter> set gs \<noteq> {}"
  "accessibleTo gs (passthroughInfo pm) \<longleftrightarrow> acc_public (pspec_access (pm_spec pm)) = Some True \<or>
     set (acc_groups (pspec_access (pm_spec pm))) \<inter> set gs \<noteq> {}"
  by (auto simp: accessibleTo_def llmInfo_def passthroughInfo_def list_ex_iff split: option.splits)

text \<open>After a successful synchronisation the models offered to a user are exactly the
  LLMModels and PassthroughModels the API server holds that are public or list one of the
  user's groups; two resources of different kind or namespace never hide each other.\<close>

theorem sync_then_filter_exact:
  assumes "model_lists (w_llmmodels w) viewL contentL (w_passthroughs w) viewP contentP"
    and "Sync w s = (Inr w', s')"
    and "\<And>n m. viewL s n = Some m \<Longrightarrow> noSlash (lm_meta m)"
    and "\<And>n pm. viewP s n = Some pm \<Longrightarrow> noSlash (pm_meta pm)"
  shows "set (FilterModelsForUser w' gs) =
    {llmInfo m | m n. viewL s n = Some m \<and> (acc_public (spec_access (lm_spec m)) = Some True \<or>
       set (acc_groups (spec_access (lm_spec m))) \<inter> set gs \<noteq> {})} \<union>
    {passthroughInfo pm | pm n. viewP s n = Some pm \<and>
      (acc_public (pspec_access (pm_spec pm)) = Some True \<or>
       set (acc_groups (pspec_access (pm_spec pm))) \<inter> set gs \<noteq> {})}"
proof -
  have "model_lists.namespaces_ok viewL viewP s"
    using assms(3,4) unfolding model_lists.namespaces_ok_def [OF assms(1)] by blast
  from model_lists.sync_models [OF assms(1,2) refl refl this]
  have "set (FilterModelsForUser w' gs) = {x \<in> {llmInfo m | m n. viewL s n = Some m} \<union>
     {passthroughInfo pm | pm n. viewP s n = Some pm}. accessibleTo gs x}"
    by (simp only: FilterModelsForUser_def ListModels_def set_filter)
  then show ?thesis by (auto simp: accessibleTo_iff simp del: split_paired_Ex)
qed

definition sampleWatcher :: "cluster Watcher" where
  "sampleWatcher = NewWatcher llmmodelClient passthroughClient"

definition sampleModels :: cluster where
  "sampleModels = emptyCluster\<lparr>
     cl_llmmodels := [((''a'', ''m''), sampleModel ''m'' ''a'' \<lparr>acc_public = Some False, acc_groups = [''ml'']\<rparr>),
       ((''b'', ''m''), sampleModel ''m'' ''b'' \<lparr>acc_public = None, acc_groups = []\<rparr>)],
     cl_passthroughs := [((''a'', ''m''), samplePassthrough ''m'' ''a'' \<lparr>acc_public = Some True, acc_groups = []\<rparr>)]\<rparr>"

definition syncedWatcher :: "cluster Watcher" where
  "syncedWatcher = (case fst (Sync sampleWatcher sampleModels) of Inr w \<Rightarrow> w | Inl _ \<Rightarrow> sampleWatcher)"

lemma visible_SomeD: "visible mo xs n = Some x \<Longrightarrow> (n, x) \<in> set xs"
  by (auto simp: visible_def dest: map_of_SomeD split: option.splits if_splits)

lemma sampleModels_noSlash:
  "llmmodelsAt sampleModels n = Some m \<Longrightarrow> noSlash (lm_meta m)"
  "passthroughsAt sampleModels n' = Some pm \<Longrightarrow> noSlash (pm_meta pm)"
  by (auto simp: llmmodelsAt_def passthroughsAt_def sampleModels_def emptyCluster_def noSlash_def
      sampleModel_def samplePassthrough_def newMeta_def dest!: visible_SomeD)

lemma syncedWatcher_eq: "fst (Sync sampleWatcher sampleModels) = Inr syncedWatcher"
proof -
  have "isl (fst (Sync sampleWatcher sampleModels)) = False" by code_simp
  then show ?thesis by (auto simp: syncedWatcher_def split: sum.splits)
qed

theorem sync_then_filter_exact_witness:
  "passthroughInfo (samplePassthrough ''m'' ''a'' \<lparr>acc_public = Some True, acc_groups = []\<rparr>)
     \<in> set (FilterModelsForUser syncedWatcher [])"
proof -
  have "Sync sampleWatcher sampleModels = (Inr syncedWatcher, snd (Sync sampleWatcher sampleModels))"
    by (simp add: prod_eq_iff syncedWatcher_eq)
  moreover have "model_lists (w_llmmodels sampleWatcher) llmmodelsAt llmmodelContent
      (w_passthroughs sampleWatcher) passthroughsAt passthroughContent"
    by (simp add: sampleWatcher_def NewWatcher_def listing.model_lists_axioms)
  moreover have "passthroughsAt sampleModels (''a'', ''m'') =
      Some (samplePassthrough ''m'' ''a'' \<lparr>acc_public = Some True, acc_groups = []\<rparr>)"
    by (simp add: passthroughsAt_def sampleModels_def visible_def samplePassthrough_def newMeta_def
        metaKey_def alive_def)
  ultimately show ?thesis
    using sync_then_filter_exact [of sampleWatcher llmmodelsAt llmmodelContent passthroughsAt
        passthroughContent sampleModels syncedWatcher _ "[]"] sampleModels_noSlash
    by (auto simp: samplePassthrough_def simp del: split_paired_Ex split_paired_All) 
qed

end
