(* ===== verification/Middleware.thy ===== *)
theory Middleware
  imports Json
begin

text \<open>
  \<open>key-manager/internal/api/middleware.go\<close>: from a bearer token to the user in the request's
  context. A handler is a function of the request and of the world behind it; the validator is
  an interface in the code and a function here, absent when the field is nil.
\<close>

record UserInfo =
  ui_Username :: string
  ui_Name :: string
  ui_Email :: string
  ui_Groups :: "string list"

text \<open>
  The part of a request the handlers look at: \<open>Header.Get("Authorization")\<close> is the empty string
  when the header is absent, and \<open>rq_user\<close> is the value under the context key.
\<close>

record request =
  rq_method :: string
  rq_path :: string
  rq_authorization :: string
  rq_body :: string
  rq_pathValues :: "string gomap"
  rq_user :: "UserInfo option"

text \<open>\<open>'b\<close> is what the handlers hand to the JSON encoder.\<close>

datatype 'b body = Empty | Text string | Encoded 'b

record 'b response =
  rsp_status :: nat
  rsp_headers :: "string gomap"
  rsp_body :: "'b body"

type_synonym ('s, 'b) handler = "request \<Rightarrow> 's \<Rightarrow> 'b response \<times> 's"

definition httpError :: "string gomap \<Rightarrow> string \<Rightarrow> nat \<Rightarrow> 'b response" where
  "httpError hdrs msg code =
     \<lparr>rsp_status = code,
      rsp_headers = AList.update ''X-Content-Type-Options'' ''nosniff''
        (AList.update ''Content-Type'' ''text/plain; charset=utf-8'' hdrs),
      rsp_body = Text (msg @ [CHR 0x0A])\<rparr>"

definition UserFromContext :: "request \<Rightarrow> UserInfo option" where
  "UserFromContext r = rq_user r"

type_synonym claims = "(string \<times> json) list"

record 's AuthConfig =
  ac_GroupsClaim :: string
  ac_Validator :: "(string \<Rightarrow> ('s, claims) action) option"
  ac_DevMode :: bool
  ac_DevIdentity :: UserInfo

definition extractBearerToken :: "request \<Rightarrow> gerror + string" where
  "extractBearerToken r =
     (let authHeader = rq_authorization r
      in if authHeader = [] then Inl (errorf ''no Authorization header'')
         else if \<not> hasPrefix authHeader ''Bearer ''
         then Inl (errorf ''authorization header must use Bearer scheme'')
         else let token = trimPrefix authHeader ''Bearer ''
              in if token = [] then Inl (errorf ''bearer token is empty'') else Inr token)"

definition extractGroups :: "claims \<Rightarrow> string \<Rightarrow> string list" where
  "extractGroups claims claimName =
     (case map_of claims claimName of
        None \<Rightarrow> []
      | Some (JArr v) \<Rightarrow> List.map_filter asString v
      | Some (JStrs v) \<Rightarrow> v
      | Some (JStr v) \<Rightarrow> [v]
      | Some _ \<Rightarrow> [])"

definition userInfoFromClaims :: "claims \<Rightarrow> string \<Rightarrow> UserInfo" where
  "userInfoFromClaims claims groupsClaim =
     (let username = strOr (map_of claims ''preferred_username'');
          username' = (if username = [] then strOr (map_of claims ''sub'') else username)
      in \<lparr>ui_Username = username', ui_Name = strOr (map_of claims ''name''),
          ui_Email = strOr (map_of claims ''email''), ui_Groups = extractGroups claims groupsClaim\<rparr>)"

definition AuthMiddleware :: "'s AuthConfig \<Rightarrow> ('s, 'b) handler \<Rightarrow> ('s, 'b) handler" where
  "AuthMiddleware cfg next r s =
     (let claim = (if ac_GroupsClaim cfg = [] then ''groups'' else ac_GroupsClaim cfg)
      in if ac_DevMode cfg then next (r\<lparr>rq_user := Some (ac_DevIdentity cfg)\<rparr>) s
         else case ac_Validator cfg of
           None \<Rightarrow> (httpError [] ''auth not configured'' 500, s)
         | Some validate \<Rightarrow>
             (case extractBearerToken r of
                Inl e \<Rightarrow> (httpError [] (''unauthorized: '' @ errText e) 401, s)
              | Inr token \<Rightarrow>
                  (case validate token s of
                     (Inl e, s') \<Rightarrow>
                       if errCause e = CNotReady
                       then (httpError [(''Retry-After'', ''5'')] (''auth not ready: '' @ errText e) 503, s')
                       else (httpError [] (''unauthorized: '' @ errText e) 401, s')
                   | (Inr claims, s') \<Rightarrow>
                       next (r\<lparr>rq_user := Some (userInfoFromClaims claims claim)\<rparr>) s')))"

section \<open>Properties\<close>

lemma bearer_iff:
  "extractBearerToken r = Inr token \<longleftrightarrow> rq_authorization r = ''Bearer '' @ token \<and> token \<noteq> []"
  by (auto simp: extractBearerToken_def hasPrefix_iff Let_def trimPrefix_def split: if_splits)

text \<open>outside dev mode, every request either is answered by the middleware itself, with 500,
  401 or (with a Retry-After of 5 seconds) 503, or reaches the protected handler with exactly
  the identity of the verified claims; a user already present in the request is never used.\<close>

theorem middleware_authenticates:
  assumes "\<not> ac_DevMode cfg"
  shows "(\<exists>s' resp. AuthMiddleware cfg next r s = (resp, s') \<and> rsp_status resp \<in> {500, 401, 503} \<and>
       (rsp_status resp = 503 \<longleftrightarrow> map_of (rsp_headers resp) ''Retry-After'' = Some ''5'')) \<or>
     (\<exists>validate token claims s'. ac_Validator cfg = Some validate \<and>
       rq_authorization r = ''Bearer '' @ token \<and> token \<noteq> [] \<and>
       validate token s = (Inr claims, s') \<and>
       AuthMiddleware cfg next r s = next (r\<lparr>rq_user := Some (userInfoFromClaims claims
         (if ac_GroupsClaim cfg = [] then ''groups'' else ac_GroupsClaim cfg))\<rparr>) s')"
proof (cases "ac_Validator cfg")
  case None
  with assms show ?thesis by (auto simp: AuthMiddleware_def Let_def httpError_def)
next
  case (Some validate)
  show ?thesis
  proof (cases "extractBearerToken r")
    case (Inl e)
    with assms Some show ?thesis by (auto simp: AuthMiddleware_def Let_def httpError_def)
  next
    case (Inr token)
    obtain q s' where "validate token s = (q, s')" by fastforce
    moreover have "rq_authorization r = ''Bearer '' @ token" "token \<noteq> []"
      using Inr by (simp_all add: bearer_iff)
    ultimately show ?thesis
      using assms Some Inr by (cases q) (auto simp: AuthMiddleware_def Let_def httpError_def)
  qed
qed

definition sampleAuth :: "unit AuthConfig" where
  "sampleAuth = \<lparr>ac_GroupsClaim = [],
     ac_Validator = Some (\<lambda>t s. (if t = ''good'' then Inr [(''sub'', JStr ''u1''),
       (''groups'', JArr [JStr ''ml'', JInt 3])] else Inl (errorf ''bad''), s)),
     ac_DevMode = False,
     ac_DevIdentity = \<lparr>ui_Username = [], ui_Name = [], ui_Email = [], ui_Groups = []\<rparr>\<rparr>"

definition sampleRequest :: "string \<Rightarrow> request" where
  "sampleRequest auth = \<lparr>rq_method = ''GET'', rq_path = ''/api/me'', rq_authorization = auth,
     rq_body = [], rq_pathValues = [], rq_user = None\<rparr>"

theorem middleware_authenticates_witness:
  "\<exists>claims. AuthMiddleware sampleAuth (\<lambda>r s. (\<lparr>rsp_status = 200, rsp_headers = [],
       rsp_body = Encoded (rq_user r)\<rparr>, s)) (sampleRequest ''Bearer good'') () =
     (\<lparr>rsp_status = 200, rsp_headers = [], rsp_body = Encoded (Some (userInfoFromClaims claims ''groups''))\<rparr>, ())"
proof -
  let ?next = "\<lambda>r s. (\<lparr>rsp_status = 200, rsp_headers = [], rsp_body = Encoded (rq_user r)\<rparr>, s)"
  have "\<not> ac_DevMode sampleAuth" by (simp add: sampleAuth_def)
  from middleware_authenticates [OF this, of ?next "sampleRequest ''Bearer good''" "()"]
  show ?thesis
  proof
    assume "\<exists>s' resp. AuthMiddleware sampleAuth ?next (sampleRequest ''Bearer good'') () = (resp, s') \<and>
       rsp_status resp \<in> {500, 401, 503} \<and>
       (rsp_status resp = 503 \<longleftrightarrow> map_of (rsp_headers resp) ''Retry-After'' = Some ''5'')"
    moreover have "rsp_status (fst (AuthMiddleware sampleAuth ?next (sampleRequest ''Bearer good'') ())) = 200"
      by code_simp
    ultimately show ?thesis by auto
  next
    assume "\<exists>validate token claims s'. ac_Validator sampleAuth = Some validate \<and>
       rq_authorization (sampleRequest ''Bearer good'') = ''Bearer '' @ token \<and> token \<noteq> [] \<and>
       validate token () = (Inr claims, s') \<and>
       AuthMiddleware sampleAuth ?next (sampleRequest ''Bearer good'') () =
         ?next ((sampleRequest ''Bearer good'')\<lparr>rq_user := Some (userInfoFromClaims claims
           (if ac_GroupsClaim sampleAuth = [] then ''groups'' else ac_GroupsClaim sampleAuth))\<rparr>) s'"
    then show ?thesis by (auto simp: sampleAuth_def)
  qed
qed

text \<open>An identity is read off the claims as documented: the user name falls back to the subject,
  a groups claim that is an array contributes its string elements in order, one that is a string
  a single group, and one that is absent or of another type no group at all.\<close>

theorem claims_to_identity:
  "extractGroups claims c =
     (case map_of claims c of Some (JArr v) \<Rightarrow> map (\<lambda>x. case x of JStr g \<Rightarrow> g)
          (filter (\<lambda>x. case x of JStr g \<Rightarrow> True | _ \<Rightarrow> False) v)
      | Some (JStrs v) \<Rightarrow> v | Some (JStr v) \<Rightarrow> [v] | _ \<Rightarrow> []) \<and>
   (ui_Username (userInfoFromClaims claims c) = [] \<longleftrightarrow>
      map_of claims ''preferred_username'' \<notin> Some ` JStr ` {u. u \<noteq> []} \<and>
      map_of claims ''sub'' \<notin> Some ` JStr ` {u. u \<noteq> []})"
proof -
  have "List.map_filter asString v = map (\<lambda>x. case x of JStr g \<Rightarrow> g)
      (filter (\<lambda>x. case x of JStr g \<Rightarrow> True | _ \<Rightarrow> False) v)" for v
    by (induction v) (auto simp: List.map_filter_simps split: json.splits)
  moreover have "strOr j = [] \<longleftrightarrow> j \<notin> Some ` JStr ` {u. u \<noteq> []}" for j
    by (auto simp: strOr_def image_iff split: option.splits json.splits)
  ultimately show ?thesis
    by (auto simp: extractGroups_def userInfoFromClaims_def Let_def split: option.splits json.splits)
qed

end
