(* ===== verification/Handler.thy ===== *)
theory Handler
  imports Secrets Watcher Middleware
begin

text \<open>
  \<open>key-manager/internal/api/handler.go\<close>: the HTTP handlers of the key manager. The two
  interfaces of the file are arguments: \<open>ModelLister\<close> is the function \<open>h_lister\<close>, and
  \<open>KeyManager\<close> a record of actions, whose contract is the locale \<open>key_manager\<close>; the Secrets
  component provides it. The JSON decoder of the request body is an argument too, and a JSON
  response keeps the map handed to the encoder. Log lines are left out.
\<close>

section \<open>The interface of the handlers\<close>

record 's KeyManager =
  km_CreateKey :: "string \<Rightarrow> string \<Rightarrow> string \<Rightarrow> ('s, CreateKeyResult) action"
  km_ListKeys :: "string \<Rightarrow> ('s, KeyInfo list) action"
  km_ListKeysForUser :: "string \<Rightarrow> ('s, KeyInfo list) action"
  km_RevokeKey :: "string \<Rightarrow> string \<Rightarrow> ('s, unit) action"

record createKeyRequest =
  req_modelName :: string
  req_description :: string

record 's Handler =
  h_lister :: "string list \<Rightarrow> ModelInfo list"
  h_secrets :: "'s KeyManager"
  h_decode :: "string \<Rightarrow> createKeyRequest option"

datatype encodable = EStr string | EStrs "string list" | EModels "ModelInfo list" | EKeys "KeyInfo list"

type_synonym payload = "(string \<times> encodable) list"

section \<open>The handlers\<close>

definition writeJSON :: "nat \<Rightarrow> payload \<Rightarrow> payload response" where
  "writeJSON status v =
     \<lparr>rsp_status = status, rsp_headers = [(''Content-Type'', ''application/json'')], rsp_body = Encoded v\<rparr>"

definition healthz :: "('s, payload) handler" where
  "healthz r s = (\<lparr>rsp_status = 200, rsp_headers = [(''Content-Type'', ''text/plain'')],
     rsp_body = Text (''ok'' @ [CHR 0x0A])\<rparr>, s)"

definition getMe :: "('s, payload) handler" where
  "getMe r s =
     (case UserFromContext r of
        None \<Rightarrow> (httpError [] ''unauthorized'' 401, s)
      | Some user \<Rightarrow>
          (writeJSON 200 [(''username'', EStr (ui_Username user)), (''name'', EStr (ui_Name user)),
             (''email'', EStr (ui_Email user)), (''groups'', EStrs (ui_Groups user))], s))"

definition getModels :: "'s Handler \<Rightarrow> ('s, payload) handler" where
  "getModels h r s =
     (case UserFromContext r of
        None \<Rightarrow> (httpError [] ''unauthorized'' 401, s)
      | Some user \<Rightarrow> (writeJSON 200 [(''models'', EModels (h_lister h (ui_Groups user)))], s))"

definition getKeys :: "'s Handler \<Rightarrow> ('s, payload) handler" where
  "getKeys h r s =
     (case UserFromContext r of
        None \<Rightarrow> (httpError [] ''unauthorized'' 401, s)
      | Some user \<Rightarrow>
          (case km_ListKeysForUser (h_secrets h) (ui_Username user) s of
             (Inl e, s') \<Rightarrow> (httpError [] ''internal server error'' 500, s')
           | (Inr keys, s') \<Rightarrow> (writeJSON 200 [(''keys'', EKeys keys)], s')))"

definition createKeyHandler :: "'s Handler \<Rightarrow> ('s, payload) handler" where
  "createKeyHandler h r s =
     (case UserFromContext r of
        None \<Rightarrow> (httpError [] ''unauthorized'' 401, s)
      | Some user \<Rightarrow>
          (case h_decode h (rq_body r) of
             None \<Rightarrow> (httpError [] ''bad request: invalid JSON body'' 400, s)
           | Some req \<Rightarrow>
               let accessible = h_lister h (ui_Groups user);
                   hasAccess = list_ex (\<lambda>m. mi_Name m = req_modelName req) accessible
               in if \<not> hasAccess then (httpError [] ''forbidden: no access to model'' 403, s)
                  else (case km_CreateKey (h_secrets h) (req_modelName req) (ui_Username user)
                              (req_description req) s of
                          (Inl e, s') \<Rightarrow> (httpError [] ''internal server error'' 500, s')
                        | (Inr result, s') \<Rightarrow>
                            (writeJSON 201 [(''clientId'', EStr (ckr_clientID result)),
                               (''apiKey'', EStr (ckr_apiKey result))], s'))))"

definition pathValue :: "request \<Rightarrow> string \<Rightarrow> string" where
  "pathValue r k = (case map_of (rq_pathValues r) k of Some v \<Rightarrow> v | None \<Rightarrow> [])"

definition deleteKey :: "'s Handler \<Rightarrow> ('s, payload) handler" where
  "deleteKey h r s =
     (case UserFromContext r of
        None \<Rightarrow> (httpError [] ''unauthorized'' 401, s)
      | Some user \<Rightarrow>
          let namespace = pathValue r ''namespace''; modelName = pathValue r ''model'';
              clientID = pathValue r ''clientID''
          in (case km_ListKeys (h_secrets h) modelName s of
                (Inl e, s') \<Rightarrow> (httpError [] ''internal server error'' 500, s')
              | (Inr keys, s') \<Rightarrow>
                  (case find (\<lambda>k. ki_clientID k = clientID \<and> ki_namespace k = namespace) keys of
                     None \<Rightarrow> (httpError [] ''not found'' 404, s')
                   | Some found \<Rightarrow>
                       if ki_creator found \<noteq> ui_Username user
                       then (httpError [] ''forbidden: key belongs to another user'' 403, s')
                       else (case km_RevokeKey (h_secrets h) modelName clientID s' of
                               (Inl e, s'') \<Rightarrow> (httpError [] ''internal server error'' 500, s'')
                             | (Inr _, s'') \<Rightarrow>
                                 (\<lparr>rsp_status = 204, rsp_headers = [], rsp_body = Empty\<rparr>, s'')))))"

section \<open>The contract of the key manager\<close>

text \<open>
  What the handlers rely on: listing changes nothing and returns metadata entries that are
  stored, minting only adds entries, and revoking touches only the named client ID.
\<close>

locale key_manager =
  fixes K :: "'s KeyManager" and env :: keyEnv and ns :: string
    and viewS :: "'s \<Rightarrow> nsname \<Rightarrow> secret option" and viewM :: "'s \<Rightarrow> nsname \<Rightarrow> configmap option"
  assumes create: "km_CreateKey K mn u d s = (r, s') \<Longrightarrow> grows viewS viewM s s'"
    and list_keys: "km_ListKeys K mn s = (q, s') \<Longrightarrow> viewS s' = viewS s \<and> viewM s' = viewM s \<and>
      (\<forall>infos i. q = Inr infos \<longrightarrow> i \<in> set infos \<longrightarrow> (\<exists>cm k v. viewM s (ns, configMapName mn) = Some cm \<and>
         (k, v) \<in> set (cm_data cm) \<and> env_unmarshal env v = Some i))"
    and list_user: "km_ListKeysForUser K u s = (q, s') \<Longrightarrow> viewS s' = viewS s \<and> viewM s' = viewM s \<and>
      (\<forall>infos i. q = Inr infos \<longrightarrow> i \<in> set infos \<longrightarrow> ki_creator i = u)"
    and revoke: "km_RevokeKey K mn cid s = (p, s') \<Longrightarrow>
      agreeS (viewS s) (viewS s') (ns, secretName mn) cid \<and>
      agreeM (viewM s) (viewM s') (ns, configMapName mn) cid"
begin

lemma createKeyHandler_effect:
  assumes "createKeyHandler h r s = (resp, s')" and "h_secrets h = K"
  shows "grows viewS viewM s s' \<and> (s' = s \<and> rsp_status resp \<in> {401, 400, 403} \<or>
    (\<exists>user req m. rq_user r = Some user \<and> h_decode h (rq_body r) = Some req \<and>
      m \<in> set (h_lister h (ui_Groups user)) \<and> mi_Name m = req_modelName req \<and>
      snd (km_CreateKey K (req_modelName req) (ui_Username user) (req_description req) s) = s'))"
proof (cases "rq_user r")
  case None
  with assms show ?thesis
    by (auto simp: createKeyHandler_def UserFromContext_def httpError_def grows_refl)
next
  case user: (Some user)
  show ?thesis
  proof (cases "h_decode h (rq_body r)")
    case None
    with assms user show ?thesis
      by (auto simp: createKeyHandler_def UserFromContext_def httpError_def grows_refl)
  next
    case (Some req)
    obtain q t where c: "km_CreateKey K (req_modelName req) (ui_Username user) (req_description req) s = (q, t)"
      by fastforce
    show ?thesis
    proof (cases "list_ex (\<lambda>m. mi_Name m = req_modelName req) (h_lister h (ui_Groups user))")
      case True
      with assms user Some c have "s' = t"
        by (cases q) (auto simp: createKeyHandler_def UserFromContext_def Let_def)
      with True user Some c create [OF c] show ?thesis
        by (auto simp: list_ex_iff)
    next
      case False
      with assms user Some show ?thesis
        by (auto simp: createKeyHandler_def UserFromContext_def httpError_def grows_refl Let_def)
    qed
  qed
qed

lemma deleteKey_effect:
  assumes run: "deleteKey h r s = (resp, s')" and K: "h_secrets h = K"
  shows "(viewS s' = viewS s \<and> viewM s' = viewM s \<and> rsp_status resp \<noteq> 204) \<or>
    (\<exists>user info cm k v. rq_user r = Some user \<and>
       viewM s (ns, configMapName (pathValue r ''model'')) = Some cm \<and> (k, v) \<in> set (cm_data cm) \<and>
       env_unmarshal env v = Some info \<and> ki_creator info = ui_Username user \<and>
       ki_clientID info = pathValue r ''clientID'' \<and> ki_namespace info = pathValue r ''namespace'' \<and>
       agreeS (viewS s) (viewS s') (ns, secretName (pathValue r ''model'')) (pathValue r ''clientID'') \<and>
       agreeM (viewM s) (viewM s') (ns, configMapName (pathValue r ''model'')) (pathValue r ''clientID''))"
proof (cases "rq_user r")
  case None
  with run show ?thesis by (auto simp: deleteKey_def UserFromContext_def httpError_def)
next
  case user: (Some user)
  let ?mn = "pathValue r ''model''" and ?cid = "pathValue r ''clientID''"
  let ?own = "\<lambda>k. ki_clientID k = ?cid \<and> ki_namespace k = pathValue r ''namespace''"
  obtain q t where l: "km_ListKeys K ?mn s = (q, t)" by fastforce
  note lk = list_keys [OF l]
  show ?thesis
  proof (cases "\<exists>infos found. q = Inr infos \<and> find ?own infos = Some found \<and>
      ki_creator found = ui_Username user")
    case False
    with run user K l lk show ?thesis
      by (cases q) (auto simp: deleteKey_def UserFromContext_def httpError_def Let_def
          split: option.splits if_splits)
  next
    case True
    then obtain infos found where f: "q = Inr infos" "find ?own infos = Some found"
      "ki_creator found = ui_Username user" by blast
    obtain p t' where rv: "km_RevokeKey K ?mn ?cid t = (p, t')" by fastforce
    have "s' = t'"
      using run user K l f rv
      by (cases p) (auto simp: deleteKey_def UserFromContext_def Let_def)
    moreover have own: "found \<in> set infos" "?own found" using find_SomeD [OF f(2)] by auto
    ultimately show ?thesis
      using user f(3) revoke [OF rv] lk f(1)
      by (intro disjI2 exI [of _ user] exI [of _ found]) (auto 4 3)
  qed
qed

lemma getKeys_own:
  assumes "getKeys h r s = (resp, s')" and "h_secrets h = K"
  shows "viewS s' = viewS s \<and> viewM s' = viewM s \<and>
    (\<forall>keys. rsp_body resp = Encoded [(''keys'', EKeys keys)] \<longrightarrow>
       (\<exists>user. rq_user r = Some user \<and> (\<forall>k \<in> set keys. ki_creator k = ui_Username user)))"
proof (cases "rq_user r")
  case None
  with assms show ?thesis by (auto simp: getKeys_def UserFromContext_def httpError_def)
next
  case (Some user)
  obtain q t where l: "km_ListKeysForUser K (ui_Username user) s = (q, t)" by fastforce
  with assms Some list_user [OF l] show ?thesis
    by (cases q) (auto simp: getKeys_def UserFromContext_def httpError_def writeJSON_def)
qed

end

section \<open>The Secrets component as key manager\<close>

definition secretsManager :: "keyEnv \<Rightarrow> 'k Manager \<Rightarrow> (nat \<Rightarrow> draw) \<Rightarrow> 'k KeyManager" where
  "secretsManager env m draws =
     \<lparr>km_CreateKey = createKey env m draws, km_ListKeys = listKeys env m,
      km_ListKeysForUser = listKeysForUser env m, km_RevokeKey = revokeKey m\<rparr>"

context key_stores
begin

lemma listKeys_views:
  assumes run: "listKeys env m mn s = (q, s')"
  shows "viewS s' = viewS s \<and> viewM s' = viewM s \<and>
    (\<forall>infos i. q = Inr infos \<longrightarrow> i \<in> set infos \<longrightarrow> (\<exists>cm k v. viewM s (cmAt mn) = Some cm \<and>
       (k, v) \<in> set (cm_data cm) \<and> env_unmarshal env v = Some i))"
proof (cases q)
  case (Inl e)
  obtain p t where g: "getConfigMap m mn s = (p, t)" by fastforce
  with run have "s' = t" by (cases p) (auto simp: listKeys_def bindE_def returnE_def)
  with getConfigMap_view [OF g] Inl show ?thesis by simp
next
  case (Inr infos)
  from listKeys_spec [OF run [unfolded Inr]] Inr show ?thesis by auto
qed

lemma listKeysForUser_views:
  assumes run: "listKeysForUser env m u s = (q, s')"
  shows "viewS s' = viewS s \<and> viewM s' = viewM s \<and>
    (\<forall>infos i. q = Inr infos \<longrightarrow> i \<in> set infos \<longrightarrow> ki_creator i = u)"
proof -
  obtain p t where l: "tc_list (mgr_configmaps m) (mgr_namespace m) [] s = (p, t)" by fastforce
  with run have "s' = t"
    by (cases p) (auto simp: listKeysForUser_def action_defs)
  with B.list_view [OF l] list_B_A [OF l] have "viewS s' = viewS s \<and> viewM s' = viewM s" by simp
  moreover have "ki_creator i = u" if "q = Inr infos" "i \<in> set infos" for infos i
  proof -
    from run that(1) have "listKeysForUser env m u s = (Inr infos, s')" by simp
    from listKeysForUser_spec [OF this] that(2) show ?thesis by blast
  qed
  ultimately show ?thesis by blast
qed

lemma provides_key_manager:
  "key_manager (secretsManager env m draws) env (mgr_namespace m) viewS viewM"
proof (unfold_locales, goal_cases)
  case (1 mn u d s r s')
  then show ?case using createKey_spec by (simp add: secretsManager_def)
next
  case (2 mn s q s')
  then show ?case using listKeys_views by (simp add: secretsManager_def)
next
  case (3 u s q s')
  then show ?case using listKeysForUser_views by (simp add: secretsManager_def)
next
  case (4 mn cid s p s')
  then show ?case
    using revokeKeyAttempts_spec [of mn cid maxRetries s p s']
    by (simp add: secretsManager_def revokeKey_def)
qed

end

interpretation server_keys: key_manager "secretsManager sampleKeyEnv serverManager sampleDraws"
  sampleKeyEnv "''llm''" secretsAt configmapsAt
  using server.provides_key_manager [of sampleKeyEnv sampleDraws] by (simp add: serverManager_def)

lemma no_identity:
  assumes "rq_user r = None"
  shows "snd (getMe r s) = s \<and> rsp_status (fst (getMe r s)) = 401"
    and "snd (getModels h r s) = s \<and> rsp_status (fst (getModels h r s)) = 401"
    and "snd (getKeys h r s) = s \<and> rsp_status (fst (getKeys h r s)) = 401"
    and "snd (createKeyHandler h r s) = s \<and> rsp_status (fst (createKeyHandler h r s)) = 401"
    and "snd (deleteKey h r s) = s \<and> rsp_status (fst (deleteKey h r s)) = 401"
  using assms
  by (simp_all add: getMe_def getModels_def getKeys_def createKeyHandler_def deleteKey_def
      UserFromContext_def httpError_def)

section \<open>Properties\<close>

text \<open>every handler under \<open>/api/\<close> answers a request without an identity with 401 and leaves the
  cluster as it is, so a request that slips past the middleware achieves nothing.\<close>

theorem handlers_need_identity:
  assumes "rq_user r = None"
    and "f \<in> {getMe, getModels h, getKeys h, createKeyHandler h, deleteKey h}"
  shows "snd (f r s) = s \<and> rsp_status (fst (f r s)) = 401"
  using assms by (auto simp: no_identity)

definition sampleHandler :: "cluster Handler" where
  "sampleHandler = \<lparr>h_lister = FilterModelsForUser syncedWatcher,
     h_secrets = secretsManager sampleKeyEnv serverManager sampleDraws,
     h_decode = (\<lambda>b. Some \<lparr>req_modelName = b, req_description = []\<rparr>)\<rparr>"

theorem handlers_need_identity_witness:
  "rsp_status (fst (createKeyHandler sampleHandler (sampleRequest ''Bearer x'') emptyCluster)) = 401"
  using handlers_need_identity [of "sampleRequest ''Bearer x''" "createKeyHandler sampleHandler"
      sampleHandler emptyCluster]
  by (simp add: sampleRequest_def)

definition aliceRequest :: "string \<Rightarrow> string gomap \<Rightarrow> request" where
  "aliceRequest body values = (sampleRequest ''Bearer t'')\<lparr>rq_body := body, rq_pathValues := values,
     rq_user := Some \<lparr>ui_Username = ''alice'', ui_Name = [], ui_Email = [], ui_Groups = [''ml'']\<rparr>\<rparr>"

text \<open>C13: \<open>POST /api/keys\<close> changes the cluster only for an identified user whose body names a cached
  model that is public or shares a group with the user, and then does what \<open>CreateKey\<close> does with
  the user name of the identity, never with one from the body.\<close>

theorem createKey_handler_authorises:
  assumes "createKeyHandler \<lparr>h_lister = FilterModelsForUser w,
      h_secrets = secretsManager env m draws, h_decode = dec\<rparr> r s = (resp, s')"
  shows "s' = s \<and> rsp_status resp \<in> {401, 400, 403} \<or>
    (\<exists>user req mi. rq_user r = Some user \<and> dec (rq_body r) = Some req \<and> mi \<in> set (ListModels w) \<and>
       mi_Name mi = req_modelName req \<and>
       (mi_Public mi \<or> set (mi_Groups mi) \<inter> set (ui_Groups user) \<noteq> {}) \<and>
       s' = snd (createKey env m draws (req_modelName req) (ui_Username user) (req_description req) s))"
proof (cases "rq_user r")
  case None
  with assms show ?thesis by (auto simp: createKeyHandler_def UserFromContext_def httpError_def)
next
  case user: (Some user)
  show ?thesis
  proof (cases "dec (rq_body r)")
    case None
    with assms user show ?thesis by (auto simp: createKeyHandler_def UserFromContext_def httpError_def)
  next
    case (Some req)
    show ?thesis
    proof (cases "list_ex (\<lambda>m. mi_Name m = req_modelName req) (FilterModelsForUser w (ui_Groups user))")
      case True
      then obtain mi where "mi \<in> set (ListModels w)" "accessibleTo (ui_Groups user) mi"
        "mi_Name mi = req_modelName req"
        by (auto simp: list_ex_iff FilterModelsForUser_def ListModels_def)
      moreover have "s' = snd (createKey env m draws (req_modelName req) (ui_Username user) (req_description req) s)"
        using assms user Some True
        by (auto simp: createKeyHandler_def UserFromContext_def secretsManager_def Let_def
            split: prod.splits sum.splits)
      ultimately show ?thesis
        using user Some by (auto simp: accessibleTo_def list_ex_iff)
    next
      case False
      with assms user Some show ?thesis
        by (auto simp: createKeyHandler_def UserFromContext_def httpError_def Let_def)
    qed
  qed
qed

lemma aliceCreates_value:
  "rsp_status (fst (createKeyHandler sampleHandler (aliceRequest ''m'' []) healthyStart)) = 201"
  by code_simp

theorem createKey_handler_authorises_witness:
  "\<exists>mi. mi \<in> set (ListModels syncedWatcher) \<and> mi_Name mi = ''m'' \<and>
     (mi_Public mi \<or> set (mi_Groups mi) \<inter> {''ml''} \<noteq> {})"
proof -
  let ?run = "createKeyHandler sampleHandler (aliceRequest ''m'' []) healthyStart"
  have "createKeyHandler \<lparr>h_lister = FilterModelsForUser syncedWatcher,
      h_secrets = secretsManager sampleKeyEnv serverManager sampleDraws,
      h_decode = (\<lambda>b. Some \<lparr>req_modelName = b, req_description = []\<rparr>)\<rparr> (aliceRequest ''m'' []) healthyStart =
      (fst ?run, snd ?run)"
    by (simp add: sampleHandler_def)
  from createKey_handler_authorises [OF this] aliceCreates_value show ?thesis
    by (auto simp: aliceRequest_def sampleRequest_def)
qed

text \<open>C14: \<open>DELETE /api/keys/{namespace}/{model}/{clientID}\<close> changes the stored keys only when the
  metadata of that model holds an entry with that client ID and namespace whose creator is the
  identified user, and then touches nothing but that client ID of that model; 204 is never
  answered otherwise.\<close>

theorem deleteKey_handler_owner_only:
  assumes "key_stores m vS vM"
    and "deleteKey \<lparr>h_lister = l, h_secrets = secretsManager env m draws, h_decode = dec\<rparr> r s = (resp, s')"
  shows "(vS s' = vS s \<and> vM s' = vM s \<and> rsp_status resp \<noteq> 204) \<or>
    (\<exists>user info cm k v. rq_user r = Some user \<and>
       vM s (mgr_namespace m, configMapName (pathValue r ''model'')) = Some cm \<and> (k, v) \<in> set (cm_data cm) \<and>
       env_unmarshal env v = Some info \<and> ki_creator info = ui_Username user \<and>
       ki_clientID info = pathValue r ''clientID'' \<and> ki_namespace info = pathValue r ''namespace'' \<and>
       agreeS (vS s) (vS s') (mgr_namespace m, secretName (pathValue r ''model'')) (pathValue r ''clientID'') \<and>
       agreeM (vM s) (vM s') (mgr_namespace m, configMapName (pathValue r ''model'')) (pathValue r ''clientID''))"
  by (rule key_manager.deleteKey_effect [OF key_stores.provides_key_manager [OF assms(1)] assms(2)]) simp

definition bobsKey :: cluster where
  "bobsKey = sampleCluster [] [(''k'', ''v'')] [(''k'', ''bob'')]"

lemma bobsKey_info:
  "configmapsAt bobsKey (''llm'', ''m-api-key-metadata'') = Some cm \<Longrightarrow> (k, v) \<in> set (cm_data cm) \<Longrightarrow>
     env_unmarshal sampleKeyEnv v = Some info \<Longrightarrow> ki_creator info = ''bob''"
  by (auto simp: configmapsAt_def bobsKey_def sampleCluster_def visible_def sampleConfigMap_def
      sampleKeyEnv_def split: if_splits)

theorem deleteKey_handler_owner_only_witness:
  "secretsAt (snd (deleteKey sampleHandler (aliceRequest [] [(''namespace'', []), (''model'', ''m''),
     (''clientID'', [])]) bobsKey)) = secretsAt bobsKey"
proof -
  let ?r = "aliceRequest [] [(''namespace'', []), (''model'', ''m''), (''clientID'', [])]"
  let ?run = "deleteKey sampleHandler ?r bobsKey"
  have "deleteKey \<lparr>h_lister = FilterModelsForUser syncedWatcher,
      h_secrets = secretsManager sampleKeyEnv serverManager sampleDraws,
      h_decode = (\<lambda>b. Some \<lparr>req_modelName = b, req_description = []\<rparr>)\<rparr> ?r bobsKey = (fst ?run, snd ?run)"
    by (simp add: sampleHandler_def)
  from deleteKey_handler_owner_only [OF server.key_stores_axioms this] show ?thesis
  proof
    assume "\<exists>user info cm k v. rq_user ?r = Some user \<and>
       configmapsAt bobsKey (mgr_namespace serverManager, configMapName (pathValue ?r ''model'')) = Some cm \<and>
       (k, v) \<in> set (cm_data cm) \<and> env_unmarshal sampleKeyEnv v = Some info \<and>
       ki_creator info = ui_Username user \<and> ki_clientID info = pathValue ?r ''clientID'' \<and>
       ki_namespace info = pathValue ?r ''namespace'' \<and>
       agreeS (secretsAt bobsKey) (secretsAt (snd ?run))
         (mgr_namespace serverManager, secretName (pathValue ?r ''model'')) (pathValue ?r ''clientID'') \<and>
       agreeM (configmapsAt bobsKey) (configmapsAt (snd ?run))
         (mgr_namespace serverManager, configMapName (pathValue ?r ''model'')) (pathValue ?r ''clientID'')"
    then show ?thesis
      by (auto simp: aliceRequest_def pathValue_def serverManager_def configMapName_def dest!: bobsKey_info)
  qed simp
qed

text \<open>\<open>GET /api/keys\<close> changes nothing and lists only keys the identified user created.\<close>

theorem getKeys_handler_own_keys:
  assumes "key_stores m vS vM"
    and "getKeys \<lparr>h_lister = l, h_secrets = secretsManager env m draws, h_decode = dec\<rparr> r s = (resp, s')"
  shows "vS s' = vS s \<and> vM s' = vM s \<and>
    (\<forall>keys. rsp_body resp = Encoded [(''keys'', EKeys keys)] \<longrightarrow>
       (\<exists>user. rq_user r = Some user \<and> (\<forall>k \<in> set keys. ki_creator k = ui_Username user)))"
  by (rule key_manager.getKeys_own [OF key_stores.provides_key_manager [OF assms(1)] assms(2)]) simp

theorem getKeys_handler_own_keys_witness:
  "secretsAt (snd (getKeys sampleHandler (aliceRequest [] []) bobsKey)) = secretsAt bobsKey"
proof -
  let ?run = "getKeys sampleHandler (aliceRequest [] []) bobsKey"
  have "getKeys \<lparr>h_lister = FilterModelsForUser syncedWatcher,
      h_secrets = secretsManager sampleKeyEnv serverManager sampleDraws,
      h_decode = (\<lambda>b. Some \<lparr>req_modelName = b, req_description = []\<rparr>)\<rparr> (aliceRequest [] []) bobsKey = (fst ?run, snd ?run)"
    by (simp add: sampleHandler_def)
  from getKeys_handler_own_keys [OF server.key_stores_axioms this] show ?thesis by blast
qed

end
