(* ===== verification/Auditing.thy ===== *)
theory Auditing
  imports Handler
begin

text \<open>
  \<open>key-manager/internal/audit/auditor.go\<close>: the periodic pass that revokes the keys of users who
  lost access to a model. The interfaces of the file are fields of the auditor: the models, the
  two key operations, and the lookup of a user's current groups. The locale \<open>audited_keys\<close> is
  their contract, provided by the Secrets component. The timer of \<open>Start\<close> is a list of passes.
\<close>

record 's Auditor =
  au_ListModels :: "ModelInfo list"
  au_ListKeys :: "string \<Rightarrow> ('s, KeyInfo list) action"
  au_RevokeKey :: "string \<Rightarrow> string \<Rightarrow> ('s, unit) action"
  au_lookup :: "string \<Rightarrow> ('s, string list) action"

definition hasOverlap :: "string list \<Rightarrow> string list \<Rightarrow> bool" where
  "hasOverlap userGroups modelGroupSet = list_ex (\<lambda>g. g \<in> set modelGroupSet) userGroups"

definition auditKey :: "'s Auditor \<Rightarrow> ModelInfo \<Rightarrow> KeyInfo \<Rightarrow> gerror list \<times> 's \<Rightarrow> gerror list \<times> 's" where
  "auditKey a model key acc =
     (case acc of (errs, s) \<Rightarrow>
        (case au_lookup a (ki_creator key) s of
           (Inl e, s') \<Rightarrow> (errs, s')
         | (Inr userGroups, s') \<Rightarrow>
             if hasOverlap userGroups (mi_Groups model) then (errs, s')
             else (case au_RevokeKey a (mi_Name model) (ki_clientID key) s' of
                     (Inl e, s'') \<Rightarrow>
                       (errs @ [wrapErr (''revoking key '' @ ki_clientID key @ '' for model '' @ mi_Name model) e], s'')
                   | (Inr _, s'') \<Rightarrow> (errs, s''))))"

definition auditModel :: "'s Auditor \<Rightarrow> ModelInfo \<Rightarrow> gerror list \<times> 's \<Rightarrow> gerror list \<times> 's" where
  "auditModel a model acc =
     (case acc of (errs, s) \<Rightarrow>
        if mi_Public model then (errs, s)
        else (case au_ListKeys a (mi_Name model) s of
                (Inl e, s') \<Rightarrow> (errs @ [wrapErr (''listing keys for model '' @ mi_Name model) e], s')
              | (Inr keys, s') \<Rightarrow> fold (auditKey a model) keys (errs, s')))"

text \<open>\<open>errors.Join\<close> keeps the list of errors; nil is \<open>None\<close>.\<close>

definition RunOnce :: "'s Auditor \<Rightarrow> 's \<Rightarrow> gerror list option \<times> 's" where
  "RunOnce a s =
     (case fold (auditModel a) (au_ListModels a) ([], s) of
        (errs, s') \<Rightarrow> (if errs = [] then None else Some errs, s'))"

text \<open>\<open>n\<close> ticks of the loop: an error of a pass is logged and does not stop it.\<close>

fun auditPasses :: "'s Auditor \<Rightarrow> nat \<Rightarrow> 's \<Rightarrow> 's" where
  "auditPasses a 0 s = snd (RunOnce a s)"
| "auditPasses a (Suc n) s = auditPasses a n (snd (RunOnce a s))"

section \<open>Stored keys that only disappear\<close>

definition shrinks ::
  "('k \<Rightarrow> nsname \<Rightarrow> secret option) \<Rightarrow> ('k \<Rightarrow> nsname \<Rightarrow> configmap option) \<Rightarrow> 'k \<Rightarrow> 'k \<Rightarrow> bool" where
  "shrinks vS vM s s' \<longleftrightarrow>
     (\<forall>n. rel_option (\<lambda>x x'. map_of (sec_data x') \<subseteq>\<^sub>m map_of (sec_data x)) (vS s n) (vS s' n)) \<and>
     (\<forall>n. rel_option (\<lambda>y y'. set (cm_data y') \<subseteq> set (cm_data y)) (vM s n) (vM s' n))"

lemma shrinks_trans: "shrinks vS vM s t \<Longrightarrow> shrinks vS vM t u \<Longrightarrow> shrinks vS vM s u"
  unfolding shrinks_def by (fast intro: rel_option_trans map_le_trans)

lemma shrinks_refl: "vS s' = vS s \<Longrightarrow> vM s' = vM s \<Longrightarrow> shrinks vS vM s s'"
  by (simp add: shrinks_def rel_option_reflI)

lemma shrinks_absent:
  assumes "shrinks vS vM s t" and "vS s n = Some x" and "map_of (sec_data x) k = None"
  shows "\<exists>y. vS t n = Some y \<and> map_of (sec_data y) k = None"
proof -
  from assms(1) have "rel_option (\<lambda>x x'. map_of (sec_data x') \<subseteq>\<^sub>m map_of (sec_data x)) (vS s n) (vS t n)"
    by (simp add: shrinks_def del: split_paired_All)
  with assms(2,3) show ?thesis by (cases "vS t n") (auto dest: map_le_None)
qed

lemma shrinksM_entries:
  assumes "shrinks vS vM s t" and "vM t n = Some y"
  shows "\<exists>x. vM s n = Some x \<and> set (cm_data y) \<subseteq> set (cm_data x)"
proof -
  from assms(1) have "rel_option (\<lambda>y y'. set (cm_data y') \<subseteq> set (cm_data y)) (vM s n) (vM t n)"
    by (simp add: shrinks_def del: split_paired_All)
  with assms(2) show ?thesis by (cases "vM s n") auto
qed

lemma map_le_remove: "f(k := None) \<subseteq>\<^sub>m f"
  by (auto simp: map_le_def)

lemma set_delete_mem: "x \<in> set (AList.delete k m) \<Longrightarrow> x \<in> set m"
  by (auto simp: AList.delete_eq)

context key_stores
begin

lemma revokeKeyOnce_shrinks:
  assumes "revokeKeyOnce m mn cid s = (r, s')"
  shows "shrinks viewS viewM s s'"
  using revokeKeyOnce_effect [OF assms]
  by (elim disjE exE conjE)
    (auto simp: shrinks_def map_le_remove rel_option_reflI dest: set_delete_mem)

lemma revokeKeyOnce_other:
  assumes "revokeKeyOnce m mn cid s = (r, s')" and "n \<noteq> cmAt mn"
  shows "viewM s' n = viewM s n"
  using revokeKeyOnce_effect [OF assms(1)] assms(2) by (elim disjE exE conjE) auto

lemma revokeKeyAttempts_other:
  "revokeKeyAttempts m mn cid i s = (r, s') \<Longrightarrow> n \<noteq> cmAt mn \<Longrightarrow> viewM s' n = viewM s n"
proof (induction i arbitrary: s)
  case (Suc i)
  obtain q t where once: "revokeKeyOnce m mn cid s = (q, t)" by fastforce
  note one = revokeKeyOnce_other [OF once Suc.prems(2)]
  from Suc.prems(1) once consider "s' = t" | "revokeKeyAttempts m mn cid i t = (r, s')"
    by (cases q) (auto split: if_splits)
  then show ?case using one Suc.IH Suc.prems(2) by cases auto
qed auto

lemma revokeKeyAttempts_shrinks:
  "revokeKeyAttempts m mn cid n s = (r, s') \<Longrightarrow> shrinks viewS viewM s s'"
proof (induction n arbitrary: s)
  case 0
  then show ?case by (auto intro: shrinks_refl)
next
  case (Suc n)
  obtain q t where once: "revokeKeyOnce m mn cid s = (q, t)" by fastforce
  note one = revokeKeyOnce_shrinks [OF once]
  from Suc.prems once consider "s' = t" | "revokeKeyAttempts m mn cid n t = (r, s')"
    by (cases q) (auto split: if_splits)
  then show ?case using one Suc.IH by cases (auto intro: shrinks_trans)
qed

end

section \<open>The contract\<close>

locale audited_keys =
  fixes a :: "'s Auditor" and env :: keyEnv and ns :: string
    and viewS :: "'s \<Rightarrow> nsname \<Rightarrow> secret option" and viewM :: "'s \<Rightarrow> nsname \<Rightarrow> configmap option"
  assumes list_keys: "au_ListKeys a mn s = (q, s') \<Longrightarrow> viewS s' = viewS s \<and> viewM s' = viewM s \<and>
      (\<forall>infos. q = Inr infos \<longrightarrow> (\<exists>cm. viewM s (ns, configMapName mn) = Some cm \<and>
         set infos = {i. \<exists>k v. (k, v) \<in> set (cm_data cm) \<and> env_unmarshal env v = Some i}))"
    and revoke: "au_RevokeKey a mn cid s = (p, s') \<Longrightarrow> shrinks viewS viewM s s' \<and>
      agreeS (viewS s) (viewS s') (ns, secretName mn) cid \<and>
      (p = Inr () \<longrightarrow> (\<exists>x. viewS s' (ns, secretName mn) = Some x \<and> map_of (sec_data x) cid = None))"
    and revoke_other: "au_RevokeKey a mn cid s = (p, s') \<Longrightarrow> n \<noteq> (ns, configMapName mn) \<Longrightarrow>
      viewM s' n = viewM s n"
    and lookup: "au_lookup a u s = (g, s') \<Longrightarrow> viewS s' = viewS s \<and> viewM s' = viewM s"
begin

text \<open>A key the pass may revoke: its creator was looked up and shares no group with the model.\<close>

definition lost :: "ModelInfo \<Rightarrow> KeyInfo \<Rightarrow> bool" where
  "lost mi i \<longleftrightarrow> (\<exists>t t' gs. au_lookup a (ki_creator i) t = (Inr gs, t') \<and> set gs \<inter> set (mi_Groups mi) = {})"

lemma overlap: "hasOverlap gs (mi_Groups mi) \<longleftrightarrow> set gs \<inter> set (mi_Groups mi) \<noteq> {}"
  by (auto simp: hasOverlap_def list_ex_iff)

lemma auditKey_step:
  assumes "auditKey a mi i (errs, s) = (errs', s')"
  shows "shrinks viewS viewM s s' \<and>
    (viewS s' = viewS s \<or> lost mi i \<and> agreeS (viewS s) (viewS s') (ns, secretName (mi_Name mi)) (ki_clientID i))"
proof -
  obtain g t where l: "au_lookup a (ki_creator i) s = (g, t)" by fastforce
  note lk = lookup [OF l]
  show ?thesis
  proof (cases "\<exists>gs. g = Inr gs \<and> \<not> hasOverlap gs (mi_Groups mi)")
    case False
    with assms l have "s' = t" by (cases g) (auto simp: auditKey_def split: if_splits)
    with lk show ?thesis by (simp add: shrinks_refl)
  next
    case True
    then obtain gs where gs: "g = Inr gs" "\<not> hasOverlap gs (mi_Groups mi)" by blast
    obtain p t' where rv: "au_RevokeKey a (mi_Name mi) (ki_clientID i) t = (p, t')" by fastforce
    with assms l gs have "s' = t'" by (cases p) (auto simp: auditKey_def)
    moreover have "lost mi i" using l gs unfolding lost_def overlap by blast
    moreover have "shrinks viewS viewM s t" using lk by (simp add: shrinks_refl)
    ultimately show ?thesis
      using revoke [OF rv] lk by (auto intro: shrinks_trans)
  qed
qed

text \<open>What may have become of a credential between two states of a pass that began in \<open>s0\<close>.\<close>

definition entry :: "'s \<Rightarrow> nsname \<Rightarrow> string \<Rightarrow> bytes option option" where
  "entry s n k = map_option (\<lambda>x. map_of (sec_data x) k) (viewS s n)"

definition culprit :: "ModelInfo list \<Rightarrow> 's \<Rightarrow> nsname \<Rightarrow> string \<Rightarrow> bool" where
  "culprit ms s0 n k \<longleftrightarrow> (\<exists>mi \<in> set ms. \<not> mi_Public mi \<and> n = (ns, secretName (mi_Name mi)) \<and>
     (\<exists>cm k' v i. viewM s0 (ns, configMapName (mi_Name mi)) = Some cm \<and> (k', v) \<in> set (cm_data cm) \<and>
        env_unmarshal env v = Some i \<and> ki_clientID i = k \<and> lost mi i))"

definition justified :: "ModelInfo list \<Rightarrow> 's \<Rightarrow> 's \<Rightarrow> 's \<Rightarrow> bool" where
  "justified ms s0 s s' \<longleftrightarrow> shrinks viewS viewM s s' \<and>
     (\<forall>n k. entry s' n k = entry s n k \<or> culprit ms s0 n k)"

lemma justified_refl: "viewS s' = viewS s \<Longrightarrow> viewM s' = viewM s \<Longrightarrow> justified ms s0 s s'"
  by (simp add: justified_def shrinks_refl entry_def)

lemma justified_trans:
  assumes "justified ms s0 s t" and "justified ms s0 t u"
  shows "justified ms s0 s u"
proof -
  have "entry u n k = entry s n k \<or> culprit ms s0 n k" for n k
    using assms unfolding justified_def by metis
  with assms show ?thesis unfolding justified_def by (blast intro: shrinks_trans)
qed

lemma auditKey_justified:
  assumes run: "auditKey a mi i (errs, s) = (errs', s')" and mi: "mi \<in> set ms" "\<not> mi_Public mi"
    and i: "viewM s0 (ns, configMapName (mi_Name mi)) = Some cm" "(k', v) \<in> set (cm_data cm)"
      "env_unmarshal env v = Some i"
  shows "justified ms s0 s s'"
proof -
  note step = auditKey_step [OF run]
  have "entry s' n k = entry s n k \<or> culprit ms s0 n k" for n k
  proof (cases "viewS s' = viewS s \<or> n \<noteq> (ns, secretName (mi_Name mi)) \<or> k \<noteq> ki_clientID i")
    case True
    with step show ?thesis by (auto simp: entry_def agreeS_def simp del: split_paired_All)
  next
    case False
    with step have "lost mi i" by blast
    with False mi i show ?thesis unfolding culprit_def by blast
  qed
  with step show ?thesis unfolding justified_def by blast
qed

lemma auditKeys_justified:
  "fold (auditKey a mi) keys (errs, s) = (errs', s') \<Longrightarrow> mi \<in> set ms \<Longrightarrow> \<not> mi_Public mi \<Longrightarrow>
   viewM s0 (ns, configMapName (mi_Name mi)) = Some cm \<Longrightarrow>
   \<forall>i \<in> set keys. \<exists>k' v. (k', v) \<in> set (cm_data cm) \<and> env_unmarshal env v = Some i \<Longrightarrow>
   justified ms s0 s s'"
proof (induction keys arbitrary: errs s)
  case Nil
  then show ?case by (simp add: justified_refl)
next
  case (Cons i keys)
  obtain e1 t where one: "auditKey a mi i (errs, s) = (e1, t)" by fastforce
  from Cons.prems obtain k' v where "(k', v) \<in> set (cm_data cm)" "env_unmarshal env v = Some i" by auto
  from auditKey_justified [OF one Cons.prems(2,3,4) this] have "justified ms s0 s t" .
  moreover have "justified ms s0 t s'"
    using Cons.prems one by (intro Cons.IH [of e1 t]) auto
  ultimately show ?case by (rule justified_trans)
qed

lemma auditModel_justified:
  assumes run: "auditModel a mi (errs, s) = (errs', s')" and mi: "mi \<in> set ms"
    and s0: "shrinks viewS viewM s0 s"
  shows "justified ms s0 s s'"
proof (cases "mi_Public mi")
  case True
  with run show ?thesis by (simp add: auditModel_def justified_refl)
next
  case False
  obtain q t where l: "au_ListKeys a (mi_Name mi) s = (q, t)" by fastforce
  note lk = list_keys [OF l]
  then have st: "justified ms s0 s t" by (simp add: justified_refl)
  show ?thesis
  proof (cases q)
    case (Inl e)
    with run False l have "s' = t" by (simp add: auditModel_def)
    with st show ?thesis by simp
  next
    case (Inr keys)
    with run False l have f: "fold (auditKey a mi) keys (errs, t) = (errs', s')"
      by (simp add: auditModel_def)
    from lk Inr obtain cm where cm: "viewM s (ns, configMapName (mi_Name mi)) = Some cm"
      "set keys = {i. \<exists>k v. (k, v) \<in> set (cm_data cm) \<and> env_unmarshal env v = Some i}" by blast
    from shrinksM_entries [OF s0 cm(1)] obtain cm0 where
      cm0: "viewM s0 (ns, configMapName (mi_Name mi)) = Some cm0" "set (cm_data cm) \<subseteq> set (cm_data cm0)" by blast
    have "\<forall>i \<in> set keys. \<exists>k' v. (k', v) \<in> set (cm_data cm0) \<and> env_unmarshal env v = Some i"
      using cm(2) cm0(2) by blast
    from auditKeys_justified [OF f mi False cm0(1) this] st show ?thesis
      by (blast intro: justified_trans)
  qed
qed

lemma auditModels_justified:
  "fold (auditModel a) mis (errs, s) = (errs', s') \<Longrightarrow> set mis \<subseteq> set ms \<Longrightarrow>
   shrinks viewS viewM s0 s \<Longrightarrow> justified ms s0 s s'"
proof (induction mis arbitrary: errs s)
  case Nil
  then show ?case by (simp add: justified_refl)
next
  case (Cons mi mis)
  obtain e1 t where one: "auditModel a mi (errs, s) = (e1, t)" by fastforce
  with Cons.prems have st: "justified ms s0 s t" by (intro auditModel_justified) auto
  then have "shrinks viewS viewM s0 t"
    using Cons.prems(3) unfolding justified_def by (blast intro: shrinks_trans)
  with Cons.prems one have "justified ms s0 t s'" by (intro Cons.IH [of e1 t]) auto
  with st show ?case by (rule justified_trans)
qed

lemma RunOnce_justified:
  assumes "RunOnce a s = (r, s')"
  shows "justified (au_ListModels a) s s s'"
proof -
  obtain errs t where f: "fold (auditModel a) (au_ListModels a) ([], s) = (errs, t)" by fastforce
  with assms have "s' = t" by (simp add: RunOnce_def)
  with auditModels_justified [OF f subset_refl shrinks_refl [OF refl refl]] show ?thesis by simp
qed

text \<open>A pass without an error leaves no key of a user whose groups are known not to overlap.\<close>

definition absent :: "'s \<Rightarrow> ModelInfo \<Rightarrow> string \<Rightarrow> bool" where
  "absent s mi k \<longleftrightarrow> (\<exists>x. viewS s (ns, secretName (mi_Name mi)) = Some x \<and> map_of (sec_data x) k = None)"

lemma absent_mono: "absent s mi k \<Longrightarrow> shrinks viewS viewM s t \<Longrightarrow> absent t mi k"
  unfolding absent_def by (elim exE conjE) (rule shrinks_absent)

lemma auditKey_errs: "\<exists>es. fst (auditKey a mi i (errs, s)) = errs @ es"
  by (auto simp: auditKey_def split: prod.splits sum.splits)

lemma auditKeys_errs: "\<exists>es. fst (fold (auditKey a mi) keys (errs, s)) = errs @ es"
proof (induction keys arbitrary: errs s)
  case (Cons i keys)
  obtain e1 t where one: "auditKey a mi i (errs, s) = (e1, t)" by fastforce
  with auditKey_errs [of mi i errs s] obtain es where "e1 = errs @ es" by auto
  moreover from Cons.IH [of e1 t] obtain es' where "fst (fold (auditKey a mi) keys (e1, t)) = e1 @ es'" by blast
  ultimately show ?case using one by simp
qed simp

lemma auditModel_errs: "\<exists>es. fst (auditModel a mi (errs, s)) = errs @ es"
proof (cases "mi_Public mi")
  case True
  then show ?thesis by (simp add: auditModel_def)
next
  case False
  obtain q t where "au_ListKeys a (mi_Name mi) s = (q, t)" by fastforce
  with False auditKeys_errs [of mi _ errs t] show ?thesis by (cases q) (auto simp: auditModel_def)
qed

lemma auditModels_errs: "\<exists>es. fst (fold (auditModel a) mis (errs, s)) = errs @ es"
proof (induction mis arbitrary: errs s)
  case (Cons mi mis)
  obtain e1 t where one: "auditModel a mi (errs, s) = (e1, t)" by fastforce
  with auditModel_errs [of mi errs s] obtain es where "e1 = errs @ es" by auto
  moreover from Cons.IH [of e1 t] obtain es' where "fst (fold (auditModel a) mis (e1, t)) = e1 @ es'" by blast
  ultimately show ?case using one by simp
qed simp

lemma auditKey_revokes:
  assumes run: "auditKey a mi i ([], s) = ([], s')"
    and gs: "\<And>t. \<exists>t'. au_lookup a (ki_creator i) t = (Inr gs, t')" "set gs \<inter> set (mi_Groups mi) = {}"
  shows "absent s' mi (ki_clientID i)"
proof -
  from gs(1) obtain t where l: "au_lookup a (ki_creator i) s = (Inr gs, t)" by blast
  obtain p t' where rv: "au_RevokeKey a (mi_Name mi) (ki_clientID i) t = (p, t')" by fastforce
  have "\<not> hasOverlap gs (mi_Groups mi)" using gs(2) by (simp add: overlap)
  with run l rv have "p = Inr ()" "s' = t'" by (cases p; simp add: auditKey_def)+
  with revoke [OF rv] show ?thesis unfolding absent_def by blast
qed

lemma shrinks_keys: "fold (auditKey a mi) keys (errs, s) = (errs', s') \<Longrightarrow> shrinks viewS viewM s s'"
proof (induction keys arbitrary: errs s)
  case (Cons i keys)
  obtain e1 t where one: "auditKey a mi i (errs, s) = (e1, t)" by fastforce
  with Cons.prems have "fold (auditKey a mi) keys (e1, t) = (errs', s')" by simp
  from Cons.IH [OF this] auditKey_step [OF one] show ?case by (blast intro: shrinks_trans)
qed (simp add: shrinks_refl)

lemma auditKeys_revokes:
  assumes "\<And>t. \<exists>t'. au_lookup a (ki_creator i) t = (Inr gs, t')" and "set gs \<inter> set (mi_Groups mi) = {}"
  shows "fold (auditKey a mi) keys ([], s) = ([], s') \<Longrightarrow> i \<in> set keys \<Longrightarrow> absent s' mi (ki_clientID i)"
proof (induction keys arbitrary: s)
  case (Cons j keys)
  obtain e1 t where one: "auditKey a mi j ([], s) = (e1, t)" by fastforce
  with Cons.prems have rest: "fold (auditKey a mi) keys (e1, t) = ([], s')" by simp
  with auditKeys_errs [of mi keys e1 t] have "e1 = []" by auto
  show ?case
  proof (cases "i \<in> set keys")
    case True
    with Cons.IH rest \<open>e1 = []\<close> show ?thesis by simp
  next
    case False
    with Cons.prems have "i = j" by simp
    with auditKey_revokes [of mi i s t gs] one \<open>e1 = []\<close> assms have "absent t mi (ki_clientID i)" by blast
    with shrinks_keys [OF rest] show ?thesis by (blast intro: absent_mono)
  qed
qed simp

lemma auditModel_revokes:
  assumes run: "auditModel a mi ([], s) = ([], s')" and mi: "\<not> mi_Public mi"
    and cm: "viewM s (ns, configMapName (mi_Name mi)) = Some cm" "(k, v) \<in> set (cm_data cm)"
      "env_unmarshal env v = Some i"
    and gs: "\<And>t. \<exists>t'. au_lookup a (ki_creator i) t = (Inr gs, t')" "set gs \<inter> set (mi_Groups mi) = {}"
  shows "absent s' mi (ki_clientID i)"
proof -
  obtain q t where l: "au_ListKeys a (mi_Name mi) s = (q, t)" by fastforce
  with run mi obtain keys where q: "q = Inr keys" and f: "fold (auditKey a mi) keys ([], t) = ([], s')"
    by (cases q) (auto simp: auditModel_def)
  have "i \<in> set keys" using list_keys [OF l] q cm by auto
  from auditKeys_revokes [OF gs f this] show ?thesis .
qed

text \<open>Auditing one model leaves the metadata of the others alone.\<close>

lemma auditKey_other:
  assumes "auditKey a mi i (errs, s) = (errs', s')" and "n \<noteq> (ns, configMapName (mi_Name mi))"
  shows "viewM s' n = viewM s n"
proof -
  obtain g t where l: "au_lookup a (ki_creator i) s = (g, t)" by fastforce
  obtain p t' where rv: "au_RevokeKey a (mi_Name mi) (ki_clientID i) t = (p, t')" by fastforce
  from assms(1) l rv have "s' = t \<or> s' = t'"
    by (cases g; cases p) (auto simp: auditKey_def split: if_splits)
  with lookup [OF l] revoke_other [OF rv assms(2)] show ?thesis by auto
qed

lemma auditKeys_other:
  "fold (auditKey a mi) keys (errs, s) = (errs', s') \<Longrightarrow> n \<noteq> (ns, configMapName (mi_Name mi)) \<Longrightarrow>
     viewM s' n = viewM s n"
proof (induction keys arbitrary: errs s)
  case (Cons i keys)
  obtain e1 t where one: "auditKey a mi i (errs, s) = (e1, t)" by fastforce
  with Cons.prems have "fold (auditKey a mi) keys (e1, t) = (errs', s')" by simp
  from Cons.IH [OF this] auditKey_other [OF one] Cons.prems(2) show ?case by simp
qed simp

lemma auditModel_frame:
  assumes "auditModel a mi (errs, s) = (errs', s')"
  shows "shrinks viewS viewM s s' \<and> (n \<noteq> (ns, configMapName (mi_Name mi)) \<longrightarrow> viewM s' n = viewM s n)"
proof (cases "mi_Public mi")
  case True
  with assms show ?thesis by (simp add: auditModel_def shrinks_refl)
next
  case False
  obtain q t where l: "au_ListKeys a (mi_Name mi) s = (q, t)" by fastforce
  note lk = list_keys [OF l]
  show ?thesis
  proof (cases q)
    case (Inl e)
    with assms False l have "s' = t" by (simp add: auditModel_def)
    with lk show ?thesis by (simp add: shrinks_refl)
  next
    case (Inr keys)
    with assms False l have f: "fold (auditKey a mi) keys (errs, t) = (errs', s')"
      by (simp add: auditModel_def)
    have "shrinks viewS viewM s t" using lk by (simp add: shrinks_refl)
    with shrinks_keys [OF f] auditKeys_other [OF f] lk show ?thesis
      by (auto intro: shrinks_trans)
  qed
qed

lemma auditModels_shrink: "fold (auditModel a) mis (errs, s) = (errs', s') \<Longrightarrow> shrinks viewS viewM s s'"
proof (induction mis arbitrary: errs s)
  case (Cons mi mis)
  obtain e1 t where one: "auditModel a mi (errs, s) = (e1, t)" by fastforce
  with Cons.prems have "fold (auditModel a) mis (e1, t) = (errs', s')" by simp
  from Cons.IH [OF this] auditModel_frame [OF one] show ?case by (blast intro: shrinks_trans)
qed (simp add: shrinks_refl)

lemma auditModels_revoke:
  assumes gs: "\<And>t. \<exists>t'. au_lookup a (ki_creator i) t = (Inr gs, t')" "set gs \<inter> set (mi_Groups mi) = {}"
    and entry: "(k, v) \<in> set (cm_data cm)" "env_unmarshal env v = Some i" and "\<not> mi_Public mi"
  shows "fold (auditModel a) mis ([], s) = ([], s') \<Longrightarrow> mi \<in> set mis \<Longrightarrow> distinct (map mi_Name mis) \<Longrightarrow>
    viewM s (ns, configMapName (mi_Name mi)) = Some cm \<Longrightarrow> absent s' mi (ki_clientID i)"
proof (induction mis arbitrary: s)
  case (Cons mj mis)
  obtain e1 t where one: "auditModel a mj ([], s) = (e1, t)" by fastforce
  with Cons.prems have rest: "fold (auditModel a) mis (e1, t) = ([], s')" by simp
  with auditModels_errs [of mis e1 t] have e1: "e1 = []" by auto
  show ?case
  proof (cases "mi = mj")
    case True
    with auditModel_revokes [of mi s t cm k v i gs] one e1 assms Cons.prems(4)
    have "absent t mi (ki_clientID i)" by blast
    with auditModels_shrink [OF rest] show ?thesis by (blast intro: absent_mono)
  next
    case False
    with Cons.prems(2) have mem: "mi \<in> set mis" by simp
    then have "mi_Name mi \<in> mi_Name ` set mis" by blast
    with Cons.prems(3) have "mi_Name mi \<noteq> mi_Name mj" by auto
    moreover note mem
    moreover have "viewM t (ns, configMapName (mi_Name mi)) = Some cm"
      using auditModel_frame [OF one, of "(ns, configMapName (mi_Name mi))"] Cons.prems(4) calculation(1)
      by (simp add: configMapName_def)
    ultimately show ?thesis using Cons.IH [of t] rest e1 Cons.prems(3) by simp
  qed
qed simp

end

section \<open>The Secrets component under audit\<close>

definition NewAuditor ::
  "ModelInfo list \<Rightarrow> keyEnv \<Rightarrow> 'k Manager \<Rightarrow> (string \<Rightarrow> ('k, string list) action) \<Rightarrow> 'k Auditor" where
  "NewAuditor models env m lookup =
     \<lparr>au_ListModels = models, au_ListKeys = listKeys env m, au_RevokeKey = revokeKey m, au_lookup = lookup\<rparr>"

context key_stores
begin

lemma provides_audited_keys:
  assumes "\<forall>u s. viewS (snd (lk u s)) = viewS s \<and> viewM (snd (lk u s)) = viewM s"
  shows "audited_keys (NewAuditor ms env m lk) env (mgr_namespace m) viewS viewM"
proof (unfold_locales, goal_cases)
  case (1 mn s q s')
  then have run: "listKeys env m mn s = (q, s')" by (simp add: NewAuditor_def)
  show ?case
  proof (cases q)
    case (Inl e)
    with listKeys_views [OF run] show ?thesis by simp
  next
    case (Inr infos)
    from listKeys_spec [OF run [unfolded Inr]] Inr show ?thesis by auto
  qed
next
  case (2 mn cid s p s')
  then have run: "revokeKeyAttempts m mn cid maxRetries s = (p, s')" by (simp add: NewAuditor_def revokeKey_def)
  from revokeKeyAttempts_spec [OF run] revokeKeyAttempts_shrinks [OF run] show ?case
    unfolding gone_def by blast
next
  case (3 mn cid s p s' n)
  then show ?case
    using revokeKeyAttempts_other [of mn cid maxRetries s p s' n] by (simp add: NewAuditor_def revokeKey_def)
next
  case (4 u s g s')
  with assms show ?case by (metis NewAuditor_def select_convs(4) snd_conv)
qed

end

text \<open>A lookup that knows the groups of a few users and fails for the others.\<close>

definition sampleLookup :: "string gomap \<Rightarrow> string \<Rightarrow> ('s, string list) action" where
  "sampleLookup known u s =
     (case map_of known u of Some g \<Rightarrow> (Inr [g], s) | None \<Rightarrow> (Inl (errorf ''unknown user''), s))"

definition auditedModel :: ModelInfo where
  "auditedModel = \<lparr>mi_Name = ''m'', mi_Namespace = ''a'', mi_ModelName = ''org/m'', mi_Public = False,
     mi_Groups = [''ml''], mi_Passthrough = False, mi_Provider = []\<rparr>"

definition sampleAuditor :: "string gomap \<Rightarrow> cluster Auditor" where
  "sampleAuditor known = NewAuditor [auditedModel] sampleKeyEnv serverManager (sampleLookup known)"

lemma sampleLookup_views:
  "\<forall>u s. vS (snd (sampleLookup known u s)) = vS s \<and> vM (snd (sampleLookup known u s)) = vM s"
  by (auto simp: sampleLookup_def split: option.splits)

interpretation audited: audited_keys "sampleAuditor known" sampleKeyEnv "''llm''" secretsAt configmapsAt
  for known
proof -
  have "audited_keys (NewAuditor [auditedModel] sampleKeyEnv serverManager (sampleLookup known)) sampleKeyEnv
      (mgr_namespace serverManager) secretsAt configmapsAt"
    by (rule server.provides_audited_keys) (rule sampleLookup_views)
  then show "audited_keys (sampleAuditor known) sampleKeyEnv ''llm'' secretsAt configmapsAt"
    by (simp add: sampleAuditor_def serverManager_def)
qed

section \<open>Properties\<close>

text \<open>C25: an audit pass changes a credential only when it belongs to a model that is not public, its
  metadata names a creator, and looking that creator up gave groups none of which the model lists:
  a failed lookup, a public model or a shared group never costs a key.\<close>

theorem audit_revokes_only_lost_access:
  assumes "key_stores m vS vM"
    and "\<forall>u t. vS (snd (lk u t)) = vS t \<and> vM (snd (lk u t)) = vM t"
    and "RunOnce (NewAuditor ms env m lk) s = (r, s')"
  shows "map_option (\<lambda>x. map_of (sec_data x) k) (vS s' n) = map_option (\<lambda>x. map_of (sec_data x) k) (vS s n) \<or>
    (\<exists>mi \<in> set ms. \<not> mi_Public mi \<and> n = (mgr_namespace m, secretName (mi_Name mi)) \<and>
      (\<exists>cm k' v i. vM s (mgr_namespace m, configMapName (mi_Name mi)) = Some cm \<and>
        (k', v) \<in> set (cm_data cm) \<and> env_unmarshal env v = Some i \<and> ki_clientID i = k \<and>
        (\<exists>t t' gs. lk (ki_creator i) t = (Inr gs, t') \<and> set gs \<inter> set (mi_Groups mi) = {})))"
proof -
  have aud: "audited_keys (NewAuditor ms env m lk) env (mgr_namespace m) vS vM"
    by (rule key_stores.provides_audited_keys [OF assms(1)]) (rule assms(2))
  from audited_keys.RunOnce_justified [OF aud assms(3)]
  show ?thesis
    unfolding audited_keys.justified_def [OF aud] audited_keys.entry_def [OF aud]
      audited_keys.culprit_def [OF aud] audited_keys.lost_def [OF aud]
    by (simp add: NewAuditor_def del: split_paired_All split_paired_Ex)
qed

theorem audit_revokes_only_lost_access_witness:
  "map_option (\<lambda>x. map_of (sec_data x) ''k'')
     (secretsAt (snd (RunOnce (sampleAuditor [(''bob'', ''ml'')]) bobsKey)) (''llm'', ''m-api-keys'')) =
   map_option (\<lambda>x. map_of (sec_data x) ''k'') (secretsAt bobsKey (''llm'', ''m-api-keys''))"
proof -
  let ?run = "RunOnce (sampleAuditor [(''bob'', ''ml'')]) bobsKey"
  have run: "RunOnce (NewAuditor [auditedModel] sampleKeyEnv serverManager
      (sampleLookup [(''bob'', ''ml'')])) bobsKey = (fst ?run, snd ?run)"
    by (simp add: sampleAuditor_def)
  have no: "\<not> (\<exists>(t :: cluster) t' gs. sampleLookup [(''bob'', ''ml'')] ''bob'' t = (Inr gs, t') \<and>
      set gs \<inter> set (mi_Groups auditedModel) = {})"
    by (auto simp: sampleLookup_def auditedModel_def)
  have ns: "mgr_namespace serverManager = ''llm''" by (simp add: serverManager_def)
  note audit_revokes_only_lost_access [where m = serverManager and vS = secretsAt and vM = configmapsAt
      and lk = "sampleLookup [(''bob'', ''ml'')]" and k = "''k''" and n = "(''llm'', ''m-api-keys'')",
      OF server.key_stores_axioms sampleLookup_views run]
  with no bobsKey_info show ?thesis by (auto simp: ns auditedModel_def configMapName_def)
qed

text \<open>A pass that reports no error leaves no credential of a private model whose metadata names a
  creator that every lookup finds in none of the model's groups (model names being distinct).\<close>

theorem audit_clean_pass_revokes_all_lost:
  assumes "key_stores m vS vM"
    and "\<forall>u t. vS (snd (lk u t)) = vS t \<and> vM (snd (lk u t)) = vM t"
    and "RunOnce (NewAuditor ms env m lk) s = (None, s')"
    and "distinct (map mi_Name ms)" and "mi \<in> set ms" and "\<not> mi_Public mi"
    and "vM s (mgr_namespace m, configMapName (mi_Name mi)) = Some cm" and "(k, v) \<in> set (cm_data cm)"
    and "env_unmarshal env v = Some i"
    and "\<And>t. \<exists>t'. lk (ki_creator i) t = (Inr gs, t')" and "set gs \<inter> set (mi_Groups mi) = {}"
  shows "\<exists>x. vS s' (mgr_namespace m, secretName (mi_Name mi)) = Some x \<and>
    map_of (sec_data x) (ki_clientID i) = None"
proof -
  have aud: "audited_keys (NewAuditor ms env m lk) env (mgr_namespace m) vS vM"
    by (rule key_stores.provides_audited_keys [OF assms(1)]) (rule assms(2))
  have "fold (auditModel (NewAuditor ms env m lk)) ms ([], s) = ([], s')"
    using assms(3) by (auto simp: RunOnce_def NewAuditor_def split: prod.splits if_splits)
  moreover have "\<exists>t'. au_lookup (NewAuditor ms env m lk) (ki_creator i) t = (Inr gs, t')" for t
    using assms(10) by (simp add: NewAuditor_def)
  ultimately show ?thesis
    using audited_keys.auditModels_revoke [OF aud _ assms(11) assms(8,9,6), of ms s s'] assms(4,5,7)
    unfolding audited_keys.absent_def [OF aud] by blast
qed

theorem audit_clean_pass_revokes_all_lost_witness:
  "\<exists>x. secretsAt (snd (RunOnce (sampleAuditor [(''bob'', ''sales'')]) (sampleCluster [] [([], ''v'')] [([], ''bob'')])))
     (''llm'', ''m-api-keys'') = Some x \<and> map_of (sec_data x) [] = None"
proof -
  let ?s = "sampleCluster [] [([], ''v'')] [([], ''bob'')]"
  let ?run = "RunOnce (sampleAuditor [(''bob'', ''sales'')]) ?s"
  let ?i = "\<lparr>ki_clientID = [], ki_creator = ''bob'', ki_description = [],
       ki_createdAt = 0, ki_modelName = [], ki_namespace = []\<rparr>"
  have "fst ?run = None" by code_simp
  then have run: "RunOnce (NewAuditor [auditedModel] sampleKeyEnv serverManager
      (sampleLookup [(''bob'', ''sales'')])) ?s = (None, snd ?run)"
    by (simp add: sampleAuditor_def prod_eq_iff)
  have cm: "configmapsAt ?s (mgr_namespace serverManager, configMapName (mi_Name auditedModel)) =
      Some (sampleConfigMap [([], ''bob'')])"
    by (simp add: configmapsAt_def sampleCluster_def visible_def sampleConfigMap_def serverManager_def
        configMapName_def auditedModel_def newMeta_def metaKey_def alive_def)
  have "\<exists>x. secretsAt (snd ?run) (mgr_namespace serverManager, secretName (mi_Name auditedModel)) = Some x \<and>
      map_of (sec_data x) (ki_clientID ?i) = None"
    by (rule audit_clean_pass_revokes_all_lost [OF server.key_stores_axioms sampleLookup_views run _ _ _ cm,
          where gs = "[''sales'']" and k = "[]" and v = "''bob''"])
      (auto simp: sampleLookup_def auditedModel_def sampleConfigMap_def sampleKeyEnv_def split: option.splits if_splits)
  then show ?thesis by (simp add: serverManager_def secretName_def auditedModel_def)
qed

end
