(* ===== verification/Jwt.thy ===== *)
theory Jwt
  imports Digest Middleware
begin

text \<open>
  \<open>key-manager/internal/api/jwt_validator.go\<close>: the validator of bearer tokens. Its state is the
  record \<open>JWTValidator\<close>; the outside world \<open>'w\<close> (Keycloak, the clock, the stop channel) is read
  through a record of functions. The token library golang-jwt is one of them: the locale
  \<open>jwt_library\<close> names its documented behaviour. \<open>singleflight\<close> lets callbacks under one key run
  one at a time, so each refresh is one step; the context of a request, which only bounds how
  long a caller waits, is left out, and so are the log lines.
\<close>

section \<open>Constants, keys and state\<close>

definition second :: int where "second = 1000000000"
definition defaultRetryMaxAttempts :: nat where "defaultRetryMaxAttempts = 5"
definition defaultRetryInitialBackoff :: int where "defaultRetryInitialBackoff = 2 * second"
definition defaultSlowPollInterval :: int where "defaultSlowPollInterval = 30 * second"
definition defaultKeyRefreshInterval :: int where "defaultKeyRefreshInterval = 3600 * second"
definition clockLeeway :: int where "clockLeeway = 30 * second"
definition unknownKIDCooldown :: int where "unknownKIDCooldown = 30 * second"
definition maxJWKSBytes :: int where "maxJWKSBytes = 1048576"

definition ErrNotReady :: gerror where
  "ErrNotReady = \<lparr>errText = ''jwt validator: initial JWKS fetch not yet complete'', errCause = CNotReady\<rparr>"

definition errKIDRefreshCooldown :: gerror where
  "errKIDRefreshCooldown =
     \<lparr>errText = ''unknown-kid JWKS refresh suppressed by cooldown'', errCause = CCooldown\<rparr>"

record jwk =
  jwk_Kty :: string
  jwk_Kid :: string
  jwk_Use :: string
  jwk_N :: string
  jwk_E :: string

record jwks =
  jwks_Keys :: "jwk list"

text \<open>\<open>rsa.PublicKey\<close>: the modulus is a big integer, the exponent a Go \<open>int\<close>.\<close>

record rsaKey =
  rsa_N :: nat
  rsa_E :: "64 word"

record JWTValidator =
  jv_keycloakURL :: string
  jv_issuerURL :: string
  jv_realm :: string
  jv_expectedClientID :: string
  jv_publicKeys :: "rsaKey gomap"
  jv_lastKIDRefresh :: int
  jv_ready :: bool
  jv_retryMaxAttempts :: nat
  jv_retryInitialBackoff :: int
  jv_slowPollInterval :: int
  jv_keyRefreshInterval :: int

text \<open>What the library reports of a token's header: is the method the plain RSA one, its name, the kid.\<close>

record tokenHeader =
  th_rsa :: bool
  th_alg :: string
  th_kid :: "string option"

type_synonym 'w jstate = "JWTValidator \<times> 'w"

record 'w jwtEnv =
  je_newRequest :: "string \<Rightarrow> gerror option"
  je_do :: "string \<Rightarrow> 'w \<Rightarrow> (gerror + nat \<times> string) \<times> 'w"
  je_decode :: "string \<Rightarrow> gerror + jwks"
  je_now :: "'w \<Rightarrow> int"
  je_wait :: "int \<Rightarrow> 'w \<Rightarrow> 'w"
  je_stopped :: "'w \<Rightarrow> bool"
  je_parse :: "string \<Rightarrow> (tokenHeader \<Rightarrow> ('w jstate, rsaKey) action) \<Rightarrow> int \<Rightarrow>
     ('w jstate, claims \<times> bool) action"

definition NewJWTValidator :: "string \<Rightarrow> string \<Rightarrow> JWTValidator" where
  "NewJWTValidator keycloakURL realm =
     (let cleanURL = trimSuffix keycloakURL ''/''
      in \<lparr>jv_keycloakURL = cleanURL, jv_issuerURL = cleanURL, jv_realm = realm,
          jv_expectedClientID = [], jv_publicKeys = [], jv_lastKIDRefresh = 0, jv_ready = False,
          jv_retryMaxAttempts = defaultRetryMaxAttempts,
          jv_retryInitialBackoff = defaultRetryInitialBackoff,
          jv_slowPollInterval = defaultSlowPollInterval,
          jv_keyRefreshInterval = defaultKeyRefreshInterval\<rparr>)"

definition SetIssuerURL :: "string \<Rightarrow> JWTValidator \<Rightarrow> JWTValidator" where
  "SetIssuerURL url v = (if url = [] then v else v\<lparr>jv_issuerURL := trimSuffix url ''/''\<rparr>)"

definition SetExpectedClientID :: "string \<Rightarrow> JWTValidator \<Rightarrow> JWTValidator" where
  "SetExpectedClientID clientID v = v\<lparr>jv_expectedClientID := clientID\<rparr>"

section \<open>Fetching the key set\<close>

text \<open>\<open>big.Int.SetBytes\<close> is the big-endian value; the exponent is folded in 64-bit arithmetic.\<close>

definition setBytes :: "bytes \<Rightarrow> nat" where
  "setBytes bs = fold (\<lambda>b n. n * 256 + of_char b) bs 0"

definition foldExponent :: "bytes \<Rightarrow> 64 word" where
  "foldExponent bs = fold (\<lambda>b e. e * 256 + word_of_nat (of_char b)) bs 0"

definition parseRSAPublicKey :: "jwk \<Rightarrow> gerror + rsaKey" where
  "parseRSAPublicKey k =
     (case rawURLDecode (jwk_N k) of
        None \<Rightarrow> Inl (errorf ''failed to decode N: illegal base64 data'')
      | Some nBytes \<Rightarrow>
          (case rawURLDecode (jwk_E k) of
             None \<Rightarrow> Inl (errorf ''failed to decode E: illegal base64 data'')
           | Some eBytes \<Rightarrow> Inr \<lparr>rsa_N = setBytes nBytes, rsa_E = foldExponent eBytes\<rparr>))"

definition addKey :: "jwk \<Rightarrow> rsaKey gomap \<Rightarrow> rsaKey gomap" where
  "addKey k keys =
     (if jwk_Kty k \<noteq> ''RSA'' then keys
      else case parseRSAPublicKey k of Inl e \<Rightarrow> keys | Inr pk \<Rightarrow> AList.update (jwk_Kid k) pk keys)"

definition certsURL :: "JWTValidator \<Rightarrow> string" where
  "certsURL v = jv_keycloakURL v @ ''/realms/'' @ jv_realm v @ ''/protocol/openid-connect/certs''"

definition limitReader :: "string \<Rightarrow> int \<Rightarrow> string" where
  "limitReader b n = (if int (length b) \<le> n then b else take (nat n) b)"

definition fetchPublicKeys :: "'w jwtEnv \<Rightarrow> ('w jstate, unit) action" where
  "fetchPublicKeys env s =
     (case s of (v, w) \<Rightarrow>
        (case je_newRequest env (certsURL v) of
           Some e \<Rightarrow> (Inl (wrapErr ''failed to create request'' e), (v, w))
         | None \<Rightarrow>
             (case je_do env (certsURL v) w of
                (Inl e, w') \<Rightarrow> (Inl (wrapErr ''failed to fetch keys'' e), (v, w'))
              | (Inr (status, respBody), w') \<Rightarrow>
                  if status \<noteq> 200
                  then (Inl (errorf (''failed to fetch keys: status '' @ itoa status)), (v, w'))
                  else
                    (case je_decode env (limitReader respBody maxJWKSBytes) of
                       Inl e \<Rightarrow> (Inl (wrapErr ''failed to decode JWKS'' e), (v, w'))
                     | Inr keySet \<Rightarrow>
                         let keys = fold addKey (jwks_Keys keySet) []
                         in if keys = [] then (Inl (errorf ''no valid RSA keys found''), (v, w'))
                            else (Inr (), (v\<lparr>jv_publicKeys := keys\<rparr>, w'))))))"

text \<open>The two users of the flight group.\<close>

definition refreshKeys :: "'w jwtEnv \<Rightarrow> ('w jstate, unit) action" where
  "refreshKeys env = fetchPublicKeys env"

definition suppressed :: "JWTValidator \<Rightarrow> int \<Rightarrow> bool" where
  "suppressed v now \<longleftrightarrow> jv_lastKIDRefresh v \<noteq> 0 \<and> now - jv_lastKIDRefresh v < unknownKIDCooldown"

definition refreshForUnknownKID :: "'w jwtEnv \<Rightarrow> ('w jstate, unit) action" where
  "refreshForUnknownKID env s =
     (case s of (v, w) \<Rightarrow>
        let now = je_now env w
        in if suppressed v now then (Inl errKIDRefreshCooldown, (v, w))
           else fetchPublicKeys env (v\<lparr>jv_lastKIDRefresh := now\<rparr>, w))"

section \<open>The background goroutine\<close>

text \<open>
  The active attempts: \<open>None\<close> when the budget is exhausted, otherwise the value \<open>initialFetch\<close>
  returns. The slow poll may go on forever; when the stop channel and the timer are both ready,
  the model takes the stop.
\<close>

fun activeFetch :: "'w jwtEnv \<Rightarrow> nat \<Rightarrow> int \<Rightarrow> 'w jstate \<Rightarrow> bool option \<times> 'w jstate" where
  "activeFetch env 0 backoff s = (None, s)"
| "activeFetch env (Suc k) backoff s =
     (if je_stopped env (snd s) then (Some False, s)
      else case fetchPublicKeys env s of
        (Inr _, (v, w)) \<Rightarrow> (Some True, (v\<lparr>jv_ready := True\<rparr>, w))
      | (Inl e, (v, w)) \<Rightarrow>
          activeFetch env k (backoff * 2) (v, if k > 0 then je_wait env backoff w else w))"

partial_function (option) slowPoll :: "'w jwtEnv \<Rightarrow> 'w jstate \<Rightarrow> (bool \<times> 'w jstate) option" where
  "slowPoll env s =
     (let w = je_wait env (jv_slowPollInterval (fst s)) (snd s)
      in if je_stopped env w then Some (False, (fst s, w))
         else case fetchPublicKeys env (fst s, w) of
           (Inr _, t) \<Rightarrow> Some (True, ((fst t)\<lparr>jv_ready := True\<rparr>, snd t))
         | (Inl e, t) \<Rightarrow> slowPoll env t)"

definition initialFetch :: "'w jwtEnv \<Rightarrow> 'w jstate \<Rightarrow> (bool \<times> 'w jstate) option" where
  "initialFetch env s =
     (case activeFetch env (jv_retryMaxAttempts (fst s)) (jv_retryInitialBackoff (fst s)) s of
        (Some b, t) \<Rightarrow> Some (b, t)
      | (None, t) \<Rightarrow> slowPoll env t)"

text \<open>
  A failed refresh is logged only; the loop ends when the stop channel is closed. \<open>refreshTicks\<close>
  is the state of the loop after at most \<open>n\<close> ticks.
\<close>

partial_function (option) refreshLoop :: "'w jwtEnv \<Rightarrow> 'w jstate \<Rightarrow> 'w jstate option" where
  "refreshLoop env s =
     (let w = je_wait env (jv_keyRefreshInterval (fst s)) (snd s)
      in if je_stopped env w then Some (fst s, w)
         else refreshLoop env (snd (refreshKeys env (fst s, w))))"

fun refreshTicks :: "'w jwtEnv \<Rightarrow> nat \<Rightarrow> 'w jstate \<Rightarrow> 'w jstate" where
  "refreshTicks env 0 s = s"
| "refreshTicks env (Suc n) s =
     (let w = je_wait env (jv_keyRefreshInterval (fst s)) (snd s)
      in if je_stopped env w then (fst s, w)
         else refreshTicks env n (snd (refreshKeys env (fst s, w))))"

text \<open>The whole goroutine: \<open>Some\<close> state when it exits and closes \<open>doneCh\<close>.\<close>

definition initLoop :: "'w jwtEnv \<Rightarrow> 'w jstate \<Rightarrow> 'w jstate option" where
  "initLoop env s =
     (case initialFetch env s of
        None \<Rightarrow> None
      | Some (b, t) \<Rightarrow> if b then refreshLoop env t else Some t)"

definition Ready :: "JWTValidator \<Rightarrow> bool" where
  "Ready v \<longleftrightarrow> jv_ready v"

section \<open>Validating a token\<close>

definition keyFunc :: "'w jwtEnv \<Rightarrow> tokenHeader \<Rightarrow> ('w jstate, rsaKey) action" where
  "keyFunc env token s =
     (if \<not> th_rsa token then (Inl (errorf (''unexpected signing method: '' @ th_alg token)), s)
      else case th_kid token of
        None \<Rightarrow> (Inl (errorf ''missing kid in token header''), s)
      | Some kid \<Rightarrow>
          (case map_of (jv_publicKeys (fst s)) kid of
             Some publicKey \<Rightarrow> (Inr publicKey, s)
           | None \<Rightarrow>
               let s' = snd (refreshForUnknownKID env s)
               in (case map_of (jv_publicKeys (fst s')) kid of
                     None \<Rightarrow> (Inl (errorf (''unknown key ID: '' @ kid @ '' (not found after key refresh)'')), s')
                   | Some publicKey \<Rightarrow> (Inr publicKey, s'))))"

definition expectedIssuer :: "JWTValidator \<Rightarrow> string" where
  "expectedIssuer v = jv_issuerURL v @ ''/realms/'' @ jv_realm v"

definition ValidateToken :: "'w jwtEnv \<Rightarrow> string \<Rightarrow> ('w jstate, claims) action" where
  "ValidateToken env tokenString s =
     (if \<not> jv_ready (fst s) then (Inl ErrNotReady, s)
      else case je_parse env tokenString (keyFunc env) clockLeeway s of
        (Inl e, s') \<Rightarrow> (Inl (wrapErr ''token validation failed'' e), s')
      | (Inr (claims, valid), s') \<Rightarrow>
          if \<not> valid then (Inl (errorf ''invalid token''), s')
          else
            let iss = strOr (map_of claims ''iss''); azp = strOr (map_of claims ''azp'')
            in if iss \<noteq> expectedIssuer (fst s')
               then (Inl (errorf (''invalid issuer: expected '' @ expectedIssuer (fst s') @ '', got '' @ iss)), s')
               else if jv_expectedClientID (fst s') \<noteq> [] \<and> azp \<noteq> jv_expectedClientID (fst s')
               then (Inl (errorf (''invalid azp: expected '' @ jv_expectedClientID (fst s') @ '', got '' @ azp)), s')
               else (Inr claims, s'))"

section \<open>What a fetch does\<close>

text \<open>The configuration of the validator, which no operation changes after start-up.\<close>

definition sameConfig :: "JWTValidator \<Rightarrow> JWTValidator \<Rightarrow> bool" where
  "sameConfig v v' \<longleftrightarrow> jv_keycloakURL v' = jv_keycloakURL v \<and> jv_issuerURL v' = jv_issuerURL v \<and>
     jv_realm v' = jv_realm v \<and> jv_expectedClientID v' = jv_expectedClientID v \<and>
     jv_slowPollInterval v' = jv_slowPollInterval v"

lemma sameConfig_refl [simp]: "sameConfig v v"
  by (simp add: sameConfig_def)

lemma sameConfig_trans: "sameConfig u v \<Longrightarrow> sameConfig v w \<Longrightarrow> sameConfig u w"
  by (simp add: sameConfig_def)

lemma fetch_cases:
  assumes "fetchPublicKeys env (v, w) = (r, (v', w'))"
  shows "(\<exists>e. r = Inl e) \<and> v' = v \<or>
    r = Inr () \<and> (\<exists>keys. keys \<noteq> [] \<and> v' = v\<lparr>jv_publicKeys := keys\<rparr>)"
proof -
  obtain q u where d: "je_do env (certsURL v) w = (q, u)" by fastforce
  show ?thesis
  proof (cases "je_newRequest env (certsURL v)")
    case (Some e)
    with assms show ?thesis by (auto simp: fetchPublicKeys_def)
  next
    case None
    show ?thesis
    proof (cases q)
      case (Inl e)
      with assms None d show ?thesis by (auto simp: fetchPublicKeys_def)
    next
      case (Inr p)
      obtain status respBody where "p = (status, respBody)" by fastforce
      with assms None d Inr show ?thesis
        by (cases "je_decode env (limitReader respBody maxJWKSBytes)")
          (auto simp: fetchPublicKeys_def Let_def split: if_splits)
    qed
  qed
qed

definition online :: "JWTValidator \<Rightarrow> bool" where
  "online v \<longleftrightarrow> (jv_ready v \<longrightarrow> jv_publicKeys v \<noteq> [])"

lemma fetch_state:
  assumes "fetchPublicKeys env s = (r, s')"
  shows "sameConfig (fst s) (fst s') \<and> jv_ready (fst s') = jv_ready (fst s) \<and>
    jv_lastKIDRefresh (fst s') = jv_lastKIDRefresh (fst s) \<and>
    (online (fst s) \<longrightarrow> online (fst s')) \<and>
    (isl r \<longrightarrow> fst s' = fst s) \<and> (r = Inr () \<longrightarrow> jv_publicKeys (fst s') \<noteq> [])"
  using fetch_cases [of env "fst s" "snd s" r "fst s'" "snd s'"] assms
  by (auto simp: sameConfig_def online_def)

lemma refreshUnknown_state:
  assumes "refreshForUnknownKID env s = (r, s')"
  shows "sameConfig (fst s) (fst s') \<and> jv_ready (fst s') = jv_ready (fst s) \<and>
    (online (fst s) \<longrightarrow> online (fst s'))"
proof (cases "suppressed (fst s) (je_now env (snd s))")
  case True
  with assms show ?thesis by (cases s) (auto simp: refreshForUnknownKID_def)
next
  case False
  let ?v = "(fst s)\<lparr>jv_lastKIDRefresh := je_now env (snd s)\<rparr>"
  from False assms have "fetchPublicKeys env (?v, snd s) = (r, s')"
    by (cases s) (auto simp: refreshForUnknownKID_def Let_def)
  from fetch_state [OF this] show ?thesis by (auto simp: sameConfig_def online_def)
qed

lemma keyFunc_state:
  assumes "keyFunc env h s = (r, s')"
  shows "sameConfig (fst s) (fst s') \<and> jv_ready (fst s') = jv_ready (fst s) \<and>
    (online (fst s) \<longrightarrow> online (fst s')) \<and>
    (\<forall>pk. r = Inr pk \<longrightarrow> th_rsa h \<and> (\<exists>kid. th_kid h = Some kid \<and> map_of (jv_publicKeys (fst s')) kid = Some pk))"
proof -
  obtain q t where "refreshForUnknownKID env s = (q, t)" by (metis prod.collapse)
  with refreshUnknown_state [OF this] assms show ?thesis
    by (auto simp: keyFunc_def Let_def split: if_splits option.splits)
qed

section \<open>The token library\<close>

text \<open>
  \<open>jwt.ParseWithClaims\<close> as documented: a token is accepted only when the key function, called
  on its header, returned a key, the signature verifies under that key, and the registered time
  claims hold up to the leeway; whatever it answers, it did nothing but call the key function.
\<close>

locale jwt_library =
  fixes parse :: "string \<Rightarrow> (tokenHeader \<Rightarrow> ('w jstate, rsaKey) action) \<Rightarrow> int \<Rightarrow>
      ('w jstate, claims \<times> bool) action"
    and signedBy :: "string \<Rightarrow> rsaKey \<Rightarrow> bool"
    and headerOf :: "string \<Rightarrow> tokenHeader option"
    and claimsOf :: "string \<Rightarrow> claims"
    and timely :: "'w jstate \<Rightarrow> int \<Rightarrow> claims \<Rightarrow> bool"
  assumes accepts: "parse tok kf lw s = (Inr (c, valid), s') \<Longrightarrow>
      (\<exists>h k. headerOf tok = Some h \<and> kf h s = (Inr k, s') \<and> signedBy tok k) \<and>
      c = claimsOf tok \<and> timely s' lw c \<and> valid"
    and rejects: "parse tok kf lw s = (Inl e, s') \<Longrightarrow>
      s' = s \<or> (\<exists>h. headerOf tok = Some h \<and> s' = snd (kf h s))"
begin

lemma parse_state:
  assumes "parse tok kf lw s = (q, t)"
  shows "t = s \<or> (\<exists>h. t = snd (kf h s))"
proof (cases q)
  case (Inl e)
  with rejects [of tok kf lw s e t] assms show ?thesis by blast
next
  case (Inr cv)
  then obtain c valid where "q = Inr (c, valid)" by (cases cv) auto
  with accepts [of tok kf lw s c valid t] assms obtain h k where "kf h s = (Inr k, t)" by blast
  then have "t = snd (kf h s)" by simp
  then show ?thesis by blast
qed

lemma accepted_token:
  assumes ok: "ValidateToken env tok s = (Inr c, s')" and parse: "je_parse env = parse"
  shows "jv_ready (fst s) \<and> c = claimsOf tok \<and> timely s' clockLeeway c \<and> sameConfig (fst s) (fst s') \<and>
    (\<exists>h kid pk. headerOf tok = Some h \<and> th_rsa h \<and> th_kid h = Some kid \<and>
       map_of (jv_publicKeys (fst s')) kid = Some pk \<and> signedBy tok pk) \<and>
    strOr (map_of c ''iss'') = expectedIssuer (fst s) \<and>
    (jv_expectedClientID (fst s) = [] \<or> strOr (map_of c ''azp'') = jv_expectedClientID (fst s))"
proof -
  obtain q t where p: "parse tok (keyFunc env) clockLeeway s = (q, t)" by (metis prod.collapse)
  from ok p parse obtain valid where q: "q = Inr (c, valid)" and t: "s' = t"
    and chk: "strOr (map_of c ''iss'') = expectedIssuer (fst t)"
      "jv_expectedClientID (fst t) = [] \<or> strOr (map_of c ''azp'') = jv_expectedClientID (fst t)"
    and rdy: "jv_ready (fst s)"
    by (cases q) (auto simp: ValidateToken_def Let_def split: if_splits)
  from accepts [OF p [unfolded q]] obtain h k where h: "headerOf tok = Some h"
    "keyFunc env h s = (Inr k, t)" "signedBy tok k" and c: "c = claimsOf tok" "timely t clockLeeway c"
    by blast
  from keyFunc_state [OF h(2)] h c chk rdy t show ?thesis
    by (auto simp: sameConfig_def expectedIssuer_def)
qed

lemma validate_online:
  assumes run: "ValidateToken env tok s = (r, s')" and parse: "je_parse env = parse"
    and on: "online (fst s)"
  shows "online (fst s')"
proof -
  obtain q t where p: "parse tok (keyFunc env) clockLeeway s = (q, t)" by (metis prod.collapse)
  have "online (fst t)"
  proof (cases q)
    case (Inl e)
    from rejects [OF p [unfolded Inl]] on show ?thesis
      using keyFunc_state by (metis prod.collapse)
  next
    case (Inr cv)
    then obtain c valid where "q = Inr (c, valid)" by (cases cv) auto
    from accepts [OF p [unfolded this]] on show ?thesis
      using keyFunc_state by metis
  qed
  with run p parse on show ?thesis
    by (cases q) (auto simp: ValidateToken_def Let_def split: if_splits)
qed

end

text \<open>
  The library as the composition of its parts: split and decode the token, ask for the key,
  verify, check the claims.
\<close>

definition composedParse ::
  "(string \<Rightarrow> tokenHeader option) \<Rightarrow> (string \<Rightarrow> claims) \<Rightarrow> (string \<Rightarrow> rsaKey \<Rightarrow> bool) \<Rightarrow>
   ('s \<Rightarrow> int \<Rightarrow> claims \<Rightarrow> bool) \<Rightarrow> string \<Rightarrow> (tokenHeader \<Rightarrow> ('s, rsaKey) action) \<Rightarrow> int \<Rightarrow>
   ('s, claims \<times> bool) action" where
  "composedParse headerOf claimsOf signedBy timely tok kf lw s =
     (case headerOf tok of
        None \<Rightarrow> (Inl (errorf ''token is malformed''), s)
      | Some h \<Rightarrow>
          (case kf h s of
             (Inl e, s') \<Rightarrow> (Inl (wrapErr ''token is unverifiable: error while executing keyfunc'' e), s')
           | (Inr k, s') \<Rightarrow>
               if \<not> signedBy tok k then (Inl (errorf ''token signature is invalid''), s')
               else if \<not> timely s' lw (claimsOf tok) then (Inl (errorf ''token has invalid claims''), s')
               else (Inr (claimsOf tok, True), s')))"

interpretation composed: jwt_library "composedParse headerOf claimsOf signedBy timely"
  signedBy headerOf claimsOf timely
  for headerOf claimsOf signedBy timely
  by unfold_locales
    (auto simp: composedParse_def split: option.splits prod.splits sum.splits if_splits)

section \<open>Fetches over time\<close>

text \<open>
  The validator with a record of its traffic: \<open>recorded\<close> is the same outside world with a log to
  which every HTTP request appends the time at which it is sent. A life of the validator mixes
  time that passes (and changes the world), refreshes of the background loop, and tokens to
  validate; the log is that of the requests the tokens cause.
\<close>

definition recorded ::
  "'w jwtEnv \<Rightarrow>
   (string \<Rightarrow> (tokenHeader \<Rightarrow> (('w \<times> int list) jstate, rsaKey) action) \<Rightarrow> int \<Rightarrow>
     (('w \<times> int list) jstate, claims \<times> bool) action) \<Rightarrow> ('w \<times> int list) jwtEnv" where
  "recorded env parse =
     \<lparr>je_newRequest = je_newRequest env,
      je_do = (\<lambda>u w. case je_do env u (fst w) of (q, w') \<Rightarrow> (q, (w', snd w @ [je_now env (fst w)]))),
      je_decode = je_decode env, je_now = (\<lambda>w. je_now env (fst w)),
      je_wait = (\<lambda>d w. (je_wait env d (fst w), snd w)), je_stopped = (\<lambda>w. je_stopped env (fst w)),
      je_parse = parse\<rparr>"

datatype 'w validatorEvent = Elapse "'w \<Rightarrow> 'w" | Refresh | Validate string

fun validatorStep ::
  "'w jwtEnv \<Rightarrow>
   (string \<Rightarrow> (tokenHeader \<Rightarrow> (('w \<times> int list) jstate, rsaKey) action) \<Rightarrow> int \<Rightarrow>
     (('w \<times> int list) jstate, claims \<times> bool) action) \<Rightarrow>
   'w validatorEvent \<Rightarrow> ('w \<times> int list) jstate \<Rightarrow> ('w \<times> int list) jstate" where
  "validatorStep env parse (Elapse f) (v, w, log) = (v, f w, log)"
| "validatorStep env parse Refresh (v, w, log) = (case refreshKeys env (v, w) of (q, v', w') \<Rightarrow> (v', w', log))"
| "validatorStep env parse (Validate tok) s = snd (ValidateToken (recorded env parse) tok s)"

text \<open>Every logged time lies a cooldown behind the one before, and none lies behind the last stamp.\<close>

definition spacedLog :: "('w \<times> int list) jstate \<Rightarrow> bool" where
  "spacedLog s \<longleftrightarrow> sorted_wrt (\<lambda>a b. a + unknownKIDCooldown \<le> b) (snd (snd s)) \<and>
     (\<forall>t \<in> set (snd (snd s)). jv_lastKIDRefresh (fst s) \<noteq> 0 \<and> t \<le> jv_lastKIDRefresh (fst s))"

lemma fetch_log:
  "snd (snd (snd (fetchPublicKeys (recorded env parse) (v, w, log)))) \<in> {log, log @ [je_now env w]}"
  by (auto simp: fetchPublicKeys_def recorded_def Let_def split: option.splits sum.splits prod.splits)

lemma refreshUnknown_spaced:
  assumes "spacedLog s" and "\<forall>w. 0 < je_now env w"
  shows "spacedLog (snd (refreshForUnknownKID (recorded env parse) s))"
proof -
  obtain v w log where s: "s = (v, w, log)" by (cases s) auto
  let ?now = "je_now env w"
  show ?thesis
  proof (cases "suppressed v ?now")
    case True
    with assms s show ?thesis by (simp add: refreshForUnknownKID_def recorded_def)
  next
    case False
    let ?v = "v\<lparr>jv_lastKIDRefresh := ?now\<rparr>"
    obtain q t where f: "fetchPublicKeys (recorded env parse) (?v, w, log) = (q, t)" by (metis prod.collapse)
    with False s have t: "snd (refreshForUnknownKID (recorded env parse) s) = t"
      by (simp add: refreshForUnknownKID_def Let_def) (simp add: recorded_def)
    have stamp: "jv_lastKIDRefresh (fst t) = ?now" using fetch_state [OF f] by simp
    have pos: "0 < unknownKIDCooldown" by (simp add: unknownKIDCooldown_def second_def)
    have behind: "\<forall>x \<in> set log. x + unknownKIDCooldown \<le> ?now"
      using assms(1) False s by (auto simp: spacedLog_def suppressed_def)
    have "snd (snd t) \<in> {log, log @ [?now]}" using fetch_log [of env parse ?v w log] f by simp
    moreover have "?now \<noteq> 0" using assms(2) [rule_format, of w] by simp
    moreover have "\<forall>x \<in> set log. x \<le> ?now" using behind pos by fastforce
    moreover have "sorted_wrt (\<lambda>a b. a + unknownKIDCooldown \<le> b) log"
      using assms(1) s by (simp_all add: spacedLog_def)
    ultimately show ?thesis using behind unfolding t spacedLog_def stamp by (auto simp: sorted_wrt_append)
  qed
qed

context jwt_library
begin

text \<open>What holds before a validation holds behind it when the refresh for an unknown key keeps it.\<close>

lemma validate_keeps:
  assumes "je_parse env = parse" and "P s" and "P (snd (refreshForUnknownKID env s))"
  shows "P (snd (ValidateToken env tok s))"
proof -
  obtain q t where p: "parse tok (keyFunc env) clockLeeway s = (q, t)" by (metis prod.collapse)
  have "P (snd (keyFunc env h s))" for h
    using assms(2,3) by (auto simp: keyFunc_def Let_def split: option.splits)
  with parse_state [OF p] assms(2) have "P t" by auto
  with p assms show ?thesis
    by (auto simp: ValidateToken_def Let_def split: sum.splits)
qed

end

lemma validatorSteps_spaced:
  assumes "jwt_library parse signedBy headerOf claimsOf timely" and "\<forall>w. 0 < je_now env w"
  shows "spacedLog s \<Longrightarrow> spacedLog (fold (validatorStep env parse) steps s)"
proof (induction steps arbitrary: s)
  case (Cons a steps)
  obtain v w log where s: "s = (v, w, log)" by (cases s) auto
  have "spacedLog (validatorStep env parse a s)"
  proof (cases a)
    case (Elapse f)
    with Cons.prems s show ?thesis by (simp add: spacedLog_def)
  next
    case Refresh
    obtain q v' w' where f: "fetchPublicKeys env (v, w) = (q, v', w')" by (metis prod.collapse)
    with fetch_state [OF f] Cons.prems s Refresh show ?thesis by (simp add: spacedLog_def refreshKeys_def)
  next
    case (Validate tok)
    have "je_parse (recorded env parse) = parse" by (simp add: recorded_def)
    from jwt_library.validate_keeps [where P = spacedLog, OF assms(1) this Cons.prems
        refreshUnknown_spaced [OF Cons.prems assms(2)]] Validate
    show ?thesis by simp
  qed
  with Cons.IH show ?case by simp
qed simp

lemma spaced_bound:
  assumes "sorted_wrt (\<lambda>a b. a + (c :: int) \<le> b) xs" and "\<forall>x \<in> set xs. lo \<le> x \<and> x \<le> hi" and "xs \<noteq> []"
  shows "(int (length xs) - 1) * c \<le> hi - lo"
  using assms
proof (induction xs arbitrary: lo)
  case (Cons x xs)
  show ?case
  proof (cases "xs = []")
    case True
    with Cons.prems show ?thesis by auto
  next
    case False
    with Cons.prems have "(int (length xs) - 1) * c \<le> hi - (x + c)"
      by (intro Cons.IH) auto
    with Cons.prems show ?thesis by (simp add: algebra_simps)
  qed
qed simp

section \<open>Coming online\<close>

lemma all_Suc_le: "(\<forall>i \<le> Suc n. P i) \<longleftrightarrow> P 0 \<and> (\<forall>i \<le> n. P (Suc i))"
  by (metis Suc_le_mono not0_implies_Suc zero_le)

lemma all_Suc_less: "(\<forall>i < Suc n. P i) \<longleftrightarrow> P 0 \<and> (\<forall>i < n. P (Suc i))"
  by (metis Suc_less_eq not0_implies_Suc zero_less_Suc)

text \<open>The state before the \<open>n\<close>-th fetch of the slow poll, when all earlier ones failed.\<close>

definition pollWait :: "'w jwtEnv \<Rightarrow> 'w jstate \<Rightarrow> 'w jstate" where
  "pollWait env s = (fst s, je_wait env (jv_slowPollInterval (fst s)) (snd s))"

fun pollState :: "'w jwtEnv \<Rightarrow> nat \<Rightarrow> 'w jstate \<Rightarrow> 'w jstate" where
  "pollState env 0 s = pollWait env s"
| "pollState env (Suc n) s = pollState env n (snd (fetchPublicKeys env (pollWait env s)))"

lemma slowPoll_online:
  "(\<forall>i \<le> n. \<not> je_stopped env (snd (pollState env i s))) \<Longrightarrow>
   (\<forall>i < n. isl (fst (fetchPublicKeys env (pollState env i s)))) \<Longrightarrow>
   fetchPublicKeys env (pollState env n s) = (Inr (), t) \<Longrightarrow>
   slowPoll env s = Some (True, ((fst t)\<lparr>jv_ready := True\<rparr>, snd t))"
proof (induction n arbitrary: s)
  case 0
  then show ?case by (subst slowPoll.simps) (simp add: Let_def pollWait_def)
next
  case (Suc n)
  have st: "\<not> je_stopped env (snd (pollWait env s))" using Suc.prems(1) [rule_format, of 0] by simp
  have "isl (fst (fetchPublicKeys env (pollWait env s)))" using Suc.prems(2) [rule_format, of 0] by simp
  then obtain e u where f: "fetchPublicKeys env (pollWait env s) = (Inl e, u)"
    by (cases "fetchPublicKeys env (pollWait env s)") (auto simp: isl_def)
  have "slowPoll env s = slowPoll env u"
    using st f by (subst slowPoll.simps) (simp add: Let_def pollWait_def)
  moreover have "slowPoll env u = Some (True, ((fst t)\<lparr>jv_ready := True\<rparr>, snd t))"
    using Suc.prems f by (intro Suc.IH) (auto simp: all_Suc_le all_Suc_less)
  ultimately show ?case by simp
qed

text \<open>
  The state before the \<open>n\<close>-th fetch of the whole start-up, when all earlier ones failed: \<open>k\<close> active
  attempts with doubling waits in between, then those of the slow poll.
\<close>

fun attemptState :: "'w jwtEnv \<Rightarrow> nat \<Rightarrow> int \<Rightarrow> nat \<Rightarrow> 'w jstate \<Rightarrow> 'w jstate" where
  "attemptState env 0 backoff n s = pollState env n s"
| "attemptState env (Suc k) backoff 0 s = s"
| "attemptState env (Suc k) backoff (Suc n) s =
     (case snd (fetchPublicKeys env s) of (v, w) \<Rightarrow>
        attemptState env k (backoff * 2) n (v, if k > 0 then je_wait env backoff w else w))"

definition startState :: "'w jwtEnv \<Rightarrow> nat \<Rightarrow> 'w jstate \<Rightarrow> 'w jstate" where
  "startState env n s = attemptState env (jv_retryMaxAttempts (fst s)) (jv_retryInitialBackoff (fst s)) n s"

lemma attempts_online:
  "(\<forall>i \<le> n. \<not> je_stopped env (snd (attemptState env k b i s))) \<Longrightarrow>
   (\<forall>i < n. isl (fst (fetchPublicKeys env (attemptState env k b i s)))) \<Longrightarrow>
   fetchPublicKeys env (attemptState env k b n s) = (Inr (), t) \<Longrightarrow>
   (case activeFetch env k b s of (Some x, u) \<Rightarrow> Some (x, u) | (None, u) \<Rightarrow> slowPoll env u) =
     Some (True, ((fst t)\<lparr>jv_ready := True\<rparr>, snd t))"
proof (induction k arbitrary: n b s)
  case 0
  then show ?case by (simp add: slowPoll_online)
next
  case (Suc k)
  have st: "\<not> je_stopped env (snd s)" using Suc.prems(1) [rule_format, of 0] by simp
  show ?case
  proof (cases n)
    case 0
    with Suc.prems(3) st show ?thesis by (simp split: prod.split)
  next
    case n: (Suc m)
    have "isl (fst (fetchPublicKeys env s))" using Suc.prems(2) [rule_format, of 0] n by simp
    then obtain e v w where f: "fetchPublicKeys env s = (Inl e, v, w)"
      by (cases "fetchPublicKeys env s") (auto simp: isl_def)
    let ?s = "(v, if k > 0 then je_wait env b w else w)"
    have "(case activeFetch env k (b * 2) ?s of (Some x, u) \<Rightarrow> Some (x, u) | (None, u) \<Rightarrow> slowPoll env u) =
        Some (True, ((fst t)\<lparr>jv_ready := True\<rparr>, snd t))"
      using Suc.prems f n by (intro Suc.IH [of m]) (auto simp: all_Suc_le all_Suc_less)
    with st f show ?thesis by simp
  qed
qed

lemma refreshTicks_online: "online (fst s) \<Longrightarrow> online (fst (refreshTicks env n s))"
proof (induction n arbitrary: s)
  case (Suc n)
  let ?w = "je_wait env (jv_keyRefreshInterval (fst s)) (snd s)"
  have "online (fst (snd (refreshKeys env (fst s, ?w))))"
    using fetch_state [of env "(fst s, ?w)" "fst (fetchPublicKeys env (fst s, ?w))" "snd (fetchPublicKeys env (fst s, ?w))"]
      Suc.prems by (simp add: refreshKeys_def)
  with Suc show ?case by (simp add: Let_def)
qed simp

section \<open>Stopping\<close>

text \<open>
  A world in which the stop channel is closed within a number of waits: every wait brings it
  nearer, and no fetch puts it off.
\<close>

definition stopsWithin :: "'w jwtEnv \<Rightarrow> ('w \<Rightarrow> nat) \<Rightarrow> bool" where
  "stopsWithin env left \<longleftrightarrow> (\<forall>w. je_stopped env w \<longleftrightarrow> left w = 0) \<and>
     (\<forall>d w. left (je_wait env d w) \<le> left w - 1) \<and> (\<forall>u w. left (snd (je_do env u w)) \<le> left w)"

lemma fetch_left:
  assumes "stopsWithin env left"
  shows "left (snd (snd (fetchPublicKeys env s))) \<le> left (snd s)"
proof -
  obtain v w where s: "s = (v, w)" by fastforce
  obtain q u where d: "je_do env (certsURL v) w = (q, u)" by fastforce
  have "left u \<le> left w" using assms d by (metis snd_conv stopsWithin_def)
  with s d show ?thesis
    by (auto simp: fetchPublicKeys_def Let_def split: option.splits sum.splits)
qed

lemma slowPoll_ends:
  assumes "stopsWithin env left"
  shows "\<exists>b t. slowPoll env s = Some (b, t) \<and> left (snd t) \<le> left (snd s)"
proof (induction "left (snd s)" arbitrary: s rule: less_induct)
  case less
  let ?w = "je_wait env (jv_slowPollInterval (fst s)) (snd s)"
  obtain q t where f: "fetchPublicKeys env (fst s, ?w) = (q, t)" by (metis prod.collapse)
  have w: "left ?w \<le> left (snd s) - 1" using assms by (simp add: stopsWithin_def)
  have t: "left (snd t) \<le> left ?w" using fetch_left [OF assms, of "(fst s, ?w)"] f by simp
  show ?case
  proof (cases "je_stopped env ?w \<or> \<not> isl q")
    case True
    with f w t show ?thesis by (subst slowPoll.simps) (auto simp: Let_def isl_def split: sum.splits)
  next
    case False
    then have go: "slowPoll env s = slowPoll env t"
      using f by (subst slowPoll.simps) (auto simp: Let_def isl_def)
    have "0 < left ?w" using False assms by (auto simp: stopsWithin_def)
    with w t have "left (snd t) < left (snd s)" by simp
    from less.hyps [OF this] this show ?thesis unfolding go by force
  qed
qed

lemma refreshLoop_ends:
  assumes "stopsWithin env left"
  shows "\<exists>t. refreshLoop env s = Some t"
proof (induction "left (snd s)" arbitrary: s rule: less_induct)
  case less
  let ?w = "je_wait env (jv_keyRefreshInterval (fst s)) (snd s)"
  let ?t = "snd (refreshKeys env (fst s, ?w))"
  have w: "left ?w \<le> left (snd s) - 1" using assms by (simp add: stopsWithin_def)
  have t: "left (snd ?t) \<le> left ?w" using fetch_left [OF assms, of "(fst s, ?w)"] by (simp add: refreshKeys_def)
  show ?case
  proof (cases "je_stopped env ?w")
    case True
    then show ?thesis by (subst refreshLoop.simps) (simp add: Let_def)
  next
    case False
    then have "0 < left ?w" using assms by (simp add: stopsWithin_def)
    with w t have "left (snd ?t) < left (snd s)" by linarith
    from less.hyps [OF this] False show ?thesis by (subst refreshLoop.simps) (simp add: Let_def)
  qed
qed

lemma activeFetch_stopped: "activeFetch env k b s = (Some False, t) \<Longrightarrow> je_stopped env (snd t)"
  by (induction k arbitrary: b s) (auto split: if_splits prod.splits sum.splits)

lemma slowPoll_stopped: "slowPoll env s = Some r \<Longrightarrow> \<not> fst r \<Longrightarrow> je_stopped env (snd (snd r))"
  by (induction env s r rule: slowPoll.raw_induct [rotated, consumes 1]) (auto simp: Let_def split: if_splits prod.splits sum.splits)

lemma refreshLoop_ticks:
  "refreshLoop env s = Some t \<Longrightarrow> je_stopped env (snd t) \<and> (\<exists>n. t = refreshTicks env n s)"
proof (induction env s t rule: refreshLoop.raw_induct [rotated, consumes 1])
  case (1 loop env s t)
  let ?w = "je_wait env (jv_keyRefreshInterval (fst s)) (snd s)"
  show ?case
  proof (cases "je_stopped env ?w")
    case True
    with 1 have "t = refreshTicks env 1 s" by (simp add: Let_def)
    moreover have "je_stopped env (snd t)" using 1 True by (auto simp: Let_def)
    ultimately show ?thesis by blast
  next
    case False
    with 1(2) have "loop env (snd (refreshKeys env (fst s, ?w))) = Some t" by (simp add: Let_def)
    from 1(1) [OF this] obtain n where "je_stopped env (snd t)"
      "t = refreshTicks env n (snd (refreshKeys env (fst s, ?w)))" by blast
    then have "t = refreshTicks env (Suc n) s" using False by (simp add: Let_def)
    with \<open>je_stopped env (snd t)\<close> show ?thesis by blast
  qed
qed

lemma initialFetch_ends:
  assumes "stopsWithin env left"
  shows "\<exists>b t. initialFetch env s = Some (b, t)"
proof -
  obtain q t where "activeFetch env (jv_retryMaxAttempts (fst s)) (jv_retryInitialBackoff (fst s)) s = (q, t)"
    by (metis prod.collapse)
  with slowPoll_ends [OF assms, of t] show ?thesis
    by (cases q) (auto simp: initialFetch_def)
qed

lemma initLoop_ends:
  assumes "stopsWithin env left"
  shows "\<exists>t. initLoop env s = Some t"
proof -
  obtain b t where "initialFetch env s = Some (b, t)" using initialFetch_ends [OF assms] by blast
  with refreshLoop_ends [OF assms, of t] show ?thesis by (simp add: initLoop_def)
qed

lemma initLoop_stopped:
  assumes "initLoop env s = Some t"
  shows "je_stopped env (snd t)"
proof -
  from assms obtain b u where i: "initialFetch env s = Some (b, u)" and c: "if b then refreshLoop env u = Some t else t = u"
    by (auto simp: initLoop_def split: option.splits if_splits)
  obtain q v where a: "activeFetch env (jv_retryMaxAttempts (fst s)) (jv_retryInitialBackoff (fst s)) s = (q, v)"
    by (metis prod.collapse)
  show ?thesis
  proof (cases b)
    case True
    with c refreshLoop_ticks [of env u t] show ?thesis by simp
  next
    case False
    with i c a have "q = Some False \<and> t = v \<or> q = None \<and> slowPoll env v = Some (False, t)"
      by (auto simp: initialFetch_def split: option.splits)
    with a activeFetch_stopped [of env _ _ s v] slowPoll_stopped [of env v "(False, t)"] show ?thesis by auto
  qed
qed

text \<open>
  The channels behind \<open>Stop\<close>: closing a closed channel panics, which the \<open>sync.Once\<close> is there to
  rule out. A call of \<open>Stop\<close> signals and then waits for the goroutine to close \<open>doneCh\<close>.
\<close>

record lifecycle =
  lc_stopOnce :: bool
  lc_stopCh :: bool
  lc_cancelled :: bool
  lc_doneCh :: bool

definition closeChan :: "bool \<Rightarrow> gerror + bool" where
  "closeChan closed = (if closed then Inl (errorf ''close of closed channel'') else Inr True)"

definition stopSignal :: "lifecycle \<Rightarrow> gerror + lifecycle" where
  "stopSignal l =
     (if lc_stopOnce l then Inr l
      else case closeChan (lc_stopCh l) of
        Inl panic \<Rightarrow> Inl panic
      | Inr c \<Rightarrow> Inr (l\<lparr>lc_stopOnce := True, lc_stopCh := c, lc_cancelled := True\<rparr>))"

definition stopped :: "lifecycle \<Rightarrow> bool" where
  "stopped l \<longleftrightarrow> lc_stopCh l"

datatype stopCall = Entered | Waiting | Returned

inductive Stop :: "lifecycle \<times> stopCall list \<Rightarrow> lifecycle \<times> stopCall list \<Rightarrow> bool" where
  signals: "i < length cs \<Longrightarrow> cs ! i = Entered \<Longrightarrow> stopSignal l = Inr l' \<Longrightarrow> Stop (l, cs) (l', cs[i := Waiting])"
| returns: "i < length cs \<Longrightarrow> cs ! i = Waiting \<Longrightarrow> lc_doneCh l \<Longrightarrow> Stop (l, cs) (l, cs[i := Returned])"
| exits: "stopped l \<Longrightarrow> \<not> lc_doneCh l \<Longrightarrow> Stop (l, cs) (l\<lparr>lc_doneCh := True\<rparr>, cs)"

inductive_cases StopE: "Stop (l, cs) s"

definition running :: lifecycle where
  "running = \<lparr>lc_stopOnce = False, lc_stopCh = False, lc_cancelled = False, lc_doneCh = False\<rparr>"

text \<open>\<open>k\<close> steps of \<open>n\<close> calls and the goroutine.\<close>

inductive stopRun :: "nat \<Rightarrow> nat \<Rightarrow> lifecycle \<times> stopCall list \<Rightarrow> bool" for n where
  called: "stopRun n 0 (running, replicate n Entered)"
| goes: "stopRun n k s \<Longrightarrow> Stop s t \<Longrightarrow> stopRun n (Suc k) t"

fun stepsLeft :: "stopCall \<Rightarrow> nat" where
  "stepsLeft Entered = 2"
| "stepsLeft Waiting = 1"
| "stepsLeft Returned = 0"

definition stopInv :: "nat \<Rightarrow> nat \<Rightarrow> lifecycle \<times> stopCall list \<Rightarrow> bool" where
  "stopInv n k s \<longleftrightarrow> (case s of (l, cs) \<Rightarrow>
     lc_stopOnce l = lc_stopCh l \<and> lc_cancelled l = lc_stopCh l \<and> (lc_doneCh l \<longrightarrow> lc_stopCh l) \<and>
     (Waiting \<in> set cs \<longrightarrow> lc_stopCh l) \<and> (Returned \<in> set cs \<longrightarrow> lc_doneCh l) \<and>
     k + sum_list (map stepsLeft cs) + (if lc_doneCh l then 0 else 1) = 2 * n + 1)"

lemma stopSignal_cases:
  assumes "lc_stopOnce l = lc_stopCh l" and "lc_cancelled l = lc_stopCh l"
  shows "stopSignal l = Inr (l\<lparr>lc_stopOnce := True, lc_stopCh := True, lc_cancelled := True\<rparr>)"
  using assms by (simp add: stopSignal_def closeChan_def)

lemma stepsLeft_update:
  "i < length cs \<Longrightarrow> Suc (stepsLeft c) = stepsLeft (cs ! i) \<Longrightarrow>
     Suc (sum_list (map stepsLeft (cs[i := c]))) = sum_list (map stepsLeft cs)"
  by (induction cs arbitrary: i) (auto split: nat.splits)

lemma stopInv_step: "Stop s t \<Longrightarrow> stopInv n k s \<Longrightarrow> stopInv n (Suc k) t"
proof (induction rule: Stop.induct)
  case (signals i cs l l')
  have l': "l' = l\<lparr>lc_stopOnce := True, lc_stopCh := True, lc_cancelled := True\<rparr>"
    using signals stopSignal_cases [of l] by (simp add: stopInv_def)
  have "set (cs[i := Waiting]) \<subseteq> insert Waiting (set cs)" by (rule set_update_subset_insert)
  then show ?case using signals.prems stepsLeft_update [of i cs Waiting] signals.hyps
    by (auto simp: stopInv_def l')
next
  case (returns i cs l)
  have "set (cs[i := Returned]) \<subseteq> insert Returned (set cs)" by (rule set_update_subset_insert)
  then show ?case using returns.prems stepsLeft_update [of i cs Returned] returns.hyps
    by (auto simp: stopInv_def)
next
  case (exits l cs)
  then show ?case by (auto simp: stopInv_def stopped_def)
qed

lemma stopRun_inv: "stopRun n k s \<Longrightarrow> stopInv n k s"
proof (induction rule: stopRun.induct)
  case called
  then show ?case by (auto simp: stopInv_def running_def sum_list_replicate)
qed (rule stopInv_step)

section \<open>Properties\<close>

text \<open>A world for the closed instances: the clock in nanoseconds and the answers Keycloak will give.\<close>

type_synonym sampleWorld = "int \<times> (gerror + nat \<times> string) list"

definition sampleDo :: "string \<Rightarrow> sampleWorld \<Rightarrow> (gerror + nat \<times> string) \<times> sampleWorld" where
  "sampleDo url w =
     (case snd w of [] \<Rightarrow> (Inl (errorf ''unreachable''), w) | a # as \<Rightarrow> (a, (fst w, as)))"

definition sampleJwk :: "string \<Rightarrow> jwk" where
  "sampleJwk kid = \<lparr>jwk_Kty = ''RSA'', jwk_Kid = kid, jwk_Use = ''sig'', jwk_N = ''Ag'', jwk_E = ''Aw''\<rparr>"

text \<open>A token is its key ID; it is signed by every key and issued by the sample realm.\<close>

definition sampleHeader :: "string \<Rightarrow> tokenHeader option" where
  "sampleHeader tok = Some \<lparr>th_rsa = True, th_alg = ''RS256'', th_kid = Some tok\<rparr>"

definition sampleClaims :: "string \<Rightarrow> claims" where
  "sampleClaims tok = [(''iss'', JStr ''http://kc/realms/nebari''), (''azp'', JStr ''spa''), (''sub'', JStr ''u'')]"

definition sampleTimely :: "sampleWorld jstate \<Rightarrow> int \<Rightarrow> claims \<Rightarrow> bool" where
  "sampleTimely s lw c = True"

definition sampleSigned :: "string \<Rightarrow> rsaKey \<Rightarrow> bool" where
  "sampleSigned tok k = True"

definition sampleJwtEnv :: "sampleWorld jwtEnv" where
  "sampleJwtEnv = \<lparr>je_newRequest = (\<lambda>u. None), je_do = sampleDo,
     je_decode = (\<lambda>b. Inr \<lparr>jwks_Keys = [sampleJwk b]\<rparr>), je_now = (\<lambda>w. max 1 (fst w)),
     je_wait = (\<lambda>d w. (fst w + d, snd w)), je_stopped = (\<lambda>w. False),
     je_parse = composedParse sampleHeader sampleClaims sampleSigned sampleTimely\<rparr>"

definition sampleValidator :: JWTValidator where
  "sampleValidator = SetExpectedClientID ''spa'' (NewJWTValidator ''http://kc/'' ''nebari'')"

definition onlineState :: "sampleWorld jstate" where
  "onlineState = (sampleValidator\<lparr>jv_ready := True, jv_publicKeys := [(''k1'', \<lparr>rsa_N = 1, rsa_E = 3\<rparr>)]\<rparr>, (50, []))"

text \<open>C15: a token is accepted only by a validator whose first fetch succeeded, when its method is
  plain RSA, its key ID names a cached key of the realm under which it is signed, its time claims
  hold up to 30 seconds, its issuer is the configured realm, and, when a client is pinned, its
  authorized party is that client; the claims handed on are the token's.\<close>

theorem validated_token_is_genuine:
  assumes "jwt_library (je_parse env) signedBy headerOf claimsOf timely"
    and "ValidateToken env tok s = (Inr c, s')"
  shows "jv_ready (fst s) \<and> c = claimsOf tok \<and> timely s' clockLeeway c \<and>
    (\<exists>h kid pk. headerOf tok = Some h \<and> th_rsa h \<and> th_kid h = Some kid \<and>
       map_of (jv_publicKeys (fst s')) kid = Some pk \<and> signedBy tok pk) \<and>
    strOr (map_of c ''iss'') = jv_issuerURL (fst s) @ ''/realms/'' @ jv_realm (fst s) \<and>
    (jv_expectedClientID (fst s) = [] \<or> strOr (map_of c ''azp'') = jv_expectedClientID (fst s))"
  using jwt_library.accepted_token [OF assms(1,2) refl] unfolding expectedIssuer_def by blast

lemma sampleLibrary:
  "jwt_library (je_parse sampleJwtEnv) sampleSigned sampleHeader sampleClaims sampleTimely"
  by (simp add: sampleJwtEnv_def composed.jwt_library_axioms)

lemma sampleToken_value: "fst (ValidateToken sampleJwtEnv ''k1'' onlineState) = Inr (sampleClaims ''k1'')"
  by code_simp

theorem validated_token_is_genuine_witness:
  "\<exists>kid pk. map_of (jv_publicKeys (fst (snd (ValidateToken sampleJwtEnv ''k1'' onlineState)))) kid = Some pk"
proof -
  have "ValidateToken sampleJwtEnv ''k1'' onlineState =
      (Inr (sampleClaims ''k1''), snd (ValidateToken sampleJwtEnv ''k1'' onlineState))"
    by (simp add: prod_eq_iff sampleToken_value)
  from validated_token_is_genuine [OF sampleLibrary this] show ?thesis by blast
qed

text \<open>C26: tokens with unknown key IDs, however many and whenever they arrive, and whatever the
  background refresh does in between, make the validator ask Keycloak at times at least 30 seconds
  apart, so within any span the number of such requests is at most one more than the number of
  30-second intervals in it.\<close>

theorem unknown_kid_fetches_rate_limited:
  assumes "jwt_library parse signedBy headerOf claimsOf timely" and "\<forall>w. 0 < je_now env w"
    and "fold (validatorStep env parse) steps (v, w, []) = (v', w', log)"
    and "\<forall>t \<in> set log. lo \<le> t \<and> t \<le> hi" and "log \<noteq> []"
  shows "sorted_wrt (\<lambda>a b. a + unknownKIDCooldown \<le> b) log \<and>
    (int (length log) - 1) * unknownKIDCooldown \<le> hi - lo"
proof -
  have "spacedLog (v, w, [])" by (simp add: spacedLog_def)
  from validatorSteps_spaced [OF assms(1,2) this, of steps] assms(3)
  have "sorted_wrt (\<lambda>a b. a + unknownKIDCooldown \<le> b) log" by (simp add: spacedLog_def)
  with spaced_bound [OF this assms(4,5)] show ?thesis by blast
qed

text \<open>Four unknown tokens over half a minute, two of which are sent on.\<close>

definition recordedParse ::
  "string \<Rightarrow> (tokenHeader \<Rightarrow> ((sampleWorld \<times> int list) jstate, rsaKey) action) \<Rightarrow> int \<Rightarrow>
   ((sampleWorld \<times> int list) jstate, claims \<times> bool) action" where
  "recordedParse = composedParse sampleHeader sampleClaims sampleSigned (\<lambda>s lw c. True)"

definition burst :: "sampleWorld validatorEvent list" where
  "burst = concat (map (\<lambda>t. [Elapse (\<lambda>w. (t * second, [])), Validate ''nope'']) [5, 6, 36, 37])"

definition burstEnd :: "(sampleWorld \<times> int list) jstate" where
  "burstEnd = fold (validatorStep sampleJwtEnv recordedParse) burst (fst onlineState, snd onlineState, [])"

lemma burst_value: "snd (snd burstEnd) = [5 * second, 36 * second]"
  by code_simp

theorem unknown_kid_fetches_rate_limited_witness:
  "(int (length (snd (snd burstEnd))) - 1) * unknownKIDCooldown \<le> 31 * second"
proof -
  have lib: "jwt_library recordedParse sampleSigned sampleHeader sampleClaims (\<lambda>s lw c. True)"
    unfolding recordedParse_def by (rule composed.jwt_library_axioms)
  have clock: "\<forall>w. 0 < je_now sampleJwtEnv w" by (simp add: sampleJwtEnv_def less_max_iff_disj)
  have run: "fold (validatorStep sampleJwtEnv recordedParse) burst (fst onlineState, snd onlineState, []) =
      (fst burstEnd, fst (snd burstEnd), [5 * second, 36 * second])"
    by (metis burstEnd_def burst_value prod.collapse)
  from unknown_kid_fetches_rate_limited [OF lib clock run, of "5 * second" "36 * second"]
  show ?thesis by (simp add: burst_value second_def)
qed

text \<open>a failed fetch leaves the validator as it was, a successful one installs a non-empty key
  set, and no operation, background or per request, ever leaves a ready validator without keys.\<close>

theorem ready_validator_keeps_keys:
  assumes "jwt_library (je_parse env) signedBy headerOf claimsOf timely"
    and "jv_ready (fst s) \<longrightarrow> jv_publicKeys (fst s) \<noteq> []"
    and "s' \<in> {snd (fetchPublicKeys env s), snd (refreshForUnknownKID env s),
      snd (ValidateToken env tok s), refreshTicks env n s}"
  shows "(jv_ready (fst s') \<longrightarrow> jv_publicKeys (fst s') \<noteq> []) \<and>
    (isl (fst (fetchPublicKeys env s)) \<longrightarrow> fst (snd (fetchPublicKeys env s)) = fst s)"
proof -
  have f: "fetchPublicKeys env s = (fst (fetchPublicKeys env s), snd (fetchPublicKeys env s))"
    and u: "refreshForUnknownKID env s = (fst (refreshForUnknownKID env s), snd (refreshForUnknownKID env s))"
    and t: "ValidateToken env tok s = (fst (ValidateToken env tok s), snd (ValidateToken env tok s))"
    by simp_all
  from assms(2) have "online (fst s)" by (simp add: online_def)
  with fetch_state [OF f] refreshUnknown_state [OF u] jwt_library.validate_online [OF assms(1) t refl]
    refreshTicks_online [of s env n]
  have "online (fst (snd (fetchPublicKeys env s)))" "online (fst (snd (refreshForUnknownKID env s)))"
    "online (fst (snd (ValidateToken env tok s)))" "online (fst (refreshTicks env n s))" by simp_all
  with assms(3) have "online (fst s')" by blast
  with fetch_state [OF f] show ?thesis by (simp add: online_def)
qed

theorem ready_validator_keeps_keys_witness:
  "jv_publicKeys (fst (snd (ValidateToken sampleJwtEnv ''nope'' onlineState))) \<noteq> []"
proof -
  have "jv_ready (fst onlineState) \<longrightarrow> jv_publicKeys (fst onlineState) \<noteq> []"
    by (simp add: onlineState_def)
  from ready_validator_keeps_keys [OF sampleLibrary this, of _ "''nope''" 0]
  have "jv_ready (fst (snd (ValidateToken sampleJwtEnv ''nope'' onlineState))) \<longrightarrow> ?thesis" by blast
  moreover have "jv_ready (fst (snd (ValidateToken sampleJwtEnv ''nope'' onlineState)))" by code_simp
  ultimately show ?thesis by blast
qed

text \<open>C29: start-up does not depend on Keycloak being there: at the first fetch that succeeds, however
  many active attempts and slow polls failed before it, and unless the validator is stopped first,
  the initial fetch returns successfully, with the validator ready and exactly the keys this fetch
  installed, of which there are some.\<close>

theorem validator_comes_online:
  assumes "\<forall>i \<le> n. \<not> je_stopped env (snd (startState env i s))"
    and "\<forall>i < n. isl (fst (fetchPublicKeys env (startState env i s)))"
    and "fetchPublicKeys env (startState env n s) = (Inr (), t)"
  shows "initialFetch env s = Some (True, ((fst t)\<lparr>jv_ready := True\<rparr>, snd t)) \<and> jv_publicKeys (fst t) \<noteq> []"
  using attempts_online [OF assms [unfolded startState_def]] fetch_state [OF assms(3)]
  by (simp add: initialFetch_def)

definition lateKeycloak :: "nat \<Rightarrow> sampleWorld jstate" where
  "lateKeycloak n = (sampleValidator, (0, replicate n (Inl (errorf ''down'')) @ [Inr (200, ''k1'')]))"

text \<open>Keycloak comes up before the third active attempt, and before the second slow poll.\<close>

lemma lateKeycloak_fetches:
  "list_all (\<lambda>i. isl (fst (fetchPublicKeys sampleJwtEnv (startState sampleJwtEnv i (lateKeycloak 2))))) [0, 1]"
  "list_all (\<lambda>i. isl (fst (fetchPublicKeys sampleJwtEnv (startState sampleJwtEnv i (lateKeycloak 6))))) [0, 1, 2, 3, 4, 5]"
  "fst (fetchPublicKeys sampleJwtEnv (startState sampleJwtEnv 2 (lateKeycloak 2))) = Inr ()"
  "fst (fetchPublicKeys sampleJwtEnv (startState sampleJwtEnv 6 (lateKeycloak 6))) = Inr ()"
  by code_simp+

lemma less_2_6: "i < (2 :: nat) \<Longrightarrow> i \<in> {0, 1}" "i < (6 :: nat) \<Longrightarrow> i \<in> {0, 1, 2, 3, 4, 5}"
  by auto

theorem validator_comes_online_witness:
  "\<exists>s s'. initialFetch sampleJwtEnv (lateKeycloak 2) = Some (True, s) \<and> jv_ready (fst s) \<and>
     initialFetch sampleJwtEnv (lateKeycloak 6) = Some (True, s') \<and> jv_ready (fst s')"
proof -
  have run: "\<not> je_stopped sampleJwtEnv w" for w by (simp add: sampleJwtEnv_def)
  have a: "\<forall>i < 2. isl (fst (fetchPublicKeys sampleJwtEnv (startState sampleJwtEnv i (lateKeycloak 2))))"
    and b: "\<forall>i < 6. isl (fst (fetchPublicKeys sampleJwtEnv (startState sampleJwtEnv i (lateKeycloak 6))))"
    using lateKeycloak_fetches(1,2) by (auto dest!: less_2_6)
  obtain t where t: "fetchPublicKeys sampleJwtEnv (startState sampleJwtEnv 2 (lateKeycloak 2)) = (Inr (), t)"
    using lateKeycloak_fetches(3) by (metis prod.collapse)
  obtain u where u: "fetchPublicKeys sampleJwtEnv (startState sampleJwtEnv 6 (lateKeycloak 6)) = (Inr (), u)"
    using lateKeycloak_fetches(4) by (metis prod.collapse)
  from validator_comes_online [OF _ a t] validator_comes_online [OF _ b u] run show ?thesis by simp
qed

text \<open>C28: shutting the validator down: once the stop channel is going to be closed, the background
  goroutine ends, whatever Keycloak answers, and it never ends before; any number of concurrent
  calls of \<open>Stop\<close> close the channel once, without a panic, return only after the goroutine has
  ended, and all return.\<close>

theorem validator_stops:
  assumes "stopsWithin env left" and "stopRun n k (l, cs)"
  shows "(\<exists>t. initLoop env s = Some t \<and> je_stopped env (snd t)) \<and>
    \<not> isl (stopSignal l) \<and> k \<le> 2 * n + 1 \<and>
    (Returned \<in> set cs \<longrightarrow> stopped l \<and> lc_cancelled l \<and> lc_doneCh l) \<and>
    ((\<forall>u. \<not> Stop (l, cs) u) \<longrightarrow> set cs \<subseteq> {Returned})"
proof (intro conjI impI)
  have inv: "stopInv n k (l, cs)" by (rule stopRun_inv [OF assms(2)])
  show "\<exists>t. initLoop env s = Some t \<and> je_stopped env (snd t)"
    using initLoop_ends [OF assms(1)] initLoop_stopped by blast
  have sig: "stopSignal l = Inr (l\<lparr>lc_stopOnce := True, lc_stopCh := True, lc_cancelled := True\<rparr>)"
    using inv by (intro stopSignal_cases) (simp_all add: stopInv_def)
  then show "\<not> isl (stopSignal l)" by simp
  show "k \<le> 2 * n + 1" using inv by (simp add: stopInv_def)
  show "stopped l" "lc_cancelled l" "lc_doneCh l" if "Returned \<in> set cs"
    using inv that by (simp_all add: stopInv_def stopped_def)
  assume stuck: "\<forall>u. \<not> Stop (l, cs) u"
  show "set cs \<subseteq> {Returned}"
  proof
    fix c assume "c \<in> set cs"
    then obtain i where i: "i < length cs" "cs ! i = c" by (auto simp: in_set_conv_nth)
    show "c \<in> {Returned}"
    proof (cases c)
      case Entered
      with signals [OF i(1) _ sig] i stuck show ?thesis by blast
    next
      case Waiting
      then have "stopped l" using inv \<open>c \<in> set cs\<close> by (simp add: stopInv_def stopped_def)
      with returns [OF i(1)] exits [of l cs] i Waiting stuck show ?thesis by blast
    qed simp
  qed
qed

text \<open>A world whose clock stops the validator after a while, and a run of one call to its end.\<close>

definition endingEnv :: "nat jwtEnv" where
  "endingEnv = \<lparr>je_newRequest = (\<lambda>u. None), je_do = (\<lambda>u w. (Inl (errorf ''unreachable''), w)),
     je_decode = (\<lambda>b. Inl (errorf ''bad'')), je_now = (\<lambda>w. 1), je_wait = (\<lambda>d w. w - 1), je_stopped = (\<lambda>w. w = 0),
     je_parse = (\<lambda>tok kf lw s. (Inl (errorf ''bad''), s))\<rparr>"

definition halted :: lifecycle where
  "halted = \<lparr>lc_stopOnce = True, lc_stopCh = True, lc_cancelled = True, lc_doneCh = True\<rparr>"

lemma halted_run: "stopRun 1 3 (halted, [Returned])"
proof -
  have "stopRun 1 0 (running, [Entered])" using called [of 1] by simp
  from goes [OF this signals [of 0]]
  have "stopRun 1 1 (running\<lparr>lc_stopOnce := True, lc_stopCh := True, lc_cancelled := True\<rparr>, [Waiting])"
    by (simp add: stopSignal_def closeChan_def running_def)
  from goes [OF this exits] have "stopRun 1 2 (halted, [Waiting])"
    by (simp add: running_def halted_def stopped_def numeral_2_eq_2)
  from goes [OF this returns [of 0]] show ?thesis by (simp add: halted_def numeral_3_eq_3 numeral_2_eq_2)
qed

theorem validator_stops_witness:
  "(\<exists>t. initLoop endingEnv (sampleValidator, 9) = Some t \<and> snd t = 0) \<and> lc_doneCh halted"
proof -
  have "stopsWithin endingEnv (\<lambda>w. w)" by (simp add: stopsWithin_def endingEnv_def)
  from validator_stops [OF this halted_run] show ?thesis by (simp add: endingEnv_def)
qed

lemma foldExponent_word: "foldExponent bs = word_of_nat (setBytes bs)"
proof -
  have "fold (\<lambda>b e. e * 256 + word_of_nat (of_char b)) bs (word_of_nat n) =
      (word_of_nat (fold (\<lambda>b n. n * 256 + of_char b) bs n) :: 64 word)" for n
  proof (induction bs arbitrary: n)
    case (Cons b bs)
    have "word_of_nat n * 256 + word_of_nat (of_char b) = (word_of_nat (n * 256 + of_char b) :: 64 word)"
      by simp
    with Cons.IH [of "n * 256 + of_char b"] show ?case by (simp only: fold_simps o_def)
  qed simp
  from this [of 0] show ?thesis by (simp add: foldExponent_def setBytes_def)
qed

text \<open>C39: a JSON web key in base64url is rebuilt as the modulus of its bytes, and as an exponent that is
  the value of its bytes as long as it fits 64 bits and wraps around beyond.\<close>

theorem rsaKey_decodes_jwk:
  "parseRSAPublicKey \<lparr>jwk_Kty = kty, jwk_Kid = kid, jwk_Use = use, jwk_N = rawURLEncode nb, jwk_E = rawURLEncode eb\<rparr> =
     Inr \<lparr>rsa_N = setBytes nb, rsa_E = foldExponent eb\<rparr> \<and>
   unat (foldExponent eb) = setBytes eb mod 2 ^ 64"
  by (simp add: parseRSAPublicKey_def rawURL_roundtrip foldExponent_word unat_of_nat)

end
