(* ===== verification/KeyManagerMain.thy ===== *)
theory KeyManagerMain
  imports Auditing Jwt
begin

text \<open>
  \<open>key-manager/cmd/main.go\<close>: how the key manager is put together from its environment: the
  dev-mode switch, the middleware around the routes under \<open>/api/\<close>, the audit loop and its lookup.
  The environment is a map of variables (an unset one reads as the empty string). \<open>ServeMux\<close> is
  modelled as far as the registered patterns need it: literal segments, wildcards, the method.
  The process around it is the theory KeyManagerProcess.
\<close>

section \<open>Configuration\<close>

definition splitAndTrim :: "string \<Rightarrow> string list" where
  "splitAndTrim s = filter (\<lambda>v. v \<noteq> []) (map trimSpace (splitOn CHR '','' s))"

text \<open>
  \<open>strings.EqualFold(v, "true")\<close>: simple folding relates each ASCII letter to its other case; the
  only other code points that fold to ASCII letters are the long s and the Kelvin sign, and
  neither folds to a letter of the word.
\<close>

definition devModeOn :: "environ \<Rightarrow> bool" where
  "devModeOn e \<longleftrightarrow> map lowerByte (getenv e ''LLM_DEV_MODE'') = ''true''"

text \<open>The stub lookup of the first release.\<close>

definition makeUserinfoLookup :: "string \<Rightarrow> string \<Rightarrow> ('s, string list) action" where
  "makeUserinfoLookup userinfoURL username s =
     (Inl (errorf (''userinfo lookup not yet implemented (url: '' @ userinfoURL @ '', user: '' @ username @ '')'')), s)"

section \<open>Authentication\<close>

text \<open>
  The switch between the two modes: \<open>Inl\<close> is the fatal exit. The validator is built from the
  URL, the realm, the issuer override and the pinned client.
\<close>

definition keycloakValidator :: "environ \<Rightarrow> JWTValidator" where
  "keycloakValidator e =
     SetExpectedClientID (getenv e ''LLM_KEYCLOAK_SPA_CLIENT_ID'')
       (SetIssuerURL (getenv e ''LLM_KEYCLOAK_ISSUER_URL'')
         (NewJWTValidator (getenv e ''LLM_KEYCLOAK_URL'') (getEnvOrDefault e ''LLM_KEYCLOAK_REALM'' ''nebari'')))"

definition devIdentity :: "environ \<Rightarrow> UserInfo" where
  "devIdentity e =
     (let devUser = getEnvOrDefault e ''LLM_DEV_USER'' ''dev''
      in \<lparr>ui_Username = devUser, ui_Name = devUser, ui_Email = devUser @ ''@local'',
          ui_Groups = splitAndTrim (getEnvOrDefault e ''LLM_DEV_GROUPS'' ''llm'')\<rparr>)"

definition authConfig :: "environ \<Rightarrow> (string \<Rightarrow> ('s, claims) action) \<Rightarrow> gerror + 's AuthConfig" where
  "authConfig e validate =
     (let cfg = \<lparr>ac_GroupsClaim = getEnvOrDefault e ''LLM_OIDC_GROUPS_CLAIM'' ''groups'',
            ac_Validator = None, ac_DevMode = devModeOn e,
            ac_DevIdentity = \<lparr>ui_Username = [], ui_Name = [], ui_Email = [], ui_Groups = []\<rparr>\<rparr>
      in if devModeOn e then Inr (cfg\<lparr>ac_DevIdentity := devIdentity e\<rparr>)
         else if getenv e ''LLM_KEYCLOAK_URL'' = []
         then Inl (errorf ''LLM_KEYCLOAK_URL is required unless LLM_DEV_MODE=true'')
         else Inr (cfg\<lparr>ac_Validator := Some validate\<rparr>))"

section \<open>Routing\<close>

definition NewHandler ::
  "(string list \<Rightarrow> ModelInfo list) \<Rightarrow> 's KeyManager \<Rightarrow> (string \<Rightarrow> createKeyRequest option) \<Rightarrow> 's Handler" where
  "NewHandler lister secrets decode = \<lparr>h_lister = lister, h_secrets = secrets, h_decode = decode\<rparr>"

datatype segment = Lit string | Var string

record ('s, 'b) route =
  rt_method :: string
  rt_pattern :: "segment list"
  rt_handler :: "('s, 'b) handler"

definition RegisterRoutes :: "'s Handler \<Rightarrow> ('s, payload) route list" where
  "RegisterRoutes h =
     [\<lparr>rt_method = ''GET'', rt_pattern = [Lit ''healthz''], rt_handler = healthz\<rparr>,
      \<lparr>rt_method = ''GET'', rt_pattern = [Lit ''api'', Lit ''me''], rt_handler = getMe\<rparr>,
      \<lparr>rt_method = ''GET'', rt_pattern = [Lit ''api'', Lit ''models''], rt_handler = getModels h\<rparr>,
      \<lparr>rt_method = ''GET'', rt_pattern = [Lit ''api'', Lit ''keys''], rt_handler = getKeys h\<rparr>,
      \<lparr>rt_method = ''POST'', rt_pattern = [Lit ''api'', Lit ''keys''], rt_handler = createKeyHandler h\<rparr>,
      \<lparr>rt_method = ''DELETE'',
        rt_pattern = [Lit ''api'', Lit ''keys'', Var ''namespace'', Var ''model'', Var ''clientID''],
        rt_handler = deleteKey h\<rparr>]"

fun matchSegments :: "segment list \<Rightarrow> string list \<Rightarrow> string gomap option" where
  "matchSegments [] [] = Some []"
| "matchSegments (Lit l # ps) (x # xs) = (if x = l then matchSegments ps xs else None)"
| "matchSegments (Var v # ps) (x # xs) =
     (if x = [] then None else map_option (\<lambda>m. (v, x) # m) (matchSegments ps xs))"
| "matchSegments _ _ = None"

text \<open>A GET pattern also serves HEAD. The path is split behind its leading slash.\<close>

definition methodMatches :: "string \<Rightarrow> string \<Rightarrow> bool" where
  "methodMatches pattern method \<longleftrightarrow> method = pattern \<or> (pattern = ''GET'' \<and> method = ''HEAD'')"

definition pathSegments :: "string \<Rightarrow> string list" where
  "pathSegments p = splitOn CHR ''/'' (trimPrefix p ''/'')"

definition allowHeader :: "('s, 'b) route list \<Rightarrow> string" where
  "allowHeader hits = join '', '' (sort (concat (map (\<lambda>rt.
     if rt_method rt = ''GET'' then [''GET'', ''HEAD''] else [rt_method rt]) hits)))"

definition serveMux :: "('s, payload) route list \<Rightarrow> ('s, payload) handler" where
  "serveMux routes r s =
     (let hits = filter (\<lambda>rt. matchSegments (rt_pattern rt) (pathSegments (rq_path r)) \<noteq> None) routes
      in if hits = [] then (httpError [] ''404 page not found'' 404, s)
         else case find (\<lambda>rt. methodMatches (rt_method rt) (rq_method r)) hits of
           None \<Rightarrow> (httpError [(''Allow'', allowHeader hits)] ''Method Not Allowed'' 405, s)
         | Some rt \<Rightarrow>
             rt_handler rt (r\<lparr>rq_pathValues :=
               (case matchSegments (rt_pattern rt) (pathSegments (rq_path r)) of
                  Some m \<Rightarrow> m | None \<Rightarrow> [])\<rparr>) s)"

definition finalHandler :: "'s AuthConfig \<Rightarrow> 's Handler \<Rightarrow> ('s, payload) handler" where
  "finalHandler cfg h r s =
     (if hasPrefix (rq_path r) ''/api/''
      then AuthMiddleware cfg (serveMux (RegisterRoutes h)) r s
      else serveMux (RegisterRoutes h) r s)"

text \<open>One tick of the audit loop, which runs only when a userinfo URL is configured.\<close>

definition auditTick ::
  "environ \<Rightarrow> ModelInfo list \<Rightarrow> keyEnv \<Rightarrow> 'k Manager \<Rightarrow> 'k \<Rightarrow> 'k" where
  "auditTick e models env m s =
     (let url = getenv e ''LLM_OIDC_USERINFO_URL''
      in if url \<noteq> [] then snd (RunOnce (NewAuditor models env m (makeUserinfoLookup url)) s) else s)"

section \<open>Properties\<close>

lemma serveMux_cases:
  obtains "snd (serveMux routes r s) = s"
  | rt vs where "rt \<in> set routes" "matchSegments (rt_pattern rt) (pathSegments (rq_path r)) = Some vs"
      "methodMatches (rt_method rt) (rq_method r)"
      "serveMux routes r s = rt_handler rt (r\<lparr>rq_pathValues := vs\<rparr>) s"
proof (cases "find (\<lambda>rt. methodMatches (rt_method rt) (rq_method r))
    (filter (\<lambda>rt. matchSegments (rt_pattern rt) (pathSegments (rq_path r)) \<noteq> None) routes)")
  case None
  then have "snd (serveMux routes r s) = s" by (simp add: serveMux_def Let_def)
  then show thesis by (rule that(1))
next
  case (Some rt)
  from find_SomeD [OF this] obtain vs where "rt \<in> set routes"
    "matchSegments (rt_pattern rt) (pathSegments (rq_path r)) = Some vs"
    "methodMatches (rt_method rt) (rq_method r)" by auto
  moreover from this Some have "serveMux routes r s = rt_handler rt (r\<lparr>rq_pathValues := vs\<rparr>) s"
    by (simp add: serveMux_def Let_def) auto
  ultimately show thesis by (rule that(2))
qed

text \<open>The routes whose handlers can write, and what a request without identity can do.\<close>

lemma mux_no_identity: "rq_user r = None \<Longrightarrow> snd (serveMux (RegisterRoutes h) r s) = s"
  by (rule serveMux_cases [of "RegisterRoutes h" r s])
    (auto simp: RegisterRoutes_def no_identity healthz_def)

text \<open>
  A request is handed to the routes under the identity of an accepted token, in dev mode under the
  configured one, or it stops before.
\<close>

lemma finalHandler_cases:
  assumes cfg: "authConfig e validate = Inr cfg" and "rq_user r = None"
  obtains (stopped) "snd (finalHandler cfg h r s) = s \<or> (\<exists>token. snd (finalHandler cfg h r s) = snd (validate token s))"
  | (accepted) token claims s1 where "hasPrefix (rq_path r) ''/api/''"
      "rq_authorization r = ''Bearer '' @ token" "validate token s = (Inr claims, s1)"
      "finalHandler cfg h r s = serveMux (RegisterRoutes h)
        (r\<lparr>rq_user := Some (userInfoFromClaims claims (getEnvOrDefault e ''LLM_OIDC_GROUPS_CLAIM'' ''groups''))\<rparr>) s1"
  | (developer) "hasPrefix (rq_path r) ''/api/''" "devModeOn e"
      "finalHandler cfg h r s = serveMux (RegisterRoutes h) (r\<lparr>rq_user := Some (devIdentity e)\<rparr>) s"
proof (cases "devModeOn e")
  case dev: True
  with cfg have c: "ac_DevMode cfg" "ac_DevIdentity cfg = devIdentity e"
    by (auto simp: authConfig_def Let_def)
  show thesis
  proof (cases "hasPrefix (rq_path r) ''/api/''")
    case False
    with mux_no_identity [OF assms(2), of h s] show ?thesis by (intro stopped) (simp add: finalHandler_def)
  next
    case True
    with c dev show ?thesis by (intro developer) (simp_all add: finalHandler_def AuthMiddleware_def Let_def)
  qed
next
  case False
  have c: "\<not> ac_DevMode cfg" "ac_Validator cfg = Some validate"
    "ac_GroupsClaim cfg = getEnvOrDefault e ''LLM_OIDC_GROUPS_CLAIM'' ''groups''"
    using cfg False by (auto simp: authConfig_def Let_def split: if_splits)
  have claim: "ac_GroupsClaim cfg \<noteq> []" by (simp add: c(3) getEnvOrDefault_def Let_def)
  show thesis
  proof (cases "hasPrefix (rq_path r) ''/api/''")
    case False
    with mux_no_identity [OF assms(2), of h s] show ?thesis by (intro stopped) (simp add: finalHandler_def)
  next
    case api: True
    show ?thesis
    proof (cases "extractBearerToken r")
      case (Inl err)
      with api c show ?thesis by (intro stopped) (simp add: finalHandler_def AuthMiddleware_def Let_def)
    next
      case (Inr token)
      obtain q s1 where v: "validate token s = (q, s1)" by fastforce
      show ?thesis
      proof (cases q)
        case (Inl err)
        with api c Inr v have "snd (finalHandler cfg h r s) = snd (validate token s)"
          by (simp add: finalHandler_def AuthMiddleware_def Let_def split: if_splits)
        then show ?thesis by (intro stopped) blast
      next
        case ok: (Inr claims)
        show ?thesis
        proof (rule accepted [of token claims s1])
          show "hasPrefix (rq_path r) ''/api/''" by (rule api)
          show "rq_authorization r = ''Bearer '' @ token" using bearer_iff Inr by blast
          show "validate token s = (Inr claims, s1)" using v ok by simp
        qed (use api c claim Inr v ok in \<open>simp add: finalHandler_def AuthMiddleware_def Let_def\<close>)
      qed
    qed
  qed
qed

text \<open>With authentication configured, the cluster changes only through a request that carries a
  bearer token the validator accepted, and the identity the handlers see is the one of its claims;
  every other request, on whatever path, leaves it as it is.\<close>

theorem cluster_changes_need_accepted_token:
  assumes "authConfig e validate = Inr cfg" and "\<not> devModeOn e" and "rq_user r = None"
    and "\<forall>t s. view (snd (validate t s)) = view s"
    and "view (snd (finalHandler cfg h r s)) \<noteq> view s"
  shows "\<exists>token claims s1. rq_authorization r = ''Bearer '' @ token \<and> validate token s = (Inr claims, s1) \<and>
    finalHandler cfg h r s = serveMux (RegisterRoutes h)
      (r\<lparr>rq_user := Some (userInfoFromClaims claims (getEnvOrDefault e ''LLM_OIDC_GROUPS_CLAIM'' ''groups''))\<rparr>) s1"
  using assms(1,3)
proof (cases rule: finalHandler_cases [where h = h and s = s])
  case stopped
  with assms(4,5) show ?thesis by auto
next
  case (accepted token claims s1)
  then show ?thesis by blast
qed (use assms(2) in simp)

definition sampleEnviron :: environ where
  "sampleEnviron = [(''LLM_KEYCLOAK_URL'', ''http://kc'')]"

definition sampleValidate :: "string \<Rightarrow> (cluster, claims) action" where
  "sampleValidate t s =
     (if t = ''good'' then Inr [(''sub'', JStr ''alice''), (''groups'', JStr ''ml'')] else Inl (errorf ''bad''), s)"

definition sampleServed :: "cluster AuthConfig" where
  "sampleServed = \<lparr>ac_GroupsClaim = ''groups'', ac_Validator = Some sampleValidate, ac_DevMode = False,
     ac_DevIdentity = \<lparr>ui_Username = [], ui_Name = [], ui_Email = [], ui_Groups = []\<rparr>\<rparr>"

definition postKey :: request where
  "postKey = \<lparr>rq_method = ''POST'', rq_path = ''/api/keys'', rq_authorization = ''Bearer good'',
     rq_body = ''m'', rq_pathValues = [], rq_user = None\<rparr>"

lemma postKey_value: "length (sec_data (snd (hd (cl_secrets (snd
    (finalHandler sampleServed sampleHandler postKey healthyStart)))))) = 2"
  by code_simp

theorem cluster_changes_need_accepted_token_witness:
  "\<exists>token claims s1. ''Bearer good'' = ''Bearer '' @ token \<and> sampleValidate token healthyStart = (Inr claims, s1)"
proof -
  have cfg: "authConfig sampleEnviron sampleValidate = Inr sampleServed"
    by (simp add: authConfig_def sampleEnviron_def sampleServed_def devModeOn_def getenv_def
        getEnvOrDefault_def Let_def)
  have dev: "\<not> devModeOn sampleEnviron" by (simp add: devModeOn_def sampleEnviron_def getenv_def)
  have none: "rq_user postKey = None" by (simp add: postKey_def)
  have view: "\<forall>t s. cl_secrets (snd (sampleValidate t s)) = cl_secrets s" by (simp add: sampleValidate_def)
  have "length (sec_data (snd (hd (cl_secrets healthyStart)))) = 1" by code_simp
  with postKey_value have "cl_secrets (snd (finalHandler sampleServed sampleHandler postKey healthyStart)) \<noteq>
      cl_secrets healthyStart"
    by (metis numeral_eq_one_iff semiring_norm(85))
  from cluster_changes_need_accepted_token [OF cfg dev none view this] show ?thesis
    by (auto simp: postKey_def)
qed

text \<open>
  The audit loop as deployed revokes nothing: the lookup that main wires in always fails, so
  configuring a userinfo URL starts passes that leave every credential in place.
\<close>

lemma deployed_audit_revokes_nothing:
  assumes "key_stores m vS vM"
  shows "map_option (\<lambda>x. map_of (sec_data x) k) (vS (auditTick e ms env m s) n) =
    map_option (\<lambda>x. map_of (sec_data x) k) (vS s n)"
proof (cases "getenv e ''LLM_OIDC_USERINFO_URL'' = []")
  case True
  then show ?thesis by (simp add: auditTick_def)
next
  case False
  let ?lk = "makeUserinfoLookup (getenv e ''LLM_OIDC_USERINFO_URL'')"
  have aud: "audited_keys (NewAuditor ms env m ?lk) env (mgr_namespace m) vS vM"
    by (rule key_stores.provides_audited_keys [OF assms]) (simp add: makeUserinfoLookup_def)
  have "RunOnce (NewAuditor ms env m ?lk) s =
      (fst (RunOnce (NewAuditor ms env m ?lk) s), snd (RunOnce (NewAuditor ms env m ?lk) s))" by simp
  from audited_keys.RunOnce_justified [OF aud this] False show ?thesis
    unfolding audited_keys.justified_def [OF aud] audited_keys.entry_def [OF aud]
      audited_keys.culprit_def [OF aud] audited_keys.lost_def [OF aud]
    by (simp add: auditTick_def NewAuditor_def makeUserinfoLookup_def Let_def del: split_paired_All)
qed

end
