(* ===== verification/KeyManagerProcess.thy ===== *)
theory KeyManagerProcess
  imports KeyManagerMain
begin

text \<open>
  \<open>key-manager/cmd/main.go\<close> as a process: start-up with its fatal exits, then a state machine of
  everything that runs beside each other: the model sync, the audit loop, the key refresh of the
  validator, requests, and the shutdown. The world is a pair: the validator with its outside
  world, and the cluster. What the HTTP server promises is that of \<open>net/http\<close>: once \<open>Shutdown\<close> is
  called no request is accepted and \<open>ListenAndServe\<close> returns at once, while requests are still in
  flight.
\<close>

section \<open>Start-up\<close>

text \<open>
  \<open>time.ParseDuration\<close>: signed sums of a decimal number and a unit, in nanoseconds and 64 bits.
  The product of a fraction and its unit is a floating-point one and an argument. \<open>fracDigits\<close>
  stops at the first digit that would not fit and drops the rest. Every malformed text gets the
  same message here.
\<close>

definition unitMap :: "nat gomap" where
  "unitMap = [(''ns'', 1), (''us'', 1000), ([CHR 0xC2, CHR 0xB5, CHR ''s''], 1000),
     ([CHR 0xCE, CHR 0xBC, CHR ''s''], 1000), (''ms'', 1000000), (''s'', 1000000000),
     (''m'', 60000000000), (''h'', 3600000000000)]"

definition digitValue :: "char \<Rightarrow> nat" where
  "digitValue c = of_char c - 48"

fun wholeDigits :: "nat \<Rightarrow> string \<Rightarrow> nat option" where
  "wholeDigits x [] = Some x"
| "wholeDigits x (c # cs) =
     (if x > 2 ^ 63 div 10 \<or> x * 10 + digitValue c > 2 ^ 63 then None else wholeDigits (x * 10 + digitValue c) cs)"

fun fracDigits :: "nat \<Rightarrow> nat \<Rightarrow> string \<Rightarrow> nat \<times> nat" where
  "fracDigits x scale [] = (x, scale)"
| "fracDigits x scale (c # cs) =
     (if x > (2 ^ 63 - 1) div 10 \<or> x * 10 + digitValue c > 2 ^ 63 then (x, scale)
      else fracDigits (x * 10 + digitValue c) (scale * 10) cs)"

definition durationPart :: "(nat \<Rightarrow> nat \<Rightarrow> nat \<Rightarrow> nat) \<Rightarrow> string \<Rightarrow> (nat \<times> string) option" where
  "durationPart fraction s =
     (let whole = takeWhile isDigit s; s1 = dropWhile isDigit s;
          dot = (s1 \<noteq> [] \<and> hd s1 = CHR ''.''); frac = (if dot then takeWhile isDigit (tl s1) else []);
          s2 = (if dot then dropWhile isDigit (tl s1) else s1);
          inUnit = (\<lambda>c. \<not> isDigit c \<and> c \<noteq> CHR ''.''); u = takeWhile inUnit s2; rest = dropWhile inUnit s2
      in case wholeDigits 0 whole of
           None \<Rightarrow> None
         | Some v \<Rightarrow>
             if (whole = [] \<and> frac = []) \<or> u = [] then None
             else case map_of unitMap u of
                    None \<Rightarrow> None
                  | Some unit \<Rightarrow>
                      if v > 2 ^ 63 div unit then None
                      else let (f, scale) = fracDigits 0 1 frac;
                               v' = v * unit + (if f > 0 then fraction f unit scale else 0)
                           in if v' > 2 ^ 63 then None else Some (v', rest))"

lemma durationPart_shorter: "durationPart fraction s = Some (v, rest) \<Longrightarrow> length rest < length s"
proof -
  assume part: "durationPart fraction s = Some (v, rest)"
  let ?inUnit = "\<lambda>c. \<not> isDigit c \<and> c \<noteq> CHR ''.''"
  let ?s1 = "dropWhile isDigit s"
  let ?s2 = "if ?s1 \<noteq> [] \<and> hd ?s1 = CHR ''.'' then dropWhile isDigit (tl ?s1) else ?s1"
  have s2: "length ?s2 \<le> length s"
    using length_dropWhile_le [of isDigit s] length_dropWhile_le [of isDigit "tl ?s1"] by auto
  from part have "takeWhile ?inUnit ?s2 \<noteq> []" "rest = dropWhile ?inUnit ?s2"
    by (auto simp: durationPart_def Let_def split: option.splits if_splits prod.splits)
  moreover have "length (takeWhile ?inUnit ?s2) + length (dropWhile ?inUnit ?s2) = length ?s2"
    by (metis length_append takeWhile_dropWhile_id)
  ultimately show ?thesis using s2 by (cases "takeWhile ?inUnit ?s2") auto
qed

function durationSum :: "(nat \<Rightarrow> nat \<Rightarrow> nat \<Rightarrow> nat) \<Rightarrow> nat \<Rightarrow> string \<Rightarrow> nat option" where
  "durationSum fraction d s =
     (if s = [] then Some d
      else case durationPart fraction s of
        None \<Rightarrow> None
      | Some (v, rest) \<Rightarrow>
          if (d + v) mod 2 ^ 64 > 2 ^ 63 then None else durationSum fraction ((d + v) mod 2 ^ 64) rest)"
  by pat_completeness auto
termination by (relation "measure (\<lambda>(fraction, d, s). length s)") (auto simp: durationPart_shorter)

definition parseDuration :: "(nat \<Rightarrow> nat \<Rightarrow> nat \<Rightarrow> nat) \<Rightarrow> string \<Rightarrow> gerror + int" where
  "parseDuration fraction orig =
     (let signed = (orig \<noteq> [] \<and> hd orig \<in> {CHR ''-'', CHR ''+''}); neg = (signed \<and> hd orig = CHR ''-'');
          s = (if signed then tl orig else orig);
          invalid = Inl (errorf (''time: invalid duration '' @ quote orig))
      in if s = ''0'' then Inr 0
         else if s = [] then invalid
         else case durationSum fraction 0 s of
           None \<Rightarrow> invalid
         | Some d \<Rightarrow> if neg then Inr (- int d) else if d > 2 ^ 63 - 1 then invalid else Inr (int d))"

record settings =
  st_apiKeysNamespace :: string
  st_groupsClaim :: string
  st_auditInterval :: int
  st_userinfoURL :: string
  st_listenAddr :: string

text \<open>The first fatal exit is the audit interval.\<close>

definition readSettings :: "(nat \<Rightarrow> nat \<Rightarrow> nat \<Rightarrow> nat) \<Rightarrow> environ \<Rightarrow> gerror + settings" where
  "readSettings fraction e =
     (let auditIntervalStr = getEnvOrDefault e ''LLM_AUDIT_INTERVAL'' ''5m''
      in case parseDuration fraction auditIntervalStr of
           Inl err \<Rightarrow> Inl (wrapErr (''invalid LLM_AUDIT_INTERVAL '' @ quote auditIntervalStr) err)
         | Inr d \<Rightarrow> Inr \<lparr>st_apiKeysNamespace = getEnvOrDefault e ''LLM_API_KEYS_NAMESPACE'' ''llm-api-keys'',
             st_groupsClaim = getEnvOrDefault e ''LLM_OIDC_GROUPS_CLAIM'' ''groups'', st_auditInterval = d,
             st_userinfoURL = getenv e ''LLM_OIDC_USERINFO_URL'',
             st_listenAddr = getEnvOrDefault e ''LLM_LISTEN_ADDR'' '':8080''\<rparr>)"

record ('w, 'k) kmLibrary =
  kl_fraction :: "nat \<Rightarrow> nat \<Rightarrow> nat \<Rightarrow> nat"
  kl_addClientGoScheme :: "gerror option"
  kl_addLLMScheme :: "gerror option"
  kl_inClusterConfig :: "gerror option"
  kl_newClient :: "gerror option"
  kl_llmmodels :: "('k, LLMModel) typed_client"
  kl_passthroughs :: "('k, PassthroughModel) typed_client"
  kl_secrets :: "('k, secret) typed_client"
  kl_configmaps :: "('k, configmap) typed_client"
  kl_keyEnv :: keyEnv
  kl_decode :: "string \<Rightarrow> createKeyRequest option"
  kl_jwt :: "'w jwtEnv"

text \<open>The API client, or the first fatal exit on the way to it.\<close>

fun firstFatal :: "(string \<times> gerror option) list \<Rightarrow> gerror + unit" where
  "firstFatal [] = Inr ()"
| "firstFatal ((what, None) # steps) = firstFatal steps"
| "firstFatal ((what, Some e) # steps) = Inl (wrapErr what e)"

definition setUpClient :: "('w, 'k) kmLibrary \<Rightarrow> gerror + unit" where
  "setUpClient lib = firstFatal
     [(''adding client-go scheme'', kl_addClientGoScheme lib), (''adding LLM scheme'', kl_addLLMScheme lib),
      (''getting in-cluster config'', kl_inClusterConfig lib), (''creating k8s client'', kl_newClient lib)]"

section \<open>Two worlds side by side\<close>

definition onSecond :: "('k, 'a) action \<Rightarrow> ('j \<times> 'k, 'a) action" where
  "onSecond f s = (case f (snd s) of (q, k) \<Rightarrow> (q, (fst s, k)))"

definition alongside :: "('k, 'o) typed_client \<Rightarrow> ('j \<times> 'k, 'o) typed_client" where
  "alongside c =
     \<lparr>tc_get = (\<lambda>n. onSecond (tc_get c n)), tc_list = (\<lambda>ns sel. onSecond (tc_list c ns sel)),
      tc_create = (\<lambda>x. onSecond (tc_create c x)), tc_update = (\<lambda>x. onSecond (tc_update c x)),
      tc_status_update = (\<lambda>x. onSecond (tc_status_update c x)), tc_delete = (\<lambda>n. onSecond (tc_delete c n))\<rparr>"

definition validateAlongside :: "'w jwtEnv \<Rightarrow> string \<Rightarrow> ('w jstate \<times> 'k, claims) action" where
  "validateAlongside env token s = (case ValidateToken env token (fst s) of (q, j) \<Rightarrow> (q, (j, snd s)))"

lemma onSecond_eq: "onSecond f s = (q, t) \<longleftrightarrow> (\<exists>k. f (snd s) = (q, k) \<and> t = (fst s, k))"
  by (auto simp: onSecond_def split: prod.splits)

lemma alongside_simps [simp]:
  "tc_get (alongside c) n = onSecond (tc_get c n)" "tc_list (alongside c) ns sel = onSecond (tc_list c ns sel)"
  "tc_create (alongside c) x = onSecond (tc_create c x)" "tc_update (alongside c) x = onSecond (tc_update c x)"
  "tc_status_update (alongside c) x = onSecond (tc_status_update c x)"
  "tc_delete (alongside c) n = onSecond (tc_delete c n)"
  by (simp_all add: alongside_def)

lemma kube_kind_alongside:
  assumes "kube_kind c view metaOf content"
  shows "kube_kind (alongside c) (\<lambda>s. view (snd s)) metaOf content"
proof (rule kube_kind.intro, unfold alongside_simps onSecond_eq, goal_cases)
  case 1 then show ?case using kube_kind.get_ok [OF assms] by fastforce
next
  case 2 then show ?case using kube_kind.get_err [OF assms] by fastforce
next
  case 3 then show ?case by (rule kube_kind.view_key [OF assms])
next
  case 4 then show ?case using kube_kind.list_ok [OF assms] by (elim exE conjE) (simp del: split_paired_Ex)
next
  case 5 then show ?case using kube_kind.list_err [OF assms] by fastforce
next
  case 6 then show ?case using kube_kind.update_ok [OF assms] by fastforce
next
  case 7 then show ?case using kube_kind.update_err [OF assms] by fastforce
next
  case 8 then show ?case using kube_kind.create_ok [OF assms] by fastforce
next
  case 9 then show ?case using kube_kind.create_err [OF assms] by fastforce
next
  case 10 then show ?case using kube_kind.create_exists [OF assms] by fastforce
qed

lemma keeps_onSecond: "keeps R f \<Longrightarrow> keeps (\<lambda>s t. fst t = fst s \<and> R (snd s) (snd t)) (onSecond f)"
  by (auto simp: keeps_def onSecond_eq)

lemma clientKeeps_alongside:
  "clientKeeps R c \<Longrightarrow> clientKeeps (\<lambda>s t. fst t = fst s \<and> R (snd s) (snd t)) (alongside c)"
  unfolding clientKeeps_def [of _ "alongside c"] alongside_simps
  by (intro conjI allI keeps_onSecond) (rule clientKeepsD, assumption)+

lemma clientKeeps_mono:
  assumes "clientKeeps R c" and "\<And>s t. R s t \<Longrightarrow> Q s t"
  shows "clientKeeps Q c"
  unfolding clientKeeps_def
  by (intro conjI allI; rule keeps_weaken [OF _ assms(2)], rule clientKeepsD [OF assms(1)])

lemma unaffected_alongside:
  assumes "unaffected v c"
  shows "unaffected (\<lambda>s. v (snd s)) (alongside c)"
  unfolding unaffected_def
  by (rule clientKeeps_mono [OF clientKeeps_alongside [OF assms [unfolded unaffected_def]]]) (simp add: same_def)

definition managerAlongside :: "'k Manager \<Rightarrow> ('j \<times> 'k) Manager" where
  "managerAlongside m = \<lparr>mgr_secrets = alongside (mgr_secrets m), mgr_configmaps = alongside (mgr_configmaps m),
     mgr_namespace = mgr_namespace m\<rparr>"

lemma key_stores_alongside:
  assumes "key_stores m viewS viewM"
  shows "key_stores (managerAlongside m :: ('j \<times> 'k) Manager) (\<lambda>s. viewS (snd s)) (\<lambda>s. viewM (snd s))"
proof -
  have two: "kube_two (mgr_secrets m) viewS sec_meta secretContent (mgr_configmaps m) viewM cm_meta configmapContent"
    using assms by (simp add: key_stores_def)
  show ?thesis
    unfolding managerAlongside_def key_stores_def kube_two_def kube_two_axioms_def Manager.simps
    using two [unfolded kube_two_def kube_two_axioms_def]
    by (intro conjI kube_kind_alongside unaffected_alongside) blast+
qed

section \<open>The running process\<close>

record ('w, 'k) process =
  pc_world :: "'w jstate \<times> 'k"
  pc_watcher :: "'k Watcher"
  pc_inflight :: "request list"
  pc_audited :: bool
  pc_cancelled :: bool
  pc_shutdown :: bool
  pc_validatorStopped :: bool
  pc_exit :: "nat option"

definition newManager :: "('w, 'k) kmLibrary \<Rightarrow> settings \<Rightarrow> 'k Manager" where
  "newManager lib st = \<lparr>mgr_secrets = kl_secrets lib, mgr_configmaps = kl_configmaps lib,
     mgr_namespace = st_apiKeysNamespace st\<rparr>"

text \<open>A sync that fails is logged and leaves the cache as it is.\<close>

definition syncModels :: "('w, 'k) process \<Rightarrow> ('w, 'k) process" where
  "syncModels p =
     (case Sync (pc_watcher p) (snd (pc_world p)) of
        (Inl err, k) \<Rightarrow> p\<lparr>pc_world := (fst (pc_world p), k)\<rparr>
      | (Inr w, k) \<Rightarrow> p\<lparr>pc_world := (fst (pc_world p), k), pc_watcher := w\<rparr>)"

text \<open>
  The start-up up to the listening server, with what the rest of the life depends on: the settings
  and the configuration of the middleware. In dev mode no validator is created; the one in the
  state is then not used.
\<close>

definition startKeyManager ::
  "('w, 'k) kmLibrary \<Rightarrow> environ \<Rightarrow> 'w \<times> 'k \<Rightarrow>
   gerror + settings \<times> ('w jstate \<times> 'k) AuthConfig \<times> ('w, 'k) process" where
  "startKeyManager lib e s =
     (case readSettings (kl_fraction lib) e of
        Inl err \<Rightarrow> Inl err
      | Inr st \<Rightarrow>
          (case setUpClient lib of
             Inl err \<Rightarrow> Inl err
           | Inr _ \<Rightarrow>
               let p = syncModels \<lparr>pc_world = ((keycloakValidator e, fst s), snd s),
                     pc_watcher = NewWatcher (kl_llmmodels lib) (kl_passthroughs lib), pc_inflight = [], pc_audited = False,
                     pc_cancelled = False, pc_shutdown = False, pc_validatorStopped = False, pc_exit = None\<rparr>
               in (case authConfig e (validateAlongside (kl_jwt lib)) of
                     Inl err \<Rightarrow> Inl err
                   | Inr cfg \<Rightarrow> Inr (st, cfg, p))))"

text \<open>One run of the background goroutine of the validator: the first fetch, or a refresh.\<close>

definition fetchOnce :: "'w jwtEnv \<Rightarrow> 'w jstate \<Rightarrow> 'w jstate" where
  "fetchOnce env j =
     (case fetchPublicKeys env j of
        (Inl err, j') \<Rightarrow> j'
      | (Inr _, j') \<Rightarrow> ((fst j')\<lparr>jv_ready := True\<rparr>, snd j'))"

definition handlerNow :: "('w, 'k) kmLibrary \<Rightarrow> settings \<Rightarrow> (nat \<Rightarrow> draw) \<Rightarrow> ('w, 'k) process \<Rightarrow>
   ('w jstate \<times> 'k) Handler" where
  "handlerNow lib st draws p = NewHandler (FilterModelsForUser (pc_watcher p))
     (secretsManager (kl_keyEnv lib) (managerAlongside (newManager lib st)) draws) (kl_decode lib)"

datatype kmEvent = Internal | Answered request

text \<open>
  The steps. \<open>crash\<close>: after its first pass the audit goroutine makes a ticker of the configured
  interval, which panics when it is not positive. \<open>shut\<close>: the shutdown goroutine calls \<open>Shutdown\<close>; \<open>drained\<close>: the call
  returned, because no request was left or because ten seconds were over, and the validator is
  stopped; \<open>exits\<close>: \<open>ListenAndServe\<close> returned \<open>ErrServerClosed\<close>, main returns, and with it the
  process ends.
\<close>

inductive km_step ::
  "('w, 'k) kmLibrary \<Rightarrow> environ \<Rightarrow> settings \<Rightarrow> ('w jstate \<times> 'k) AuthConfig \<Rightarrow>
   ('w, 'k) process \<Rightarrow> kmEvent \<Rightarrow> ('w, 'k) process \<Rightarrow> bool"
  for lib e st cfg where
  sync: "pc_exit p = None \<Longrightarrow> km_step lib e st cfg p Internal (syncModels p)"
| audit: "pc_exit p = None \<Longrightarrow> st_userinfoURL st \<noteq> [] \<Longrightarrow>
    km_step lib e st cfg p Internal (p\<lparr>pc_world := auditTick e (ListModels (pc_watcher p)) (kl_keyEnv lib)
      (managerAlongside (newManager lib st)) (pc_world p), pc_audited := True\<rparr>)"
| crash: "pc_exit p = None \<Longrightarrow> st_userinfoURL st \<noteq> [] \<Longrightarrow> pc_audited p \<Longrightarrow> st_auditInterval st \<le> 0 \<Longrightarrow>
    km_step lib e st cfg p Internal (p\<lparr>pc_exit := Some 2\<rparr>)"
| fetch: "pc_exit p = None \<Longrightarrow> \<not> pc_validatorStopped p \<Longrightarrow>
    km_step lib e st cfg p Internal (p\<lparr>pc_world := (fetchOnce (kl_jwt lib) (fst (pc_world p)), snd (pc_world p))\<rparr>)"
| time: "pc_exit p = None \<Longrightarrow>
    km_step lib e st cfg p Internal (p\<lparr>pc_world := ((fst (fst (pc_world p)), w), snd (pc_world p))\<rparr>)"
| request: "pc_exit p = None \<Longrightarrow> \<not> pc_shutdown p \<Longrightarrow> rq_user r = None \<Longrightarrow>
    km_step lib e st cfg p Internal (p\<lparr>pc_inflight := pc_inflight p @ [r]\<rparr>)"
| answer: "pc_exit p = None \<Longrightarrow> r \<in> set (pc_inflight p) \<Longrightarrow>
    finalHandler cfg (handlerNow lib st draws p) r (pc_world p) = (resp, s) \<Longrightarrow>
    km_step lib e st cfg p (Answered r) (p\<lparr>pc_world := s, pc_inflight := remove1 r (pc_inflight p)\<rparr>)"
| cancel: "pc_exit p = None \<Longrightarrow> km_step lib e st cfg p Internal (p\<lparr>pc_cancelled := True\<rparr>)"
| shut: "pc_exit p = None \<Longrightarrow> pc_cancelled p \<Longrightarrow> km_step lib e st cfg p Internal (p\<lparr>pc_shutdown := True\<rparr>)"
| drained: "pc_exit p = None \<Longrightarrow> pc_shutdown p \<Longrightarrow>
    km_step lib e st cfg p Internal (p\<lparr>pc_validatorStopped := True\<rparr>)"
| exits: "pc_exit p = None \<Longrightarrow> pc_shutdown p \<Longrightarrow> km_step lib e st cfg p Internal (p\<lparr>pc_exit := Some 0\<rparr>)"
| fails: "pc_exit p = None \<Longrightarrow> \<not> pc_shutdown p \<Longrightarrow> km_step lib e st cfg p Internal (p\<lparr>pc_exit := Some 1\<rparr>)"

inductive_cases km_stepE: "km_step lib e st cfg p ev q"

inductive km_run ::
  "('w, 'k) kmLibrary \<Rightarrow> environ \<Rightarrow> settings \<Rightarrow> ('w jstate \<times> 'k) AuthConfig \<Rightarrow>
   ('w, 'k) process \<Rightarrow> kmEvent list \<Rightarrow> ('w, 'k) process \<Rightarrow> bool"
  for lib e st cfg where
  idle: "km_run lib e st cfg p [] p"
| steps: "km_step lib e st cfg p ev q \<Longrightarrow> km_run lib e st cfg q evs u \<Longrightarrow> km_run lib e st cfg p (ev # evs) u"


section \<open>Where the cached keys come from\<close>

text \<open>A key of the realm: its endpoint served it, under that id, in a document it answered with 200.\<close>

definition realmKey :: "'w jwtEnv \<Rightarrow> JWTValidator \<Rightarrow> string \<Rightarrow> rsaKey \<Rightarrow> bool" where
  "realmKey env v kid pk \<longleftrightarrow> (\<exists>w w' body doc x. je_do env (certsURL v) w = (Inr (200, body), w') \<and>
     je_decode env (limitReader body maxJWKSBytes) = Inr doc \<and> x \<in> set (jwks_Keys doc) \<and>
     jwk_Kty x = ''RSA'' \<and> jwk_Kid x = kid \<and> parseRSAPublicKey x = Inr pk)"

definition published :: "'w jwtEnv \<Rightarrow> JWTValidator \<Rightarrow> bool" where
  "published env v \<longleftrightarrow> (\<forall>kid pk. map_of (jv_publicKeys v) kid = Some pk \<longrightarrow> realmKey env v kid pk)"

definition guarded :: "'w jwtEnv \<Rightarrow> 'w jstate \<Rightarrow> 'w jstate \<Rightarrow> bool" where
  "guarded env s t \<longleftrightarrow> sameConfig (fst s) (fst t) \<and> (published env (fst s) \<longrightarrow> published env (fst t))"

lemma guarded_refl [simp]: "guarded env s s"
  by (simp add: guarded_def)

lemma guarded_trans: "guarded env s t \<Longrightarrow> guarded env t u \<Longrightarrow> guarded env s u"
  by (auto simp: guarded_def elim: sameConfig_trans)

lemma realmKey_config: "sameConfig v v' \<Longrightarrow> realmKey env v' = realmKey env v"
  by (simp add: realmKey_def certsURL_def sameConfig_def fun_eq_iff)

lemma guarded_field:
  "sameConfig v v' \<Longrightarrow> jv_publicKeys v' = jv_publicKeys v \<Longrightarrow> guarded env (v, w) (v', w')"
  by (auto simp: guarded_def published_def realmKey_config)

lemma keeps_snd: "keeps R f \<Longrightarrow> R s (snd (f s))"
  by (metis keepsD prod.collapse)

lemma map_of_addKeys:
  "map_of (fold addKey xs m) kid = Some pk \<Longrightarrow> map_of m kid = Some pk \<or>
     (\<exists>x \<in> set xs. jwk_Kty x = ''RSA'' \<and> jwk_Kid x = kid \<and> parseRSAPublicKey x = Inr pk)"
proof (induction xs arbitrary: m)
  case (Cons x xs)
  have one: "map_of m kid = Some pk \<or> jwk_Kty x = ''RSA'' \<and> jwk_Kid x = kid \<and> parseRSAPublicKey x = Inr pk"
    if "map_of (addKey x m) kid = Some pk"
    using that by (auto simp: addKey_def update_conv' split: if_splits sum.splits)
  from Cons.prems have "map_of (fold addKey xs (addKey x m)) kid = Some pk" by simp
  from Cons.IH [OF this] one show ?case by (auto simp del: map_of_eq_Some_iff)
qed simp

lemma fetch_guarded: "keeps (guarded env) (fetchPublicKeys env)"
proof (rule keepsI)
  fix s r t assume f: "fetchPublicKeys env s = (r, t)"
  obtain v w where s: "s = (v, w)" by fastforce
  obtain q w' where d: "je_do env (certsURL v) w = (q, w')" by fastforce
  have cfg: "sameConfig v (fst t)" using fetch_state [OF f] s by simp
  show "guarded env s t"
  proof (cases "fst t = v")
    case True
    with s show ?thesis by (simp add: guarded_def)
  next
    case False
    with f s d obtain body doc where q: "q = Inr (200, body)"
      and doc: "je_decode env (limitReader body maxJWKSBytes) = Inr doc"
      and keys: "jv_publicKeys (fst t) = fold addKey (jwks_Keys doc) []"
      by (auto simp: fetchPublicKeys_def Let_def split: option.splits sum.splits if_splits)
    have "realmKey env v kid pk" if "map_of (jv_publicKeys (fst t)) kid = Some pk" for kid pk
      using map_of_addKeys [of "jwks_Keys doc" "[]" kid pk] that d q doc
      unfolding realmKey_def keys by simp blast
    then show ?thesis using cfg s by (simp add: guarded_def published_def realmKey_config [OF cfg])
  qed
qed

lemma refreshUnknown_guarded: "keeps (guarded env) (refreshForUnknownKID env)"
proof (rule keepsI)
  fix s r t assume f: "refreshForUnknownKID env s = (r, t)"
  let ?v = "(fst s)\<lparr>jv_lastKIDRefresh := je_now env (snd s)\<rparr>"
  show "guarded env s t"
  proof (cases "suppressed (fst s) (je_now env (snd s))")
    case True
    with f show ?thesis by (cases s) (auto simp: refreshForUnknownKID_def)
  next
    case False
    with f have "fetchPublicKeys env (?v, snd s) = (r, t)"
      by (cases s) (auto simp: refreshForUnknownKID_def Let_def)
    from keepsD [OF fetch_guarded this] have "guarded env (?v, snd s) t" .
    moreover have "guarded env s (?v, snd s)"
      using guarded_field [of "fst s" ?v env "snd s" "snd s"] by (simp add: sameConfig_def)
    ultimately show ?thesis by (blast intro: guarded_trans)
  qed
qed

lemma keyFunc_guarded: "keeps (guarded env) (keyFunc env h)"
proof (rule keepsI)
  fix s r t assume "keyFunc env h s = (r, t)"
  then have "t = s \<or> t = snd (refreshForUnknownKID env s)"
    by (auto simp: keyFunc_def Let_def split: if_splits option.splits)
  then show "guarded env s t"
    using keeps_snd [OF refreshUnknown_guarded, where s = s] by auto
qed

lemma fetchOnce_guarded: "guarded env j (fetchOnce env j)"
proof -
  obtain q t where f: "fetchPublicKeys env j = (q, t)" by (metis prod.collapse)
  have "guarded env t ((fst t)\<lparr>jv_ready := True\<rparr>, snd t)"
    using guarded_field [of "fst t" "(fst t)\<lparr>jv_ready := True\<rparr>" env "snd t"] by (simp add: sameConfig_def)
  with keepsD [OF fetch_guarded f] f show ?thesis
    by (auto simp: fetchOnce_def split: sum.splits intro: guarded_trans)
qed

context jwt_library
begin

lemma validate_guarded:
  assumes "je_parse env = parse"
  shows "keeps (guarded env) (ValidateToken env tok)"
proof (rule keepsI)
  fix s r t assume v: "ValidateToken env tok s = (r, t)"
  obtain q u where p: "parse tok (keyFunc env) clockLeeway s = (q, u)" by (metis prod.collapse)
  have "guarded env s u"
    using parse_state [OF p] keeps_snd [OF keyFunc_guarded, where s = s] by auto
  moreover have "t = s \<or> t = u"
    using v p assms by (auto simp: ValidateToken_def Let_def split: if_splits sum.splits)
  ultimately show "guarded env s t" by auto
qed

end


section \<open>Who changes the keys\<close>

text \<open>A token the realm of the environment issued: signed by one of its keys, for the pinned client.\<close>

definition genuine ::
  "'w jwtEnv \<Rightarrow> environ \<Rightarrow> (string \<Rightarrow> rsaKey \<Rightarrow> bool) \<Rightarrow> (string \<Rightarrow> tokenHeader option) \<Rightarrow> (string \<Rightarrow> claims) \<Rightarrow>
   ('w jstate \<Rightarrow> int \<Rightarrow> claims \<Rightarrow> bool) \<Rightarrow> string \<Rightarrow> bool" where
  "genuine env e signedBy headerOf claimsOf timely tok \<longleftrightarrow>
     (\<exists>h kid pk. headerOf tok = Some h \<and> th_rsa h \<and> th_kid h = Some kid \<and>
        realmKey env (keycloakValidator e) kid pk \<and> signedBy tok pk) \<and>
     (\<exists>j. timely j clockLeeway (claimsOf tok)) \<and>
     strOr (map_of (claimsOf tok) ''iss'') = expectedIssuer (keycloakValidator e) \<and>
     (getenv e ''LLM_KEYCLOAK_SPA_CLIENT_ID'' = [] \<or>
        strOr (map_of (claimsOf tok) ''azp'') = getenv e ''LLM_KEYCLOAK_SPA_CLIENT_ID'')"

definition credential :: "('k \<Rightarrow> nsname \<Rightarrow> secret option) \<Rightarrow> nsname \<Rightarrow> string \<Rightarrow> 'k \<Rightarrow> bytes option option" where
  "credential vS n k s = map_option (\<lambda>x. map_of (sec_data x) k) (vS s n)"

context key_stores
begin

lemma mux_reads:
  assumes "rq_method r \<notin> {''POST'', ''DELETE''}"
  shows "viewS (snd (serveMux (RegisterRoutes (NewHandler l (secretsManager env m draws) dec)) r s)) = viewS s"
proof (rule serveMux_cases)
  fix rt vs
  assume "rt \<in> set (RegisterRoutes (NewHandler l (secretsManager env m draws) dec))"
    and "methodMatches (rt_method rt) (rq_method r)"
    and run: "serveMux (RegisterRoutes (NewHandler l (secretsManager env m draws) dec)) r s = rt_handler rt (r\<lparr>rq_pathValues := vs\<rparr>) s"
  with assms show ?thesis unfolding run
    by (auto simp: RegisterRoutes_def NewHandler_def secretsManager_def methodMatches_def healthz_def getMe_def
        getModels_def getKeys_def UserFromContext_def Let_def dest!: listKeysForUser_views
        split: option.splits prod.splits sum.splits)
qed simp

end

context frame
begin

lemma keeps_mux:
  assumes "clientKeeps R (mgr_secrets m)" and "clientKeeps R (mgr_configmaps m)"
  shows "R s (snd (serveMux (RegisterRoutes (NewHandler l (secretsManager env m draws) dec)) r s))"
proof -
  note [dest!] = keepsD [OF keeps_manager(1) [OF assms]] keepsD [OF keeps_manager(2) [OF assms]]
    keepsD [OF keeps_manager(3) [OF assms]] keepsD [OF keeps_manager(4) [OF assms]]
  show ?thesis
  proof (rule serveMux_cases)
    assume "snd (serveMux (RegisterRoutes (NewHandler l (secretsManager env m draws) dec)) r s) = s"
    then show ?thesis by (simp add: refl)
  next
    fix rt vs
    assume "rt \<in> set (RegisterRoutes (NewHandler l (secretsManager env m draws) dec))"
      and run: "serveMux (RegisterRoutes (NewHandler l (secretsManager env m draws) dec)) r s = rt_handler rt (r\<lparr>rq_pathValues := vs\<rparr>) s"
    then show ?thesis unfolding run
      by (auto simp: RegisterRoutes_def NewHandler_def secretsManager_def healthz_def getMe_def getModels_def
          getKeys_def createKeyHandler_def deleteKey_def UserFromContext_def Let_def
          intro: refl trans split: option.splits prod.splits sum.splits if_splits)
  qed
qed

lemma keeps_audit:
  assumes "clientKeeps R (mgr_secrets m)" and "clientKeeps R (mgr_configmaps m)"
  shows "R s (auditTick e ms env m s)"
proof -
  let ?a = "NewAuditor ms env m (makeUserinfoLookup (getenv e ''LLM_OIDC_USERINFO_URL''))"
  have "auditKey ?a mi i acc = acc" for mi i acc
    by (simp add: auditKey_def NewAuditor_def makeUserinfoLookup_def split: prod.split)
  then have keys: "fold (auditKey ?a mi) is acc = acc" for mi "is" acc
    by (induction "is") simp_all
  have model: "R t (snd (auditModel ?a mi (errs, t)))" for mi errs t
    using keeps_snd [OF keeps_manager(3) [OF assms], of t env "mi_Name mi"] keys
    by (auto simp: auditModel_def NewAuditor_def refl split: prod.splits sum.splits)
  have "R t (snd (fold (auditModel ?a) mis acc))" if "R t (snd acc)" for t mis acc
    using that
  proof (induction mis arbitrary: acc)
    case (Cons mi mis)
    from trans [OF Cons.prems model [of "snd acc" mi "fst acc"]] show ?case by (simp add: Cons.IH)
  qed simp
  from this [of s "([], s)" ms] show ?thesis
    by (auto simp: auditTick_def RunOnce_def NewAuditor_def refl Let_def split: prod.splits)
qed

end

text \<open>Calls of the cluster side leave the validator's side alone.\<close>

lemma fst_alongside: "clientKeeps (same fst) (alongside c)"
proof (rule clientKeeps_mono)
  show "clientKeeps (\<lambda>s t. fst t = fst s \<and> True) (alongside c)"
    by (rule clientKeeps_alongside) (simp add: clientKeeps_def keeps_def)
qed (simp add: same_def)

lemma frame_fst: "frame (same fst)"
  by unfold_locales (simp_all add: same_def)

locale running_manager =
  keys: key_stores "newManager lib st" vS vM +
  jwt: jwt_library "je_parse (kl_jwt lib)" signedBy headerOf claimsOf timely
  for lib :: "('w, 'k) kmLibrary" and st vS vM signedBy headerOf claimsOf timely +
  assumes models_quiet: "unaffected vS (kl_llmmodels lib)"
    and passthroughs_quiet: "unaffected vS (kl_passthroughs lib)"
begin

definition inv :: "environ \<Rightarrow> ('w, 'k) process \<Rightarrow> bool" where
  "inv e p \<longleftrightarrow> (\<forall>r \<in> set (pc_inflight p). rq_user r = None) \<and>
     sameConfig (keycloakValidator e) (fst (fst (pc_world p))) \<and> published (kl_jwt lib) (fst (fst (pc_world p))) \<and>
     w_llmmodels (pc_watcher p) = kl_llmmodels lib \<and> w_passthroughs (pc_watcher p) = kl_passthroughs lib"

lemma sync_step:
  assumes "inv e p"
  shows "inv e (syncModels p)" and "vS (snd (pc_world (syncModels p))) = vS (snd (pc_world p))"
proof -
  obtain q k where s: "Sync (pc_watcher p) (snd (pc_world p)) = (q, k)" by fastforce
  have frm: "frame (same vS)" by unfold_locales (simp_all add: same_def)
  have "keeps (same vS) (Sync (pc_watcher p))"
    using assms clientKeepsD(2) [OF models_quiet [unfolded unaffected_def]]
      clientKeepsD(2) [OF passthroughs_quiet [unfolded unaffected_def]]
    unfolding Sync_def inv_def by (intro frame.keeps_bind [OF frm] frame.keeps_return [OF frm]) auto
  with s have "vS k = vS (snd (pc_world p))" by (auto dest: keepsD simp: same_def)
  then show "vS (snd (pc_world (syncModels p))) = vS (snd (pc_world p))"
    using s by (simp add: syncModels_def split: sum.splits)
  have "w_llmmodels w = w_llmmodels (pc_watcher p) \<and> w_passthroughs w = w_passthroughs (pc_watcher p)"
    if "q = Inr w" for w
    using s that by (auto simp: Sync_def bindE_def returnE_def split: prod.splits sum.splits)
  then show "inv e (syncModels p)"
    using assms s by (auto simp: syncModels_def inv_def split: sum.splits)
qed

lemma accepted_genuine:
  assumes v: "ValidateToken (kl_jwt lib) tok j = (Inr claims, j')"
    and "sameConfig (keycloakValidator e) (fst j)" and "published (kl_jwt lib) (fst j)"
  shows "genuine (kl_jwt lib) e signedBy headerOf claimsOf timely tok"
proof -
  note g = keepsD [OF jwt.validate_guarded [OF refl] v]
  note a = jwt.accepted_token [OF v refl]
  have "jv_expectedClientID (fst j) = getenv e ''LLM_KEYCLOAK_SPA_CLIENT_ID''"
    "expectedIssuer (fst j) = expectedIssuer (keycloakValidator e)"
    using assms(2) by (auto simp: sameConfig_def expectedIssuer_def keycloakValidator_def SetExpectedClientID_def)
  moreover have "realmKey (kl_jwt lib) (keycloakValidator e) kid pk"
    if "map_of (jv_publicKeys (fst j')) kid = Some pk" for kid pk
    using that g assms(2,3) realmKey_config [OF assms(2), of "kl_jwt lib"]
      realmKey_config [of "fst j" "fst j'" "kl_jwt lib"]
    by (simp add: guarded_def published_def)
  ultimately show ?thesis using a unfolding genuine_def by (simp del: split_paired_Ex) blast
qed

text \<open>A request that may change the keys.\<close>

definition entitled :: "environ \<Rightarrow> request \<Rightarrow> bool" where
  "entitled e r \<longleftrightarrow> rq_method r \<in> {''POST'', ''DELETE''} \<and> hasPrefix (rq_path r) ''/api/'' \<and>
     (devModeOn e \<or> (\<exists>tok. rq_authorization r = ''Bearer '' @ tok \<and>
        genuine (kl_jwt lib) e signedBy headerOf claimsOf timely tok))"

lemma answer_step:
  assumes cfg: "authConfig e (validateAlongside (kl_jwt lib)) = Inr cfg"
    and p: "inv e p" and r: "rq_user r = None"
    and run: "finalHandler cfg (handlerNow lib st draws p) r (pc_world p) = (resp, s)"
  shows "guarded (kl_jwt lib) (fst (pc_world p)) (fst s)"
    and "vS (snd s) \<noteq> vS (snd (pc_world p)) \<Longrightarrow> entitled e r"
proof -
  let ?G = "guarded (kl_jwt lib) (fst (pc_world p)) (fst s) \<and>
    (vS (snd s) \<noteq> vS (snd (pc_world p)) \<longrightarrow> entitled e r)"
  let ?mux = "\<lambda>r t. serveMux (RegisterRoutes (handlerNow lib st draws p)) r t"
  have mux: "fst (snd (?mux r t)) = fst t"
    "rq_method r \<notin> {''POST'', ''DELETE''} \<Longrightarrow> vS (snd (snd (?mux r t))) = vS (snd t)" for r t
  proof -
    have "same fst t (snd (?mux r t))" unfolding handlerNow_def
      by (intro frame.keeps_mux [OF frame_fst]) (simp_all add: managerAlongside_def fst_alongside)
    then show "fst (snd (?mux r t)) = fst t" by (simp add: same_def)
    assume "rq_method r \<notin> {''POST'', ''DELETE''}"
    then show "vS (snd (snd (?mux r t))) = vS (snd t)" unfolding handlerNow_def
      by (rule key_stores.mux_reads [OF key_stores_alongside [OF keys.key_stores_axioms]])
  qed
  have val: "guarded (kl_jwt lib) (fst (pc_world p)) (fst (snd (validateAlongside (kl_jwt lib) tok (pc_world p))))"
    "snd (snd (validateAlongside (kl_jwt lib) tok (pc_world p))) = snd (pc_world p)" for tok
    using keeps_snd [OF jwt.validate_guarded [OF refl], where s = "fst (pc_world p)" and tok1 = tok]
    by (cases "ValidateToken (kl_jwt lib) tok (fst (pc_world p))", simp add: validateAlongside_def)+
  from cfg r have ?G
  proof (cases rule: finalHandler_cases [where h = "handlerNow lib st draws p" and s = "pc_world p"])
    case stopped
    with run val show ?thesis by auto
  next
    case (accepted tok claims s1)
    obtain q j where v: "ValidateToken (kl_jwt lib) tok (fst (pc_world p)) = (q, j)" by (metis prod.collapse)
    with accepted(3) have q: "q = Inr claims" by (simp add: validateAlongside_def)
    have "genuine (kl_jwt lib) e signedBy headerOf claimsOf timely tok"
      using accepted_genuine [OF v [unfolded q]] p by (simp add: inv_def)
    moreover have "?mux (r\<lparr>rq_user := Some (userInfoFromClaims claims (getEnvOrDefault e ''LLM_OIDC_GROUPS_CLAIM'' ''groups''))\<rparr>) s1 = (resp, s)"
      using accepted(4) run by metis
    from mux [of "r\<lparr>rq_user := Some (userInfoFromClaims claims (getEnvOrDefault e ''LLM_OIDC_GROUPS_CLAIM'' ''groups''))\<rparr>" s1, unfolded this]
    have "fst s = fst s1" "rq_method r \<notin> {''POST'', ''DELETE''} \<Longrightarrow> vS (snd s) = vS (snd s1)" by simp_all
    ultimately show ?thesis using val [of tok] accepted unfolding entitled_def by auto
  next
    case developer
    have "?mux (r\<lparr>rq_user := Some (devIdentity e)\<rparr>) (pc_world p) = (resp, s)"
      using developer(3) run by metis
    from mux [of "r\<lparr>rq_user := Some (devIdentity e)\<rparr>" "pc_world p", unfolded this]
    have "fst s = fst (pc_world p)"
      "rq_method r \<notin> {''POST'', ''DELETE''} \<Longrightarrow> vS (snd s) = vS (snd (pc_world p))" by simp_all
    with developer show ?thesis unfolding entitled_def by auto
  qed
  then show "guarded (kl_jwt lib) (fst (pc_world p)) (fst s)"
    and "vS (snd s) \<noteq> vS (snd (pc_world p)) \<Longrightarrow> entitled e r"
    by blast+
qed

lemma inv_world:
  "inv e p \<Longrightarrow> guarded (kl_jwt lib) (fst (pc_world p)) (fst s) \<Longrightarrow> inv e (p\<lparr>pc_world := s, pc_audited := b\<rparr>)"
  by (auto simp: inv_def guarded_def elim: sameConfig_trans)

lemma km_step_keeps:
  assumes step: "km_step lib e st cfg p ev q"
    and cfg: "authConfig e (validateAlongside (kl_jwt lib)) = Inr cfg" and p: "inv e p"
  shows "inv e q \<and> (credential vS n k (snd (pc_world q)) = credential vS n k (snd (pc_world p)) \<or>
    (\<exists>r. ev = Answered r \<and> entitled e r))"
  using step
proof cases
  case sync
  with sync_step [OF p] show ?thesis by (simp add: credential_def)
next
  case audit
  let ?m = "managerAlongside (newManager lib st)" and ?ms = "ListModels (pc_watcher p)"
  have "same fst (pc_world p) (auditTick e ?ms (kl_keyEnv lib) ?m (pc_world p))"
    by (intro frame.keeps_audit [OF frame_fst]) (simp_all add: managerAlongside_def fst_alongside)
  with audit p inv_world [OF p, of _ True]
    deployed_audit_revokes_nothing [OF key_stores_alongside [OF keys.key_stores_axioms], of k e ?ms "kl_keyEnv lib" "pc_world p" n]
  show ?thesis by (simp add: credential_def same_def)
next
  case fetch
  with inv_world [OF p, of _ "pc_audited p"] fetchOnce_guarded [of "kl_jwt lib" "fst (pc_world p)"] show ?thesis by (simp add: credential_def)
next
  case (time w)
  with p show ?thesis by (simp add: credential_def inv_def)
next
  case (answer r draws resp s)
  then have r: "rq_user r = None" using p by (simp add: inv_def)
  note a = answer_step [OF cfg p r answer(5)]
  have "inv e q" using inv_world [OF p a(1), of "pc_audited p"] answer(2)
    by (auto simp: inv_def dest: notin_set_remove1)
  with a(2) answer(1,2) show ?thesis by (cases "vS (snd s) = vS (snd (pc_world p))") (auto simp: credential_def)
qed (use p in \<open>auto simp: inv_def credential_def\<close>)

lemma km_run_keeps:
  "km_run lib e st cfg p evs q \<Longrightarrow> authConfig e (validateAlongside (kl_jwt lib)) = Inr cfg \<Longrightarrow>
   inv e p \<Longrightarrow> credential vS n k (snd (pc_world q)) \<noteq> credential vS n k (snd (pc_world p)) \<Longrightarrow>
   \<exists>r. Answered r \<in> set evs \<and> entitled e r"
proof (induction rule: km_run.induct)
  case (steps p ev q evs u)
  from km_step_keeps [OF steps.hyps(1) steps.prems(1,2), of n k] show ?case
    using steps.IH [OF steps.prems(1)] steps.prems(3) by fastforce
qed simp

lemma start_inv:
  assumes "startKeyManager lib e s = Inr (st', cfg, p)"
  shows "authConfig e (validateAlongside (kl_jwt lib)) = Inr cfg \<and> inv e p \<and> vS (snd (pc_world p)) = vS (snd s)"
proof -
  let ?p = "\<lparr>pc_world = ((keycloakValidator e, fst s), snd s),
     pc_watcher = NewWatcher (kl_llmmodels lib) (kl_passthroughs lib), pc_inflight = [], pc_audited = False,
     pc_cancelled = False, pc_shutdown = False, pc_validatorStopped = False, pc_exit = None\<rparr>"
  have keys: "jv_publicKeys (keycloakValidator e) = []"
    by (simp add: keycloakValidator_def SetExpectedClientID_def SetIssuerURL_def NewJWTValidator_def Let_def)
  have "inv e ?p" by (simp add: inv_def published_def keys NewWatcher_def)
  from sync_step [OF this] assms show ?thesis
    by (auto simp: startKeyManager_def Let_def split: sum.splits)
qed

end

section \<open>Leaving\<close>

lemma km_run_append:
  "km_run lib e st cfg p evs q \<Longrightarrow> km_run lib e st cfg q evs' u \<Longrightarrow> km_run lib e st cfg p (evs @ evs') u"
  by (induction rule: km_run.induct) (auto intro: km_run.intros)

lemma accepts_all:
  "pc_exit p = None \<Longrightarrow> \<not> pc_shutdown p \<Longrightarrow> \<forall>r \<in> set rs. rq_user r = None \<Longrightarrow>
   km_run lib e st cfg p (map (\<lambda>_. Internal) rs) (p\<lparr>pc_inflight := pc_inflight p @ rs\<rparr>)"
proof (induction rs arbitrary: p)
  case Nil
  then show ?case by (simp add: idle)
next
  case (Cons r rs)
  from Cons.IH [of "p\<lparr>pc_inflight := pc_inflight p @ [r]\<rparr>"] Cons.prems
  have "km_run lib e st cfg (p\<lparr>pc_inflight := pc_inflight p @ [r]\<rparr>) (map (\<lambda>_. Internal) rs)
      (p\<lparr>pc_inflight := pc_inflight p @ r # rs\<rparr>)" by simp
  with km_step.request [of p r lib e st cfg] Cons.prems show ?case by (auto intro: km_run.steps)
qed

lemma leaves_now:
  assumes "pc_exit p = None"
  shows "km_run lib e st cfg p [Internal, Internal, Internal]
    (p\<lparr>pc_cancelled := True, pc_shutdown := True, pc_exit := Some 0\<rparr>)"
proof -
  have "km_step lib e st cfg p Internal (p\<lparr>pc_cancelled := True\<rparr>)" by (rule km_step.cancel [OF assms])
  moreover have "km_step lib e st cfg (p\<lparr>pc_cancelled := True\<rparr>) Internal (p\<lparr>pc_cancelled := True, pc_shutdown := True\<rparr>)"
    using km_step.shut [of "p\<lparr>pc_cancelled := True\<rparr>"] assms by simp
  moreover have "km_step lib e st cfg (p\<lparr>pc_cancelled := True, pc_shutdown := True\<rparr>) Internal
      (p\<lparr>pc_cancelled := True, pc_shutdown := True, pc_exit := Some 0\<rparr>)"
    using km_step.exits [of "p\<lparr>pc_cancelled := True, pc_shutdown := True\<rparr>"] assms by simp
  ultimately show ?thesis by (blast intro: km_run.intros)
qed

lemma km_step_live: "km_step lib e st cfg p ev q \<Longrightarrow> pc_exit p = None"
  by (erule km_stepE) auto

lemma syncModels_keeps [simp]:
  "pc_exit (syncModels p) = pc_exit p" "pc_inflight (syncModels p) = pc_inflight p"
  "pc_cancelled (syncModels p) = pc_cancelled p" "pc_shutdown (syncModels p) = pc_shutdown p"
  "pc_validatorStopped (syncModels p) = pc_validatorStopped p"
  by (simp_all add: syncModels_def split: prod.split sum.split)

lemma start_state:
  assumes "startKeyManager lib e s = Inr (st, cfg, p)"
  shows "pc_exit p = None \<and> pc_inflight p = [] \<and> \<not> pc_cancelled p \<and> \<not> pc_shutdown p \<and> \<not> pc_validatorStopped p"
    and "readSettings (kl_fraction lib) e = Inr st"
  using assms by (auto simp: startKeyManager_def Let_def split: sum.splits)

text \<open>Why a process that ended has ended.\<close>

definition reason :: "settings \<Rightarrow> ('w, 'k) process \<Rightarrow> bool" where
  "reason st p \<longleftrightarrow> (pc_shutdown p \<longrightarrow> pc_cancelled p) \<and> (pc_validatorStopped p \<longrightarrow> pc_shutdown p) \<and>
     pc_exit p \<in> {None, Some 0, Some 1, Some 2} \<and> (pc_exit p = Some 0 \<longrightarrow> pc_shutdown p) \<and>
     (pc_exit p = Some 1 \<longrightarrow> \<not> pc_shutdown p) \<and>
     (pc_exit p = Some 2 \<longrightarrow> st_userinfoURL st \<noteq> [] \<and> st_auditInterval st \<le> 0)"

lemma reason_step: "km_step lib e st cfg p ev q \<Longrightarrow> reason st p \<Longrightarrow> reason st q"
  by (erule km_stepE) (auto simp: reason_def)

lemma reason_run: "km_run lib e st cfg p evs q \<Longrightarrow> reason st p \<Longrightarrow> reason st q"
  by (induction rule: km_run.induct) (auto dest: reason_step)

section \<open>Properties\<close>

text \<open>C4: the keys of the whole process: whatever the interleaving of syncs, audit passes, key refreshes
  and requests, and whatever happens at Keycloak, no credential of the key store appears, changes
  or disappears unless a POST or DELETE request under \<open>/api/\<close> was answered; and unless dev mode is
  on, which serves every such request under a fixed identity without looking at a token, its bearer
  token is one the configured realm issued: signed under a key that the realm's endpoint served,
  with its issuer, for the pinned client.\<close>

theorem keys_change_only_for_realm_tokens:
  assumes "running_manager lib st vS vM signedBy headerOf claimsOf timely"
    and "startKeyManager lib e s = Inr (st, cfg, p)" and "km_run lib e st cfg p evs q"
    and "credential vS n k (snd (pc_world q)) \<noteq> credential vS n k (snd s)"
  shows "\<exists>r. Answered r \<in> set evs \<and> rq_method r \<in> {''POST'', ''DELETE''} \<and> hasPrefix (rq_path r) ''/api/'' \<and>
    (devModeOn e \<or> (\<exists>tok. rq_authorization r = ''Bearer '' @ tok \<and>
       genuine (kl_jwt lib) e signedBy headerOf claimsOf timely tok))"
proof -
  note s = running_manager.start_inv [OF assms(1,2)]
  then have "credential vS n k (snd (pc_world p)) = credential vS n k (snd s)" by (simp add: credential_def)
  with assms(4) have "credential vS n k (snd (pc_world q)) \<noteq> credential vS n k (snd (pc_world p))" by simp
  with s show ?thesis
    using running_manager.km_run_keeps [OF assms(1,3)] running_manager.entitled_def [OF assms(1)] by blast
qed

text \<open>C37: the shutdown is not awaited: from the listening server, requests can be accepted and then,
  after a signal, the process ends with status 0 while every one of them is unanswered, with the
  validator's goroutine never stopped: main returns as soon as \<open>ListenAndServe\<close> does.\<close>

theorem shutdown_abandons_requests:
  assumes "startKeyManager lib e s = Inr (st, cfg, p)" and "\<forall>r \<in> set rs. rq_user r = None"
  shows "\<exists>evs q. km_run lib e st cfg p evs q \<and> pc_exit q = Some 0 \<and> pc_inflight q = rs \<and>
    \<not> pc_validatorStopped q \<and> (\<forall>r. Answered r \<notin> set evs) \<and> (\<forall>ev u. \<not> km_step lib e st cfg q ev u)"
proof -
  let ?p = "p\<lparr>pc_inflight := pc_inflight p @ rs\<rparr>"
  let ?q = "?p\<lparr>pc_cancelled := True, pc_shutdown := True, pc_exit := Some 0\<rparr>"
  note s = start_state [OF assms(1)]
  have "km_run lib e st cfg p (map (\<lambda>_. Internal) rs @ [Internal, Internal, Internal]) ?q"
    using s by (intro km_run_append [OF accepts_all leaves_now] assms(2)) simp_all
  moreover have "\<not> km_step lib e st cfg ?q ev u" for ev u using km_step_live [of lib e st cfg ?q ev u] by auto
  ultimately show ?thesis using s
    by (intro exI [of _ "map (\<lambda>_. Internal) rs @ [Internal, Internal, Internal]"] exI [of _ ?q]) auto
qed

text \<open>C38: how the process ends: with status 0 only after a signal, and by a crash exactly when the audit
  loop is on and the configured interval is not positive: such an interval passes the configuration
  and panics in the ticker.\<close>

theorem audit_interval_crash_exactly:
  assumes "startKeyManager lib e s = Inr (st, cfg, p)"
  shows "((\<exists>evs q. km_run lib e st cfg p evs q \<and> pc_exit q = Some 2) \<longleftrightarrow>
      getenv e ''LLM_OIDC_USERINFO_URL'' \<noteq> [] \<and>
      (\<exists>d. d \<le> 0 \<and> parseDuration (kl_fraction lib) (getEnvOrDefault e ''LLM_AUDIT_INTERVAL'' ''5m'') = Inr d)) \<and>
    (\<forall>evs q. km_run lib e st cfg p evs q \<and> pc_exit q = Some 0 \<longrightarrow> pc_cancelled q)"
proof -
  note s = start_state [OF assms]
  from s(2) have st: "st_userinfoURL st = getenv e ''LLM_OIDC_USERINFO_URL''"
    "parseDuration (kl_fraction lib) (getEnvOrDefault e ''LLM_AUDIT_INTERVAL'' ''5m'') = Inr (st_auditInterval st)"
    by (auto simp: readSettings_def Let_def split: sum.splits)
  have reason: "reason st p" using s(1) by (simp add: reason_def)
  have "\<exists>q. km_run lib e st cfg p [Internal, Internal] q \<and> pc_exit q = Some 2"
    if on: "st_userinfoURL st \<noteq> []" "st_auditInterval st \<le> 0"
  proof -
    let ?q = "p\<lparr>pc_world := auditTick e (ListModels (pc_watcher p)) (kl_keyEnv lib)
        (managerAlongside (newManager lib st)) (pc_world p), pc_audited := True\<rparr>"
    have "km_step lib e st cfg p Internal ?q" using s(1) on by (intro km_step.audit) simp_all
    moreover have "km_step lib e st cfg ?q Internal (?q\<lparr>pc_exit := Some 2\<rparr>)"
      using s(1) on by (intro km_step.crash) simp_all
    ultimately have "km_run lib e st cfg p [Internal, Internal] (?q\<lparr>pc_exit := Some 2\<rparr>)"
      by (blast intro: km_run.intros)
    then show ?thesis by force
  qed
  then have "(\<exists>evs q. km_run lib e st cfg p evs q \<and> pc_exit q = Some 2) \<longleftrightarrow>
      st_userinfoURL st \<noteq> [] \<and> st_auditInterval st \<le> 0"
    using reason_run [OF _ reason] by (auto simp: reason_def)
  moreover have "pc_cancelled q" if "km_run lib e st cfg p evs q" "pc_exit q = Some 0" for evs q
    using reason_run [OF that(1) reason] that(2) by (simp add: reason_def)
  ultimately show ?thesis using st by auto
qed

text \<open>A process on the reference server, whose realm serves one key, and a user of the realm.\<close>

definition kmClaims :: "string \<Rightarrow> claims" where
  "kmClaims tok = [(''iss'', JStr ''http://kc/realms/nebari''), (''azp'', JStr ''spa''), (''sub'', JStr ''alice'')]"

definition sampleKm :: "(sampleWorld, cluster) kmLibrary" where
  "sampleKm = \<lparr>kl_fraction = (\<lambda>f unit scale. f * unit div scale), kl_addClientGoScheme = None,
     kl_addLLMScheme = None, kl_inClusterConfig = None, kl_newClient = None, kl_llmmodels = llmmodelClient,
     kl_passthroughs = passthroughClient, kl_secrets = secretClient, kl_configmaps = configmapClient,
     kl_keyEnv = sampleKeyEnv, kl_decode = (\<lambda>b. Some \<lparr>req_modelName = b, req_description = []\<rparr>),
     kl_jwt = sampleJwtEnv\<lparr>je_parse := composedParse sampleHeader kmClaims sampleSigned sampleTimely\<rparr>\<rparr>"

definition kmEnviron :: environ where
  "kmEnviron = [(''LLM_API_KEYS_NAMESPACE'', ''llm''), (''LLM_KEYCLOAK_URL'', ''http://kc/''),
     (''LLM_KEYCLOAK_SPA_CLIENT_ID'', ''spa''), (''LLM_OIDC_USERINFO_URL'', ''http://kc/userinfo''),
     (''LLM_AUDIT_INTERVAL'', ''-1.5m'')]"

definition kmSettings :: settings where
  "kmSettings = \<lparr>st_apiKeysNamespace = ''llm'', st_groupsClaim = ''groups'', st_auditInterval = - 90000000000,
     st_userinfoURL = ''http://kc/userinfo'', st_listenAddr = '':8080''\<rparr>"

definition kmWorld :: "sampleWorld \<times> cluster" where
  "kmWorld = ((50, [Inr (200, ''k1'')]), healthyStart\<lparr>cl_passthroughs := cl_passthroughs sampleModels\<rparr>)"

definition kmConfig :: "(sampleWorld jstate \<times> cluster) AuthConfig" where
  "kmConfig = \<lparr>ac_GroupsClaim = ''groups'', ac_Validator = Some (validateAlongside (kl_jwt sampleKm)),
     ac_DevMode = False, ac_DevIdentity = \<lparr>ui_Username = [], ui_Name = [], ui_Email = [], ui_Groups = []\<rparr>\<rparr>"

definition kmStart :: "(sampleWorld, cluster) process" where
  "kmStart = syncModels \<lparr>pc_world = ((keycloakValidator kmEnviron, fst kmWorld), snd kmWorld),
     pc_watcher = NewWatcher llmmodelClient passthroughClient, pc_inflight = [], pc_audited = False, pc_cancelled = False,
     pc_shutdown = False, pc_validatorStopped = False, pc_exit = None\<rparr>"

lemma kmInterval_value: "parseDuration (kl_fraction sampleKm) ''-1.5m'' = Inr (- 90000000000)"
proof -
  have "durationPart (kl_fraction sampleKm) ''1.5m'' = Some (90000000000, [])"
    by (simp add: durationPart_def isDigit_def less_eq_char_def unitMap_def digitValue_def Let_def sampleKm_def)
  then show ?thesis by (simp add: parseDuration_def durationSum.simps Let_def)
qed

lemma kmEnviron_values:
  "getEnvOrDefault kmEnviron ''LLM_AUDIT_INTERVAL'' ''5m'' = ''-1.5m''"
  "getEnvOrDefault kmEnviron ''LLM_API_KEYS_NAMESPACE'' ''llm-api-keys'' = ''llm''"
  "getEnvOrDefault kmEnviron ''LLM_OIDC_GROUPS_CLAIM'' ''groups'' = ''groups''"
  "getEnvOrDefault kmEnviron ''LLM_LISTEN_ADDR'' '':8080'' = '':8080''"
  "getenv kmEnviron ''LLM_OIDC_USERINFO_URL'' = ''http://kc/userinfo''"
  by code_simp+

lemma kmSettings_value: "readSettings (kl_fraction sampleKm) kmEnviron = Inr kmSettings"
  by (simp add: readSettings_def kmEnviron_values kmInterval_value kmSettings_def)

lemma kmConfig_value: "authConfig kmEnviron (validateAlongside (kl_jwt sampleKm)) = Inr kmConfig" "\<not> devModeOn kmEnviron"
proof -
  show "\<not> devModeOn kmEnviron" by code_simp
  moreover have "getenv kmEnviron ''LLM_KEYCLOAK_URL'' \<noteq> []"
    "getEnvOrDefault kmEnviron ''LLM_OIDC_GROUPS_CLAIM'' ''groups'' = ''groups''" by code_simp+
  ultimately show "authConfig kmEnviron (validateAlongside (kl_jwt sampleKm)) = Inr kmConfig"
    by (simp add: authConfig_def kmConfig_def)
qed

lemma kmStart_value: "startKeyManager sampleKm kmEnviron kmWorld = Inr (kmSettings, kmConfig, kmStart)"
proof -
  have "setUpClient sampleKm = Inr ()" "kl_llmmodels sampleKm = llmmodelClient"
    "kl_passthroughs sampleKm = passthroughClient" by (simp_all add: setUpClient_def sampleKm_def)
  then show ?thesis
    by (simp add: startKeyManager_def kmSettings_value kmConfig_value kmStart_def Let_def)
qed

interpretation deployed: running_manager sampleKm kmSettings secretsAt configmapsAt sampleSigned sampleHeader
  kmClaims sampleTimely
proof (intro running_manager.intro running_manager_axioms.intro)
  have "newManager sampleKm kmSettings = serverManager"
    by (simp add: newManager_def sampleKm_def kmSettings_def serverManager_def)
  then show "key_stores (newManager sampleKm kmSettings) secretsAt configmapsAt"
    by (simp add: server.key_stores_axioms)
  show "jwt_library (je_parse (kl_jwt sampleKm)) sampleSigned sampleHeader kmClaims sampleTimely"
    by (simp add: sampleKm_def composed.jwt_library_axioms)
qed (unfold sampleKm_def kmLibrary.simps, (rule unaffected_rules; simp add: at_defs tick_def)+)

definition kmPost :: request where
  "kmPost = postKey\<lparr>rq_authorization := ''Bearer k1''\<rparr>"

definition kmReady :: "(sampleWorld, cluster) process" where
  "kmReady = kmStart\<lparr>pc_world := (fetchOnce (kl_jwt sampleKm) (fst (pc_world kmStart)), snd (pc_world kmStart)),
     pc_inflight := [kmPost]\<rparr>"

definition kmAnswered :: "payload response \<times> (sampleWorld jstate \<times> cluster)" where
  "kmAnswered = finalHandler kmConfig (handlerNow sampleKm kmSettings sampleDraws kmReady) kmPost (pc_world kmReady)"

lemma kmAnswered_value:
  "credential secretsAt (''llm'', ''m-api-keys'') ''user-alice-m-616c696365006d000000000000000000-1'' (snd (snd kmAnswered)) \<noteq> Some None"
  "credential secretsAt (''llm'', ''m-api-keys'') ''user-alice-m-616c696365006d000000000000000000-1'' (snd kmWorld) = Some None"
  by code_simp+

lemma kmAnswered_run:
  "km_run sampleKm kmEnviron kmSettings kmConfig kmStart [Internal, Internal, Answered kmPost]
     (kmReady\<lparr>pc_world := snd kmAnswered, pc_inflight := []\<rparr>)"
proof -
  let ?p = "kmStart\<lparr>pc_world := (fetchOnce (kl_jwt sampleKm) (fst (pc_world kmStart)), snd (pc_world kmStart))\<rparr>"
  note step = km_step.fetch km_step.request km_step.answer
  have live: "pc_exit kmStart = None" "\<not> pc_validatorStopped kmStart" "\<not> pc_shutdown kmStart" "pc_inflight kmStart = []"
    by (simp_all add: kmStart_def)
  have "km_step sampleKm kmEnviron kmSettings kmConfig kmStart Internal ?p" using live by (intro km_step.fetch)
  moreover have "km_step sampleKm kmEnviron kmSettings kmConfig ?p Internal kmReady"
    using km_step.request [of ?p kmPost] live by (simp add: kmReady_def kmPost_def postKey_def)
  moreover have "km_step sampleKm kmEnviron kmSettings kmConfig kmReady (Answered kmPost)
      (kmReady\<lparr>pc_world := snd kmAnswered, pc_inflight := []\<rparr>)"
    using km_step.answer [of kmReady kmPost kmConfig sampleKm kmSettings sampleDraws "fst kmAnswered" "snd kmAnswered"]
      live by (simp add: kmReady_def kmAnswered_def)
  ultimately show ?thesis by (blast intro: km_run.intros)
qed

theorem keys_change_only_for_realm_tokens_witness:
  "\<exists>tok. ''Bearer k1'' = ''Bearer '' @ tok \<and>
    genuine (kl_jwt sampleKm) kmEnviron sampleSigned sampleHeader kmClaims sampleTimely tok"
  using keys_change_only_for_realm_tokens [OF deployed.running_manager_axioms kmStart_value
      kmAnswered_run, of "(''llm'', ''m-api-keys'')" "''user-alice-m-616c696365006d000000000000000000-1''"]
    kmAnswered_value kmConfig_value(2) by (auto simp: kmPost_def)

theorem shutdown_abandons_requests_witness:
  "\<exists>evs q. km_run sampleKm kmEnviron kmSettings kmConfig kmStart evs q \<and> pc_exit q = Some 0 \<and> pc_inflight q = [kmPost]"
  using shutdown_abandons_requests [OF kmStart_value, of "[kmPost]"] by (auto simp: kmPost_def postKey_def)

theorem audit_interval_crash_exactly_witness:
  "\<exists>evs q. km_run sampleKm kmEnviron kmSettings kmConfig kmStart evs q \<and> pc_exit q = Some 2"
  using audit_interval_crash_exactly [OF kmStart_value] by (simp add: kmEnviron_values kmInterval_value)

end
