(* ===== verification/Auth.thy ===== *)
theory Auth
  imports Common Json
begin

text \<open>
  \<open>operator/internal/controller/reconcilers/auth.go\<close>: the API-key Secret, its metadata ConfigMap
  and the SecurityPolicies of a model. An \<open>unstructured.Unstructured\<close> is the tree of its object.
  What a policy lets through is decided by Envoy Gateway, which is not part of the repository:
  the locale \<open>envoy_gateway\<close> names the documented behaviour of the authorization block, and the
  evaluator at the end of the theory satisfies it.
\<close>

section \<open>Policies as trees\<close>

definition apiKeyClientIDHeader :: string where "apiKeyClientIDHeader = ''x-llm-client-id''"
definition authzActionAllow :: string where "authzActionAllow = ''Allow''"
definition authzActionDeny :: string where "authzActionDeny = ''Deny''"

lemmas authz_defs = apiKeyClientIDHeader_def authzActionAllow_def authzActionDeny_def

definition buildAPIKeyAuthorization :: "string list \<Rightarrow> json" where
  "buildAPIKeyAuthorization clientIDs =
     (if clientIDs = [] then JObj [(''defaultAction'', JStr authzActionDeny)]
      else JObj [(''defaultAction'', JStr authzActionDeny),
        (''rules'', JArr [JObj
          [(''name'', JStr ''allow-model-clients''), (''action'', JStr authzActionAllow),
           (''principal'', JObj
             [(''headers'', JArr [JObj
                [(''name'', JStr apiKeyClientIDHeader), (''values'', JArr (map JStr clientIDs))]])])]])])"

definition buildGroupAuthorization :: "string list \<Rightarrow> string \<Rightarrow> json" where
  "buildGroupAuthorization groups groupsClaim =
     JObj [(''defaultAction'', JStr authzActionDeny),
       (''rules'', JArr [JObj
         [(''name'', JStr ''allow-groups''), (''action'', JStr authzActionAllow),
          (''principal'', JObj
            [(''jwt'', JObj
               [(''provider'', JStr ''oidc''),
                (''claims'', JArr [JObj
                   [(''name'', JStr groupsClaim), (''valueType'', JStr ''StringArray''),
                    (''values'', JArr (map JStr groups))]])])])]])]"

text \<open>The block \<open>targetRefs\<close> of both policies.\<close>

definition routeTarget :: "string \<Rightarrow> json" where
  "routeTarget routeName = JArr [JObj
     [(''group'', JStr ''gateway.networking.k8s.io''), (''kind'', JStr ''HTTPRoute''),
      (''name'', JStr routeName)]]"

definition credentialRef :: "string \<Rightarrow> json" where
  "credentialRef secretName =
     JObj [(''group'', JStr []), (''kind'', JStr ''Secret''), (''name'', JStr secretName)]"

definition buildAPIKeyAuthSecurityPolicy ::
  "string \<Rightarrow> string \<Rightarrow> json \<Rightarrow> string \<Rightarrow> string list \<Rightarrow> string list \<Rightarrow> json" where
  "buildAPIKeyAuthSecurityPolicy name ns labels routeName credentialSecretNames clientIDs =
     resourceTree ''gateway.envoyproxy.io/v1alpha1'' ''SecurityPolicy'' (metaTree name ns labels)
       (JObj
         [(''targetRefs'', routeTarget routeName),
          (''apiKeyAuth'', JObj
            [(''credentialRefs'', JArr (map credentialRef credentialSecretNames)),
             (''extractFrom'', JArr [JObj [(''headers'', JArr [JStr ''Authorization''])]]),
             (''forwardClientIDHeader'', JStr apiKeyClientIDHeader),
             (''sanitize'', JBool True)]),
          (''authorization'', buildAPIKeyAuthorization clientIDs)])"

definition jwtProvider :: "OperatorConfig \<Rightarrow> json" where
  "jwtProvider cfg =
     JObj ([(''name'', JStr ''oidc''), (''issuer'', JStr (cfg_OIDCIssuerURL cfg)),
        (''remoteJWKS'', JObj [(''uri'', JStr (cfg_OIDCIssuerURL cfg @ ''/protocol/openid-connect/certs''))]),
        (''claimToHeaders'', JArr
          [JObj [(''header'', JStr ''X-Auth-Groups''), (''claim'', JStr (cfg_OIDCGroupsClaim cfg))],
           JObj [(''header'', JStr ''X-Auth-User''), (''claim'', JStr ''preferred_username'')]])]
      @ (if cfg_OIDCAudience cfg \<noteq> [] then [(''audiences'', JArr [JStr (cfg_OIDCAudience cfg)])] else []))"

definition buildJWTSecurityPolicy ::
  "string \<Rightarrow> string \<Rightarrow> json \<Rightarrow> string \<Rightarrow> OperatorConfig \<Rightarrow> bool \<Rightarrow> string list \<Rightarrow> json" where
  "buildJWTSecurityPolicy name ns labels routeName cfg public groups =
     resourceTree ''gateway.envoyproxy.io/v1alpha1'' ''SecurityPolicy'' (metaTree name ns labels)
       (JObj
         ([(''targetRefs'', routeTarget routeName),
           (''jwt'', JObj [(''providers'', JArr [jwtProvider cfg])])]
          @ (if \<not> public
             then [(''authorization'', buildGroupAuthorization groups (cfg_OIDCGroupsClaim cfg))] else [])))"

section \<open>The resources of an LLMModel\<close>

record AuthResources =
  ar_APIKeySecret :: secret
  ar_APIKeyMetadataCM :: configmap
  ar_ExternalSecurityPolicy :: "json option"
  ar_InternalSecurityPolicy :: "json option"

definition isPublicAccess :: "AccessSpec \<Rightarrow> bool" where
  "isPublicAccess access = (acc_public access = Some True)"

definition isPublic :: "LLMModel \<Rightarrow> bool" where
  "isPublic model = isPublicAccess (spec_access (lm_spec model))"

definition authResourceLabels :: "LLMModel \<Rightarrow> string gomap" where
  "authResourceLabels model = AList.update modelNameLabel (lm_name model) (StandardLabels model)"

definition buildAPIKeySecret :: "LLMModel \<Rightarrow> string gomap \<Rightarrow> secret" where
  "buildAPIKeySecret model labels =
     \<lparr>sec_meta = newMeta (APIKeySecretName (lm_name model)) (lm_namespace model) labels,
      sec_type = ''Opaque'', sec_data = []\<rparr>"

definition buildAPIKeyMetadataConfigMap :: "LLMModel \<Rightarrow> string gomap \<Rightarrow> configmap" where
  "buildAPIKeyMetadataConfigMap model labels =
     \<lparr>cm_meta = newMeta (APIKeyMetadataConfigMapName (lm_name model)) (lm_namespace model) labels,
      cm_data = []\<rparr>"

definition buildExternalSecurityPolicy :: "LLMModel \<Rightarrow> string list \<Rightarrow> string list \<Rightarrow> json" where
  "buildExternalSecurityPolicy model clientIDs credentialSecretNames =
     buildAPIKeyAuthSecurityPolicy (lm_name model @ ''-external-auth'') (lm_namespace model)
       (labelsToInterface (StandardLabels model)) (lm_name model @ ''-external'')
       credentialSecretNames clientIDs"

definition buildInternalSecurityPolicy :: "LLMModel \<Rightarrow> OperatorConfig \<Rightarrow> json" where
  "buildInternalSecurityPolicy model cfg =
     buildJWTSecurityPolicy (lm_name model @ ''-internal-auth'') (lm_namespace model)
       (labelsToInterface (StandardLabels model)) (lm_name model @ ''-internal'') cfg (isPublic model)
       (acc_groups (spec_access (lm_spec model)))"

definition BuildAuthResources ::
  "LLMModel \<Rightarrow> OperatorConfig \<Rightarrow> string list \<Rightarrow> string list \<Rightarrow> gerror + AuthResources" where
  "BuildAuthResources model cfg clientIDs credentialSecretNames =
     (let labels = authResourceLabels model; endpoints = spec_endpoints (lm_spec model)
      in Inr \<lparr>ar_APIKeySecret = buildAPIKeySecret model labels,
           ar_APIKeyMetadataCM = buildAPIKeyMetadataConfigMap model labels,
           ar_ExternalSecurityPolicy =
             (if boolOrDefault (ext_enabled (ep_external endpoints)) True
              then Some (buildExternalSecurityPolicy model clientIDs credentialSecretNames) else None),
           ar_InternalSecurityPolicy =
             (if boolOrDefault (int_enabled (ep_internal endpoints)) True
              then Some (buildInternalSecurityPolicy model cfg) else None)\<rparr>)"

text \<open>\<open>sort.Strings\<close> orders by bytes.\<close>

definition ClientIDsFromSecret :: "secret option \<Rightarrow> string list" where
  "ClientIDsFromSecret s = (case s of None \<Rightarrow> [] | Some x \<Rightarrow> sort (map fst (sec_data x)))"

lemma set_ClientIDs: "set (ClientIDsFromSecret (Some x)) = dom (map_of (sec_data x))"
  by (simp add: ClientIDsFromSecret_def dom_map_of_conv_image_fst)

section \<open>What the gateway decides\<close>

text \<open>
  A request at a route: the identity forwarded by the API-key filter (the client ID whose
  credential matched, sent on in the header the policy names) and the claims of its token.
\<close>

record gateway_request =
  gr_headers :: "string gomap"
  gr_claims :: "(string \<times> json) list"

text \<open>The authorization block of a policy.\<close>

definition authorizationOf :: "json \<Rightarrow> json option" where
  "authorizationOf policy = fieldOf (specOf policy) ''authorization''"

definition claimStrings :: "json option \<Rightarrow> string list" where
  "claimStrings j = (case j of Some (JArr xs) \<Rightarrow> List.map_filter asString xs | _ \<Rightarrow> [])"

text \<open>
  The documented behaviour: without a block everything authenticated passes; without a rule the
  default action decides; one Allow rule over a default of Deny lets through exactly the
  requests its principal matches, a header principal when the request carries the header with
  one of the values, a claim principal of type StringArray when the claim contains one of them.
\<close>

locale envoy_gateway =
  fixes allows :: "json option \<Rightarrow> gateway_request \<Rightarrow> bool"
  assumes no_block: "allows None r"
    and no_rule: "allows (Some (JObj [(''defaultAction'', JStr d)])) r \<longleftrightarrow> d = ''Allow''"
    and header_rule: "allows (Some (JObj [(''defaultAction'', JStr ''Deny''), (''rules'', JArr [JObj
        [(''name'', nm), (''action'', JStr ''Allow''), (''principal'', JObj
           [(''headers'', JArr [JObj [(''name'', JStr h), (''values'', JArr (map JStr vs))]])])]])])) r
      \<longleftrightarrow> (\<exists>v \<in> set vs. map_of (gr_headers r) h = Some v)"
    and claim_rule: "allows (Some (JObj [(''defaultAction'', JStr ''Deny''), (''rules'', JArr [JObj
        [(''name'', nm), (''action'', JStr ''Allow''), (''principal'', JObj
           [(''jwt'', JObj [(''provider'', pv), (''claims'', JArr [JObj [(''name'', JStr c),
              (''valueType'', JStr ''StringArray''), (''values'', JArr (map JStr vs))]])])])]])])) r
      \<longleftrightarrow> set vs \<inter> set (claimStrings (map_of (gr_claims r) c)) \<noteq> {}"
begin

text \<open>An API-key policy lets a request through exactly under one of the listed client IDs.\<close>

lemma external_allows_iff:
  "allows (authorizationOf (buildAPIKeyAuthSecurityPolicy name ns labels route secrets ids)) r
     \<longleftrightarrow> (\<exists>i \<in> set ids. map_of (gr_headers r) apiKeyClientIDHeader = Some i)"
  by (simp add: authorizationOf_def buildAPIKeyAuthSecurityPolicy_def buildAPIKeyAuthorization_def
      no_rule header_rule authzActionAllow_def authzActionDeny_def)

lemma internal_allows_iff:
  "allows (authorizationOf (buildJWTSecurityPolicy name ns labels route cfg public groups)) r
     \<longleftrightarrow> public \<or> set groups \<inter> set (claimStrings (map_of (gr_claims r) (cfg_OIDCGroupsClaim cfg))) \<noteq> {}"
  by (simp add: authorizationOf_def buildJWTSecurityPolicy_def buildGroupAuthorization_def
      no_block claim_rule authzActionAllow_def authzActionDeny_def)

end

section \<open>An evaluator\<close>

text \<open>The rules in order, the first match decides, the default action otherwise.\<close>

definition strings :: "json option \<Rightarrow> string list" where
  "strings j = claimStrings j"

definition headerMatches :: "gateway_request \<Rightarrow> json \<Rightarrow> bool" where
  "headerMatches r h =
     (case map_of (gr_headers r) (strOr (objGet h ''name'')) of
        None \<Rightarrow> False | Some v \<Rightarrow> v \<in> set (strings (objGet h ''values'')))"

definition claimMatches :: "gateway_request \<Rightarrow> json \<Rightarrow> bool" where
  "claimMatches r c =
     (if objGet c ''valueType'' = Some (JStr ''StringArray'')
      then list_ex (\<lambda>v. v \<in> set (claimStrings (map_of (gr_claims r) (strOr (objGet c ''name'')))))
        (strings (objGet c ''values''))
      else map_of (gr_claims r) (strOr (objGet c ''name'')) \<in> set (map (Some \<circ> JStr) (strings (objGet c ''values''))))"

definition principalMatches :: "gateway_request \<Rightarrow> json \<Rightarrow> bool" where
  "principalMatches r p \<longleftrightarrow>
     list_all (headerMatches r) (items (objGet p ''headers'')) \<and>
     list_all (claimMatches r)
       (items (case objGet p ''jwt'' of None \<Rightarrow> None | Some j \<Rightarrow> objGet j ''claims''))"

definition ruleMatches :: "gateway_request \<Rightarrow> json \<Rightarrow> bool" where
  "ruleMatches r rule = (case objGet rule ''principal'' of None \<Rightarrow> False | Some p \<Rightarrow> principalMatches r p)"

definition evalAuthorization :: "json option \<Rightarrow> gateway_request \<Rightarrow> bool" where
  "evalAuthorization block r =
     (case block of
        None \<Rightarrow> True
      | Some a \<Rightarrow>
          (case find (ruleMatches r) (items (objGet a ''rules'')) of
             Some rule \<Rightarrow> strOr (objGet rule ''action'') = ''Allow''
           | None \<Rightarrow> strOr (objGet a ''defaultAction'') = ''Allow''))"

lemma claimStrings_map [simp]: "claimStrings (Some (JArr (map JStr vs))) = vs"
  by (induction vs) (simp_all add: claimStrings_def List.map_filter_def)

lemmas eval_defs = evalAuthorization_def ruleMatches_def principalMatches_def
  headerMatches_def claimMatches_def strings_def

interpretation envoy: envoy_gateway evalAuthorization
proof (unfold_locales, goal_cases)
  case (1 r)
  show ?case by (simp add: evalAuthorization_def)
next
  case (2 d r)
  show ?case by (simp add: eval_defs)
next
  case (3 nm h vs r)
  show ?case by (auto simp: eval_defs split: option.splits)
next
  case (4 nm pv c vs r)
  show ?case by (auto simp: eval_defs list_ex_iff)
qed

end
