(* ===== verification/ApiKeys.thy ===== *)
theory ApiKeys
  imports Auth Cluster
begin

text \<open>
  \<open>operator/internal/controller/apikeys.go\<close>: what both controllers read off the API-key Secrets
  of a namespace, and which models a change of such a Secret enqueues. The client is an argument
  (theory Kube); log lines are left out.
\<close>

definition managedByOperatorPredicate :: "objmeta \<Rightarrow> bool" where
  "managedByOperatorPredicate m = (map_of (om_labels m) managedByLabel = Some operatorName)"

definition apiKeyClientIDs ::
  "('k, secret) typed_client \<Rightarrow> string \<Rightarrow> string \<Rightarrow> ('k, string list) action" where
  "apiKeyClientIDs c modelName ns s =
     (case tc_get c (ns, APIKeySecretName modelName) s of
        (Inl e, s') \<Rightarrow> if isNotFound e then (Inr [], s') else (Inl e, s')
      | (Inr x, s') \<Rightarrow> (Inr (ClientIDsFromSecret (Some x)), s'))"

definition isAPIKeySecretName :: "string \<Rightarrow> bool" where
  "isAPIKeySecretName n = hasSuffix n APIKeySecretSuffix"

text \<open>The Go set is a list without duplicates; sorting makes its order irrelevant.\<close>

definition apiKeySecretNamesWith ::
  "('k, secret) typed_client \<Rightarrow> string \<Rightarrow> string \<Rightarrow> ('k, string list) action" where
  "apiKeySecretNamesWith c ns ownName s =
     (case tc_list c ns [(managedByLabel, operatorName)] s of
        (Inl e, s') \<Rightarrow> (Inl e, s')
      | (Inr xs, s') \<Rightarrow>
          (Inr (sort (fold (\<lambda>x names. if isAPIKeySecretName (om_name (sec_meta x))
              then List.insert (om_name (sec_meta x)) names else names) xs [ownName])), s'))"

definition enqueueAllModelsForAPIKeySecret ::
  "('k, 'o) typed_client \<Rightarrow> ('o \<Rightarrow> objmeta) \<Rightarrow> objmeta \<Rightarrow> 'k \<Rightarrow> nsname list \<times> 'k" where
  "enqueueAllModelsForAPIKeySecret c metaOf obj s =
     (if \<not> isAPIKeySecretName (om_name obj) then ([], s)
      else case tc_list c (om_namespace obj) [] s of
        (Inl e, s') \<Rightarrow> ([], s')
      | (Inr ms, s') \<Rightarrow> (map (\<lambda>m. (om_namespace (metaOf m), om_name (metaOf m))) ms, s'))"

section \<open>Lemmas\<close>

lemma set_insert_if:
  "set (fold (\<lambda>x names. if P x then List.insert (f x) names else names) xs ns) =
     set ns \<union> f ` {x \<in> set xs. P x}"
  by (induction xs arbitrary: ns) auto

lemma distinct_insert_if:
  "distinct ns \<Longrightarrow> distinct (fold (\<lambda>x names. if P x then List.insert (f x) names else names) xs ns)"
  by (induction xs arbitrary: ns) auto

lemma isAPIKeySecretName_own [simp]: "isAPIKeySecretName (APIKeySecretName n)"
  by (simp add: isAPIKeySecretName_def APIKeySecretName_def)

text \<open>
  The contract of the two readers over what the API server holds: the sorted client IDs of the
  model's own Secret (none while it is missing), and the sorted names of every operator-managed
  API-key Secret of the namespace together with the model's own.
\<close>

definition managedSecretNames :: "(nsname \<Rightarrow> secret option) \<Rightarrow> string \<Rightarrow> string set" where
  "managedSecretNames v ns =
     {om_name (sec_meta x) |x n. v n = Some x \<and> inNamespace ns (sec_meta x) \<and>
        managedByOperatorPredicate (sec_meta x) \<and> isAPIKeySecretName (om_name (sec_meta x))}"

locale secret_reader = kube_kind c view sec_meta secretContent
  for c :: "('k, secret) typed_client" and view
begin

lemma clientIDs_spec:
  assumes "apiKeyClientIDs c mn ns s = (r, s')"
  shows "view s' = view s \<and> (\<forall>ids. r = Inr ids \<longrightarrow>
    set ids = (case view s (ns, APIKeySecretName mn) of None \<Rightarrow> {} | Some x \<Rightarrow> dom (map_of (sec_data x))) \<and>
    sorted ids)"
proof -
  obtain q t where g: "tc_get c (ns, APIKeySecretName mn) s = (q, t)" by fastforce
  show ?thesis
  proof (cases q)
    case (Inl e)
    with g get_err [of "(ns, APIKeySecretName mn)" s e t] assms show ?thesis
      by (auto simp: apiKeyClientIDs_def split: if_splits)
  next
    case (Inr x)
    with g get_ok [of "(ns, APIKeySecretName mn)" s x t] assms show ?thesis
      by (auto simp: apiKeyClientIDs_def set_ClientIDs) (auto simp: ClientIDsFromSecret_def)
  qed
qed

lemma secretNames_spec:
  assumes "apiKeySecretNamesWith c ns own s = (r, s')"
  shows "view s' = view s \<and> (\<forall>names. r = Inr names \<longrightarrow>
    names = sorted_list_of_set (insert own (managedSecretNames (view s) ns)))"
proof -
  obtain q t where g: "tc_list c ns [(managedByLabel, operatorName)] s = (q, t)" by fastforce
  show ?thesis
  proof (cases q)
    case (Inl e)
    with g list_err [of ns _ s e t] assms show ?thesis by (auto simp: apiKeySecretNamesWith_def)
  next
    case (Inr xs)
    let ?names = "fold (\<lambda>x names. if isAPIKeySecretName (om_name (sec_meta x))
      then List.insert (om_name (sec_meta x)) names else names) xs [own]"
    have "set xs = {x. \<exists>n. view s n = Some x \<and> inNamespace ns (sec_meta x) \<and>
        managedByOperatorPredicate (sec_meta x)}"
      using list_ok [of ns _ s xs t] g Inr
      by (simp add: matchesLabels_def managedByOperatorPredicate_def del: split_paired_Ex)
    then have "set ?names = insert own (managedSecretNames (view s) ns)"
      by (auto simp: set_insert_if managedSecretNames_def simp del: split_paired_Ex)
    moreover have "distinct ?names" by (rule distinct_insert_if) simp
    then have "sort ?names = sorted_list_of_set (set ?names)"
      by (simp add: sorted_list_of_set_sort_remdups distinct_remdups_id)
    ultimately show ?thesis using g Inr list_ok [of ns _ s xs t] assms
      by (auto simp: apiKeySecretNamesWith_def)
  qed
qed

end

interpretation reader: secret_reader secretClient secretsAt
  by (rule secret_reader.intro) (rule keys.A.kube_kind_axioms)

section \<open>Properties\<close>

text \<open>the credential pool of an external policy is exactly the sorted set of the API-key Secrets the
  operator manages in the namespace and the model's own, and its allow-list exactly the sorted
  client IDs of the model's own Secret, none while the Secret is missing.\<close>

theorem api_key_inputs_exact:
  assumes "secret_reader c view"
    and "apiKeySecretNamesWith c ns (APIKeySecretName mn) s = (Inr names, s')"
    and "apiKeyClientIDs c mn ns s' = (Inr ids, s'')"
  shows "names = sorted_list_of_set (insert (APIKeySecretName mn) (managedSecretNames (view s) ns)) \<and>
    sorted ids \<and>
    set ids = (case view s (ns, APIKeySecretName mn) of None \<Rightarrow> {} | Some x \<Rightarrow> dom (map_of (sec_data x))) \<and>
    view s'' = view s"
  using secret_reader.secretNames_spec [OF assms(1,2)] secret_reader.clientIDs_spec [OF assms(1,3)]
  by simp

definition twoSecrets :: cluster where
  "twoSecrets = emptyCluster\<lparr>cl_secrets :=
     map (\<lambda>(n, l, d). ((''llm'', n), \<lparr>sec_meta = newMeta n ''llm'' l, sec_type = ''Opaque'', sec_data = d\<rparr>))
       [(''z-api-keys'', [(managedByLabel, operatorName)], []),
        (''a-api-keys'', [(managedByLabel, operatorName)], [(''k2'', ''x''), (''k1'', ''y'')]),
        (''other-api-keys'', [], []), (''tls'', [(managedByLabel, operatorName)], [])]\<rparr>"

lemma twoSecrets_names: "fst (apiKeySecretNamesWith secretClient ''llm'' (APIKeySecretName ''a'') twoSecrets) =
    Inr [''a-api-keys'', ''z-api-keys'']"
  by code_simp

lemma twoSecrets_ids: "fst (apiKeyClientIDs secretClient ''a'' ''llm''
    (snd (apiKeySecretNamesWith secretClient ''llm'' (APIKeySecretName ''a'') twoSecrets))) = Inr [''k1'', ''k2'']"
  by code_simp

theorem api_key_inputs_exact_witness:
  "[''a-api-keys'', ''z-api-keys''] =
     sorted_list_of_set (insert (APIKeySecretName ''a'') (managedSecretNames (secretsAt twoSecrets) ''llm''))"
proof -
  obtain s' where 1: "apiKeySecretNamesWith secretClient ''llm'' (APIKeySecretName ''a'') twoSecrets =
      (Inr [''a-api-keys'', ''z-api-keys''], s')"
    using twoSecrets_names by (metis prod.collapse)
  obtain s'' where 2: "apiKeyClientIDs secretClient ''a'' ''llm'' s' = (Inr [''k1'', ''k2''], s'')"
    using twoSecrets_ids 1 by (metis prod.collapse snd_conv)
  show ?thesis using api_key_inputs_exact [OF reader.secret_reader_axioms 1 2] by blast
qed

text \<open>A change of an API-key Secret enqueues every model of its namespace, unless listing fails.\<close>

lemma secret_change_enqueues_models:
  assumes "kube_kind c view metaOf content"
    and "isAPIKeySecretName (om_name obj)"
    and "enqueueAllModelsForAPIKeySecret c metaOf obj s = (reqs, s')"
    and "view s (om_namespace obj, n) = Some x" and "om_namespace obj \<noteq> []"
  shows "(om_namespace obj, n) \<in> set reqs \<or>
    (reqs = [] \<and> (\<exists>e. fst (tc_list c (om_namespace obj) [] s) = Inl e))"
proof (cases "tc_list c (om_namespace obj) [] s")
  case (Pair r t)
  show ?thesis
  proof (cases r)
    case (Inl e)
    with assms Pair show ?thesis by (auto simp: enqueueAllModelsForAPIKeySecret_def)
  next
    case (Inr ms)
    have key: "metaKey (metaOf x) = (om_namespace obj, n)"
      using kube_kind.view_key [OF assms(1,4)] by blast
    then have "x \<in> set ms"
      using kube_kind.list_ok [OF assms(1), of "om_namespace obj" "[]" s ms t] Pair Inr assms(4)
      by (auto simp: inNamespace_def matchesLabels_def metaKey_def)
    with key assms(2,3) Pair Inr show ?thesis
      by (auto simp: enqueueAllModelsForAPIKeySecret_def metaKey_def intro!: image_eqI [of _ _ x])
  qed
qed

end
