(* ===== verification/Webhooks.thy ===== *)
theory Webhooks
  imports ApiKeys
begin

text \<open>
  \<open>operator/internal/webhook/v1alpha1\<close>: the validating webhooks of both kinds of model. The
  uncached API reader they use is an argument, here the answers of the API server at the moment
  of the read; the locale \<open>api_reader\<close> names what those answers mean. Log lines are left out.
\<close>

section \<open>Requests\<close>

text \<open>The object of an admission request; any other Go type is known by its name.\<close>

datatype admitted_object = ObjLLM LLMModel | ObjPassthrough PassthroughModel | ObjOther string

fun typeName :: "admitted_object \<Rightarrow> string" where
  "typeName (ObjLLM _) = ''*v1alpha1.LLMModel''"
| "typeName (ObjPassthrough _) = ''*v1alpha1.PassthroughModel''"
| "typeName (ObjOther t) = t"

text \<open>The reader, and the two validators, which have the same fields.\<close>

record Validator =
  va_namespace :: "string \<Rightarrow> gerror + string gomap"
  va_llm :: "nsname \<Rightarrow> gerror + LLMModel"
  va_passthrough :: "nsname \<Rightarrow> gerror + PassthroughModel"
  va_OperatorNamespace :: string

type_synonym verdict = "gerror + unit"

definition accept :: verdict where "accept = Inr ()"
definition reject :: "string \<Rightarrow> verdict" where "reject t = Inl (errorf t)"

fun andThen :: "verdict \<Rightarrow> verdict \<Rightarrow> verdict" where
  "andThen (Inl e) v = Inl e"
| "andThen (Inr u) v = v"

lemma andThen_accepts: "andThen a b = Inr () \<longleftrightarrow> a = Inr () \<and> b = Inr ()"
  by (cases a) auto

lemma andThen_rejects: "andThen a b = Inl e \<longleftrightarrow> a = Inl e \<or> a = Inr () \<and> b = Inl e"
  by (cases a) auto

section \<open>Checks of both kinds\<close>

text \<open>The two validators differ in these checks only by the kind the message names.\<close>

definition validateOperatorNamespace :: "string \<Rightarrow> Validator \<Rightarrow> string \<Rightarrow> verdict" where
  "validateOperatorNamespace kind v ns =
     (if va_OperatorNamespace v = [] then accept
      else if ns \<noteq> va_OperatorNamespace v
      then reject (kind @ '' must be created in the operator's namespace '' @ quote (va_OperatorNamespace v) @
        '' (got '' @ quote ns @ ''); the API-key Secret needs to be co-located with its SecurityPolicy because Envoy Gateway's APIKeyAuth rejects cross-namespace credentialRefs'')
      else accept)"

definition validateNamespaceLabel :: "string \<Rightarrow> Validator \<Rightarrow> string \<Rightarrow> verdict" where
  "validateNamespaceLabel kind v ns =
     (case va_namespace v ns of
        Inl e \<Rightarrow> Inl (wrapErr (''failed to get namespace '' @ quote ns) e)
      | Inr labels \<Rightarrow>
          if map_of labels ''nebari.dev/managed'' \<noteq> Some ''true''
          then reject (''namespace '' @ quote ns @ '' does not have the required label nebari.dev/managed=true; '' @
            kind @ '' resources can only be created in namespaces managed by Nebari'')
          else accept)"

definition validateLLMNamespace :: "Validator \<Rightarrow> string \<Rightarrow> verdict" where
  "validateLLMNamespace = validateOperatorNamespace ''LLMModel''"

definition validateLLMNamespaceLabel :: "Validator \<Rightarrow> string \<Rightarrow> verdict" where
  "validateLLMNamespaceLabel = validateNamespaceLabel ''LLMModel''"

definition validatePassthroughNamespace :: "Validator \<Rightarrow> string \<Rightarrow> verdict" where
  "validatePassthroughNamespace = validateOperatorNamespace ''PassthroughModel''"

definition validatePassthroughNamespaceLabel :: "Validator \<Rightarrow> string \<Rightarrow> verdict" where
  "validatePassthroughNamespaceLabel = validateNamespaceLabel ''PassthroughModel''"

definition declaresAccess :: "AccessSpec \<Rightarrow> bool" where
  "declaresAccess a \<longleftrightarrow> acc_public a = Some True \<or> acc_groups a \<noteq> []"

definition validateAccess :: "LLMModel \<Rightarrow> verdict" where
  "validateAccess m =
     (let access = spec_access (lm_spec m)
      in if acc_public access = Some True then accept
         else if acc_groups access = []
         then reject ''spec.access must declare either public=true or at least one group in groups; a model with neither cannot be accessed by any user''
         else accept)"

definition validatePassthroughAccess :: "PassthroughModel \<Rightarrow> verdict" where
  "validatePassthroughAccess p =
     (let access = pspec_access (pm_spec p)
      in if acc_public access = Some True then accept
         else if acc_groups access = []
         then reject ''spec.access must declare either public=true or at least one group in groups; a passthrough with neither cannot be accessed by any user''
         else accept)"

text \<open>The answer of the other kind's reader decides; an absent CRD cannot hold a colliding object.\<close>

definition collisionVerdict :: "string \<Rightarrow> string \<Rightarrow> string \<Rightarrow> string \<Rightarrow> gerror + 'o \<Rightarrow> verdict" where
  "collisionVerdict kind other name ns answer =
     (case answer of
        Inr _ \<Rightarrow> reject (''name '' @ quote name @ '' is already used by '' @ other @ '' in namespace '' @ quote ns @
          ''; '' @ kind @ '' names must be unique across both kinds because they share the api-keys Secret '' @
          quote (APIKeySecretName name))
      | Inl e \<Rightarrow> if isNotFound e \<or> isNoMatchError e then accept
          else Inl (wrapErr (''checking for name collision with '' @ other @ '' '' @ quote name) e))"

definition validateNoNameCollision :: "Validator \<Rightarrow> LLMModel \<Rightarrow> verdict" where
  "validateNoNameCollision v m =
     collisionVerdict ''LLMModel and PassthroughModel'' ''a PassthroughModel'' (lm_name m) (lm_namespace m)
       (va_passthrough v (lm_namespace m, lm_name m))"

definition validateNoNameCollisionPassthrough :: "Validator \<Rightarrow> PassthroughModel \<Rightarrow> verdict" where
  "validateNoNameCollisionPassthrough v p =
     collisionVerdict ''PassthroughModel and LLMModel'' ''an LLMModel'' (pm_name p) (pm_namespace p)
       (va_llm v (pm_namespace p, pm_name p))"

section \<open>LLMModel\<close>

definition emptyDirPreloadWarnings :: "LLMModel \<Rightarrow> string list" where
  "emptyDirPreloadWarnings m =
     (if sto_type (mod_storage (spec_model (lm_spec m))) = StorageTypeEmptyDir \<and>
         mod_preload (spec_model (lm_spec m)) = Some True
      then [''storage type is emptyDir with preload=true: every pod restart triggers a re-download of the model, which may cause significant delays and bandwidth usage; consider using a PVC for persistent storage'']
      else [])"

definition validateLLM :: "(bytes \<Rightarrow> bytes) \<Rightarrow> Validator \<Rightarrow> LLMModel \<Rightarrow> gerror + string list" where
  "validateLLM sha v m =
     (case andThen (validateLLMNamespace v (lm_namespace m))
        (andThen (validateLLMNamespaceLabel v (lm_namespace m))
        (andThen (validateAccess m) (validateNoNameCollision v m))) of
        Inl e \<Rightarrow> Inl e
      | Inr _ \<Rightarrow>
          (case EffectiveSubdomain sha m of
             Inl e \<Rightarrow> Inl e | Inr _ \<Rightarrow> Inr (emptyDirPreloadWarnings m)))"

definition ValidateCreateLLM ::
  "(bytes \<Rightarrow> bytes) \<Rightarrow> Validator \<Rightarrow> admitted_object \<Rightarrow> gerror + string list" where
  "ValidateCreateLLM sha v obj =
     (case obj of ObjLLM m \<Rightarrow> validateLLM sha v m
      | _ \<Rightarrow> Inl (errorf (''expected a LLMModel object but got '' @ typeName obj)))"

definition ValidateUpdateLLM ::
  "(bytes \<Rightarrow> bytes) \<Rightarrow> Validator \<Rightarrow> admitted_object \<Rightarrow> admitted_object \<Rightarrow> gerror + string list" where
  "ValidateUpdateLLM sha v oldObj newObj =
     (case newObj of ObjLLM m \<Rightarrow> validateLLM sha v m
      | _ \<Rightarrow> Inl (errorf (''expected a LLMModel object for the newObj but got '' @ typeName newObj)))"

definition ValidateDeleteLLM :: "Validator \<Rightarrow> admitted_object \<Rightarrow> gerror + string list" where
  "ValidateDeleteLLM v obj =
     (case obj of ObjLLM m \<Rightarrow> Inr []
      | _ \<Rightarrow> Inl (errorf (''expected a LLMModel object but got '' @ typeName obj)))"

section \<open>PassthroughModel\<close>

definition validateProvider :: "PassthroughModel \<Rightarrow> verdict" where
  "validateProvider p =
     (let provider = pspec_provider (pm_spec p); host = prov_hostname provider
      in if trimSpace host = [] then reject ''spec.provider.hostname must not be empty''
         else if contains host ''://''
         then reject (''spec.provider.hostname must be a bare hostname (got '' @ quote host @ ''); drop the URL scheme'')
         else if containsAny host ''/:'' \<or> containsAny host [CHR '' '', CHR 0x09, CHR 0x0A, CHR 0x0D]
         then reject (''spec.provider.hostname must be a bare hostname (got '' @ quote host @
           ''); drop any port, path, or whitespace (use spec.provider.port for the port)'')
         else if trimSpace (prov_credentialSecretName provider) = []
         then reject ''spec.provider.credentialSecretName must not be empty''
         else accept)"

definition validateEndpoints :: "PassthroughModel \<Rightarrow> verdict" where
  "validateEndpoints p =
     (let endpoints = pspec_endpoints (pm_spec p);
          externalEnabled = (tog_enabled (pep_external endpoints) = None \<or> tog_enabled (pep_external endpoints) = Some True);
          internalEnabled = (tog_enabled (pep_internal endpoints) = None \<or> tog_enabled (pep_internal endpoints) = Some True)
      in if \<not> externalEnabled \<and> \<not> internalEnabled
         then reject ''spec.endpoints cannot disable both external and internal; a passthrough with neither endpoint enabled is never reachable''
         else accept)"

text \<open>The first blank identifier is reported with its index.\<close>

fun checkDeclared :: "nat \<Rightarrow> string list \<Rightarrow> verdict" where
  "checkDeclared i [] = accept"
| "checkDeclared i (d # ds) =
     (if trimSpace d = [] then reject (''spec.models.declared['' @ itoa i @ ''] must not be empty'')
      else checkDeclared (Suc i) ds)"

definition validateModels :: "PassthroughModel \<Rightarrow> verdict" where
  "validateModels p =
     (let models = pspec_models (pm_spec p)
      in if \<not> pms_catchAll models \<and> pms_declared models = []
         then reject ''spec.models must enable catchAll or declare at least one model id; a passthrough that routes nothing is never reachable''
         else checkDeclared 0 (pms_declared models))"

definition validatePassthrough :: "Validator \<Rightarrow> PassthroughModel \<Rightarrow> gerror + string list" where
  "validatePassthrough v p =
     (case andThen (validatePassthroughNamespace v (pm_namespace p))
        (andThen (validatePassthroughNamespaceLabel v (pm_namespace p))
        (andThen (validatePassthroughAccess p) (andThen (validateProvider p)
        (andThen (validateModels p) (andThen (validateEndpoints p)
          (validateNoNameCollisionPassthrough v p)))))) of
        Inl e \<Rightarrow> Inl e
      | Inr _ \<Rightarrow> Inr [])"

definition ValidateCreatePassthrough :: "Validator \<Rightarrow> admitted_object \<Rightarrow> gerror + string list" where
  "ValidateCreatePassthrough v obj =
     (case obj of ObjPassthrough p \<Rightarrow> validatePassthrough v p
      | _ \<Rightarrow> Inl (errorf (''expected a PassthroughModel object but got '' @ typeName obj)))"

definition ValidateUpdatePassthrough ::
  "Validator \<Rightarrow> admitted_object \<Rightarrow> admitted_object \<Rightarrow> gerror + string list" where
  "ValidateUpdatePassthrough v oldObj newObj =
     (case newObj of ObjPassthrough p \<Rightarrow> validatePassthrough v p
      | _ \<Rightarrow> Inl (errorf (''expected a PassthroughModel object for the newObj but got '' @ typeName newObj)))"

definition ValidateDeletePassthrough :: "Validator \<Rightarrow> admitted_object \<Rightarrow> gerror + string list" where
  "ValidateDeletePassthrough v obj =
     (case obj of ObjPassthrough p \<Rightarrow> Inr []
      | _ \<Rightarrow> Inl (errorf (''expected a PassthroughModel object but got '' @ typeName obj)))"

section \<open>What the checks decide\<close>

lemmas verdict_defs = accept_def reject_def

lemma operatorNamespace_accepts:
  "validateLLMNamespace v ns = Inr () \<longleftrightarrow> va_OperatorNamespace v = [] \<or> va_OperatorNamespace v = ns"
  "validatePassthroughNamespace v ns = Inr () \<longleftrightarrow> va_OperatorNamespace v = [] \<or> va_OperatorNamespace v = ns"
  by (auto simp: validateLLMNamespace_def validatePassthroughNamespace_def validateOperatorNamespace_def verdict_defs)

lemma namespaceLabel_accepts:
  "validateLLMNamespaceLabel v ns = Inr () \<longleftrightarrow>
     (\<exists>l. va_namespace v ns = Inr l \<and> map_of l ''nebari.dev/managed'' = Some ''true'')"
  "validatePassthroughNamespaceLabel v ns = Inr () \<longleftrightarrow>
     (\<exists>l. va_namespace v ns = Inr l \<and> map_of l ''nebari.dev/managed'' = Some ''true'')"
  by (auto simp: validateLLMNamespaceLabel_def validatePassthroughNamespaceLabel_def validateNamespaceLabel_def
      verdict_defs split: sum.splits)

lemma access_accepts:
  "validateAccess m = Inr () \<longleftrightarrow> declaresAccess (spec_access (lm_spec m))"
  "validatePassthroughAccess p = Inr () \<longleftrightarrow> declaresAccess (pspec_access (pm_spec p))"
  by (auto simp: validateAccess_def validatePassthroughAccess_def declaresAccess_def verdict_defs Let_def)

text \<open>An answer that says the object is not there.\<close>

definition absent :: "gerror + 'o \<Rightarrow> bool" where
  "absent a = (case a of Inl e \<Rightarrow> isNotFound e \<or> isNoMatchError e | Inr _ \<Rightarrow> False)"

lemma collision_accepts: "collisionVerdict k other n ns a = Inr () \<longleftrightarrow> absent a"
  by (auto simp: collisionVerdict_def absent_def verdict_defs split: sum.splits)

lemma subdomain_accepts:
  "(\<exists>d. EffectiveSubdomain sha m = Inr d) \<longleftrightarrow>
     length (let d = ext_subdomain (ep_external (spec_endpoints (lm_spec m)))
       in if d = [] then Slugify sha (lm_name m) else d) \<le> 63"
  by (simp add: EffectiveSubdomain_def Let_def)

lemma Slugify_bound: "digest sha \<Longrightarrow> length (Slugify sha name) \<le> 63"
  using slug_shape [of sha name] by auto

lemma provider_accepts:
  "validateProvider p = Inr () \<longleftrightarrow>
     (let h = prov_hostname (pspec_provider (pm_spec p))
      in trimSpace h \<noteq> [] \<and> set h \<inter> set [CHR ''/'', CHR '':'', CHR '' '', CHR 0x09, CHR 0x0A, CHR 0x0D] = {}) \<and>
     trimSpace (prov_credentialSecretName (pspec_provider (pm_spec p))) \<noteq> []"
proof -
  have "contains h ''://'' \<Longrightarrow> CHR ''/'' \<in> set h" for h by (auto simp: contains_iff)
  then show ?thesis
    by (auto simp: validateProvider_def verdict_defs Let_def containsAny_iff)
qed

lemma checkDeclared_accepts: "checkDeclared i ds = Inr () \<longleftrightarrow> (\<forall>d \<in> set ds. trimSpace d \<noteq> [])"
  by (induction ds arbitrary: i) (auto simp: verdict_defs)

lemma models_accepts:
  "validateModels p = Inr () \<longleftrightarrow>
     (pms_catchAll (pspec_models (pm_spec p)) \<or> pms_declared (pspec_models (pm_spec p)) \<noteq> []) \<and>
     (\<forall>d \<in> set (pms_declared (pspec_models (pm_spec p))). trimSpace d \<noteq> [])"
  by (auto simp: validateModels_def Let_def verdict_defs checkDeclared_accepts)

lemma endpoints_accepts:
  "validateEndpoints p = Inr () \<longleftrightarrow>
     boolOrDefault (tog_enabled (pep_external (pspec_endpoints (pm_spec p)))) True \<or>
     boolOrDefault (tog_enabled (pep_internal (pspec_endpoints (pm_spec p)))) True"
  by (auto simp: validateEndpoints_def Let_def verdict_defs boolOrDefault_def split: option.splits)

lemmas check_accepts = andThen_accepts operatorNamespace_accepts namespaceLabel_accepts access_accepts
  collision_accepts provider_accepts models_accepts endpoints_accepts

lemma validateLLM_accepts:
  assumes "digest sha"
  shows "(\<exists>w. validateLLM sha v m = Inr w) \<longleftrightarrow>
    (va_OperatorNamespace v = [] \<or> va_OperatorNamespace v = lm_namespace m) \<and>
    (\<exists>l. va_namespace v (lm_namespace m) = Inr l \<and> map_of l ''nebari.dev/managed'' = Some ''true'') \<and>
    declaresAccess (spec_access (lm_spec m)) \<and> absent (va_passthrough v (lm_namespace m, lm_name m)) \<and>
    length (ext_subdomain (ep_external (spec_endpoints (lm_spec m)))) \<le> 63"
proof -
  have "(\<exists>w. validateLLM sha v m = Inr w) \<longleftrightarrow>
      andThen (validateLLMNamespace v (lm_namespace m))
        (andThen (validateLLMNamespaceLabel v (lm_namespace m))
        (andThen (validateAccess m) (validateNoNameCollision v m))) = Inr () \<and>
      (\<exists>d. EffectiveSubdomain sha m = Inr d)"
    by (auto simp: validateLLM_def split: sum.splits)
  then show ?thesis using Slugify_bound [OF assms, of "lm_name m"]
    by (auto simp: check_accepts validateNoNameCollision_def subdomain_accepts Let_def)
qed

lemma validatePassthrough_accepts:
  "(\<exists>w. validatePassthrough v p = Inr w) \<longleftrightarrow>
     validatePassthroughNamespace v (pm_namespace p) = Inr () \<and>
     validatePassthroughNamespaceLabel v (pm_namespace p) = Inr () \<and>
     validatePassthroughAccess p = Inr () \<and> validateProvider p = Inr () \<and> validateModels p = Inr () \<and>
     validateEndpoints p = Inr () \<and> validateNoNameCollisionPassthrough v p = Inr ()"
proof -
  have "(\<exists>w. validatePassthrough v p = Inr w) \<longleftrightarrow>
      andThen (validatePassthroughNamespace v (pm_namespace p))
        (andThen (validatePassthroughNamespaceLabel v (pm_namespace p))
        (andThen (validatePassthroughAccess p) (andThen (validateProvider p)
        (andThen (validateModels p) (andThen (validateEndpoints p)
          (validateNoNameCollisionPassthrough v p)))))) = Inr ()"
    by (auto simp: validatePassthrough_def split: sum.splits)
  then show ?thesis by (simp only: andThen_accepts)
qed

section \<open>Requests and the stored models\<close>

text \<open>
  The API server around the webhooks: a request is judged on the models stored at that moment, and
  an admitted one is persisted. \<open>serial\<close> is the system in which every admitted request is
  persisted before the next one is looked at; the server does not promise that, so what two
  requests do that are judged on the same state is stated as well.
\<close>

datatype creation = CreateLLM LLMModel | CreatePassthrough PassthroughModel

record api =
  ap_llm :: "(nsname \<times> LLMModel) list"
  ap_passthrough :: "(nsname \<times> PassthroughModel) list"

definition answer :: "(nsname \<times> 'o) list \<Rightarrow> nsname \<Rightarrow> gerror + 'o" where
  "answer xs n = (case map_of xs n of None \<Rightarrow> Inl (notFoundError ''models'' (snd n)) | Some x \<Rightarrow> Inr x)"

definition validatorAt :: "(string \<Rightarrow> gerror + string gomap) \<Rightarrow> string \<Rightarrow> api \<Rightarrow> Validator" where
  "validatorAt nss op s = \<lparr>va_namespace = nss, va_llm = answer (ap_llm s),
     va_passthrough = answer (ap_passthrough s), va_OperatorNamespace = op\<rparr>"

fun admits :: "(bytes \<Rightarrow> bytes) \<Rightarrow> Validator \<Rightarrow> creation \<Rightarrow> bool" where
  "admits sha v (CreateLLM m) = (case ValidateCreateLLM sha v (ObjLLM m) of Inr _ \<Rightarrow> True | Inl _ \<Rightarrow> False)"
| "admits sha v (CreatePassthrough p) =
     (case ValidateCreatePassthrough v (ObjPassthrough p) of Inr _ \<Rightarrow> True | Inl _ \<Rightarrow> False)"

fun persist :: "creation \<Rightarrow> api \<Rightarrow> api" where
  "persist (CreateLLM m) s = s\<lparr>ap_llm := AList.update (metaKey (lm_meta m)) m (ap_llm s)\<rparr>"
| "persist (CreatePassthrough p) s =
     s\<lparr>ap_passthrough := AList.update (metaKey (pm_meta p)) p (ap_passthrough s)\<rparr>"

inductive serial_step ::
  "(bytes \<Rightarrow> bytes) \<Rightarrow> (string \<Rightarrow> gerror + string gomap) \<Rightarrow> string \<Rightarrow> api \<Rightarrow> api \<Rightarrow> bool"
  for sha nss op where
  serial: "admits sha (validatorAt nss op s) c \<Longrightarrow> serial_step sha nss op s (persist c s)"

inductive_cases serial_stepE: "serial_step sha nss op s t"

definition namesApart :: "api \<Rightarrow> bool" where
  "namesApart s \<longleftrightarrow> dom (map_of (ap_llm s)) \<inter> dom (map_of (ap_passthrough s)) = {}"

lemma absent_answer: "absent (answer xs n) \<longleftrightarrow> n \<notin> dom (map_of xs)"
  by (auto simp: absent_def answer_def notFoundError_def isNotFound_def split: option.splits)

lemma admits_fresh:
  "digest sha \<Longrightarrow> admits sha (validatorAt nss op s) (CreateLLM m) \<Longrightarrow>
     metaKey (lm_meta m) \<notin> dom (map_of (ap_passthrough s))"
  "admits sha (validatorAt nss op s) (CreatePassthrough p) \<Longrightarrow> metaKey (pm_meta p) \<notin> dom (map_of (ap_llm s))"
proof -
  assume "digest sha" "admits sha (validatorAt nss op s) (CreateLLM m)"
  then have "absent (va_passthrough (validatorAt nss op s) (lm_namespace m, lm_name m))"
    using validateLLM_accepts [of sha "validatorAt nss op s" m]
    by (auto simp: ValidateCreateLLM_def split: sum.splits)
  then show "metaKey (lm_meta m) \<notin> dom (map_of (ap_passthrough s))"
    by (simp add: validatorAt_def absent_answer metaKey_def lm_name_def lm_namespace_def)
next
  assume "admits sha (validatorAt nss op s) (CreatePassthrough p)"
  then have "absent (va_llm (validatorAt nss op s) (pm_namespace p, pm_name p))"
    using validatePassthrough_accepts [of "validatorAt nss op s" p]
    by (auto simp: ValidateCreatePassthrough_def validateNoNameCollisionPassthrough_def collision_accepts
        split: sum.splits)
  then show "metaKey (pm_meta p) \<notin> dom (map_of (ap_llm s))"
    by (simp add: validatorAt_def absent_answer metaKey_def pm_name_def pm_namespace_def)
qed

text \<open>What storing a model changes for the other kind: its own name is refused, nothing else.\<close>

lemma admits_after_LLM:
  "admits sha (validatorAt nss op (persist (CreateLLM m) s)) (CreatePassthrough p) \<longleftrightarrow>
     admits sha (validatorAt nss op s) (CreatePassthrough p) \<and> metaKey (pm_meta p) \<noteq> metaKey (lm_meta m)"
proof -
  have "admits sha v (CreatePassthrough p) \<longleftrightarrow> (\<exists>w. validatePassthrough v p = Inr w)" for v
    by (auto simp: ValidateCreatePassthrough_def split: sum.splits)
  then show ?thesis
    by (auto simp: validatePassthrough_accepts check_accepts validateNoNameCollisionPassthrough_def validatorAt_def
        absent_answer metaKey_def pm_name_def pm_namespace_def update_conv')
qed

lemma admits_after_passthrough:
  assumes "digest sha"
  shows "admits sha (validatorAt nss op (persist (CreatePassthrough p) s)) (CreateLLM m) \<longleftrightarrow>
     admits sha (validatorAt nss op s) (CreateLLM m) \<and> metaKey (pm_meta p) \<noteq> metaKey (lm_meta m)"
proof -
  have "admits sha v (CreateLLM m) \<longleftrightarrow> (\<exists>w. validateLLM sha v m = Inr w)" for v
    by (auto simp: ValidateCreateLLM_def split: sum.splits)
  then show ?thesis
    by (auto simp: validateLLM_accepts [OF assms] validatorAt_def absent_answer metaKey_def lm_name_def
        lm_namespace_def update_conv')
qed

lemma serial_step_namesApart:
  assumes "serial_step sha nss op s t" and "digest sha" and "namesApart s"
  shows "namesApart t"
proof -
  from assms(1) obtain c where c: "t = persist c s" "admits sha (validatorAt nss op s) c"
    by (auto elim: serial_stepE)
  show ?thesis
  proof (cases c)
    case (CreateLLM m)
    with c assms(2,3) admits_fresh(1) [of sha nss op s m] show ?thesis by (auto simp: namesApart_def)
  next
    case (CreatePassthrough p)
    with c assms(3) admits_fresh(2) [where sha = sha and nss = nss and op = op and s = s and p = p] show ?thesis by (auto simp: namesApart_def)
  qed
qed

text \<open>The objects the closed instances run on.\<close>

definition managedNamespaces :: "string \<Rightarrow> gerror + string gomap" where
  "managedNamespaces n = Inr [(''nebari.dev/managed'', ''true'')]"

definition emptyApi :: api where
  "emptyApi = \<lparr>ap_llm = [], ap_passthrough = []\<rparr>"

definition publicModel :: "string \<Rightarrow> LLMModel" where
  "publicModel n = sampleModel n ''llm'' \<lparr>acc_public = Some True, acc_groups = []\<rparr>"

definition publicPassthrough :: "string \<Rightarrow> PassthroughModel" where
  "publicPassthrough n = samplePassthrough n ''llm'' \<lparr>acc_public = Some True, acc_groups = []\<rparr>"

lemma publicModel_admitted:
  "admits sha256 (validatorAt managedNamespaces ''llm'' emptyApi) (CreateLLM (publicModel ''m''))"
proof -
  let ?v = "validatorAt managedNamespaces ''llm'' emptyApi" and ?m = "publicModel ''m''"
  have "va_OperatorNamespace ?v = lm_namespace ?m" "declaresAccess (spec_access (lm_spec ?m))"
    "absent (va_passthrough ?v (lm_namespace ?m, lm_name ?m))"
    "length (ext_subdomain (ep_external (spec_endpoints (lm_spec ?m)))) \<le> 63"
    by code_simp+
  moreover have "va_namespace ?v n = Inr [(''nebari.dev/managed'', ''true'')]" for n
    by (simp add: validatorAt_def managedNamespaces_def)
  ultimately show ?thesis
    using validateLLM_accepts [OF sha.digest_axioms, of ?v ?m]
    by (auto simp: ValidateCreateLLM_def split: sum.splits)
qed

lemma publicPassthrough_admitted:
  "admits sha256 (validatorAt managedNamespaces ''llm'' emptyApi) (CreatePassthrough (publicPassthrough ''m''))"
proof -
  have "(case ValidateCreatePassthrough (validatorAt managedNamespaces ''llm'' emptyApi)
      (ObjPassthrough (publicPassthrough ''m'')) of Inr _ \<Rightarrow> True | Inl _ \<Rightarrow> False)" by code_simp
  then show ?thesis by simp
qed

section \<open>Properties\<close>

text \<open>An LLMModel is admitted, on create and on update alike, exactly when it lives in the operator's
  namespace (if one is set), that namespace is labelled as managed, it is public or names a group,
  no PassthroughModel has its name, and an explicit subdomain has at most 63 bytes; deletion is
  never refused.\<close>

theorem llm_webhook_admits_exactly:
  assumes "digest sha"
  shows "((\<exists>w. ValidateCreateLLM sha v (ObjLLM m) = Inr w) \<longleftrightarrow>
      (va_OperatorNamespace v = [] \<or> va_OperatorNamespace v = lm_namespace m) \<and>
      (\<exists>l. va_namespace v (lm_namespace m) = Inr l \<and> map_of l ''nebari.dev/managed'' = Some ''true'') \<and>
      declaresAccess (spec_access (lm_spec m)) \<and> absent (va_passthrough v (lm_namespace m, lm_name m)) \<and>
      length (ext_subdomain (ep_external (spec_endpoints (lm_spec m)))) \<le> 63) \<and>
    ValidateUpdateLLM sha v old (ObjLLM m) = ValidateCreateLLM sha v (ObjLLM m) \<and>
    ValidateDeleteLLM v (ObjLLM m) = Inr []"
  using validateLLM_accepts [OF assms]
  by (simp add: ValidateCreateLLM_def ValidateUpdateLLM_def ValidateDeleteLLM_def)

theorem llm_webhook_admits_exactly_witness:
  "\<exists>w. ValidateCreateLLM sha256 (validatorAt managedNamespaces ''llm'' emptyApi) (ObjLLM (publicModel ''m'')) = Inr w"
proof -
  let ?v = "validatorAt managedNamespaces ''llm'' emptyApi" and ?m = "publicModel ''m''"
  have "va_OperatorNamespace ?v = lm_namespace ?m" "declaresAccess (spec_access (lm_spec ?m))"
    "absent (va_passthrough ?v (lm_namespace ?m, lm_name ?m))"
    "length (ext_subdomain (ep_external (spec_endpoints (lm_spec ?m)))) \<le> 63"
    by code_simp+
  moreover have "va_namespace ?v n = Inr [(''nebari.dev/managed'', ''true'')]" for n
    by (simp add: validatorAt_def managedNamespaces_def)
  ultimately show ?thesis
    using llm_webhook_admits_exactly [OF sha.digest_axioms, of ?v ?m "ObjOther []"] by simp
qed

text \<open>C23: a PassthroughModel is admitted, on create and on update alike, exactly when namespace, access and
  name are in order as for an LLMModel, its provider is a bare host name with a credential, it
  routes something and no declared identifier is blank, and one of its endpoints is enabled.\<close>

theorem passthrough_webhook_admits_exactly:
  "((\<exists>w. ValidateCreatePassthrough v (ObjPassthrough p) = Inr w) \<longleftrightarrow>
      (va_OperatorNamespace v = [] \<or> va_OperatorNamespace v = pm_namespace p) \<and>
      (\<exists>l. va_namespace v (pm_namespace p) = Inr l \<and> map_of l ''nebari.dev/managed'' = Some ''true'') \<and>
      declaresAccess (pspec_access (pm_spec p)) \<and> absent (va_llm v (pm_namespace p, pm_name p)) \<and>
      (let h = prov_hostname (pspec_provider (pm_spec p))
       in trimSpace h \<noteq> [] \<and> set h \<inter> set [CHR ''/'', CHR '':'', CHR '' '', CHR 0x09, CHR 0x0A, CHR 0x0D] = {}) \<and>
      trimSpace (prov_credentialSecretName (pspec_provider (pm_spec p))) \<noteq> [] \<and>
      (pms_catchAll (pspec_models (pm_spec p)) \<or> pms_declared (pspec_models (pm_spec p)) \<noteq> []) \<and>
      [] \<notin> trimSpace ` set (pms_declared (pspec_models (pm_spec p))) \<and>
      (boolOrDefault (tog_enabled (pep_external (pspec_endpoints (pm_spec p)))) True \<or>
       boolOrDefault (tog_enabled (pep_internal (pspec_endpoints (pm_spec p)))) True)) \<and>
    ValidateUpdatePassthrough v old (ObjPassthrough p) = ValidateCreatePassthrough v (ObjPassthrough p) \<and>
    ValidateDeletePassthrough v (ObjPassthrough p) = Inr []"
  by (simp add: ValidateCreatePassthrough_def ValidateUpdatePassthrough_def ValidateDeletePassthrough_def
      validatePassthrough_accepts check_accepts validateNoNameCollisionPassthrough_def image_iff Let_def)
    (auto 0 3)

theorem passthrough_webhook_admits_exactly_witness:
  "\<exists>w. ValidateCreatePassthrough (validatorAt managedNamespaces ''llm'' emptyApi)
     (ObjPassthrough (publicPassthrough ''p'')) = Inr w"
proof -
  let ?v = "validatorAt managedNamespaces ''llm'' emptyApi" and ?p = "publicPassthrough ''p''"
  have "va_OperatorNamespace ?v = pm_namespace ?p" "declaresAccess (pspec_access (pm_spec ?p))"
    "absent (va_llm ?v (pm_namespace ?p, pm_name ?p))"
    "trimSpace (prov_hostname (pspec_provider (pm_spec ?p))) \<noteq> []"
    "set (prov_hostname (pspec_provider (pm_spec ?p))) \<inter>
       set [CHR ''/'', CHR '':'', CHR '' '', CHR 0x09, CHR 0x0A, CHR 0x0D] = {}"
    "trimSpace (prov_credentialSecretName (pspec_provider (pm_spec ?p))) \<noteq> []"
    "pms_declared (pspec_models (pm_spec ?p)) \<noteq> []"
    "[] \<notin> trimSpace ` set (pms_declared (pspec_models (pm_spec ?p)))"
    "boolOrDefault (tog_enabled (pep_external (pspec_endpoints (pm_spec ?p)))) True"
    by code_simp+
  moreover have "va_namespace ?v n = Inr [(''nebari.dev/managed'', ''true'')]" for n
    by (simp add: validatorAt_def managedNamespaces_def)
  ultimately show ?thesis
    using passthrough_webhook_admits_exactly [of ?v ?p "ObjOther []"] by (simp add: Let_def)
qed

text \<open>C21: as long as every admitted request is persisted before the next one is looked at, no name is
  ever used by both kinds of model.\<close>

theorem serial_creates_keep_names_apart:
  assumes "(serial_step sha nss op)\<^sup>*\<^sup>* s t" and "digest sha" and "namesApart s"
  shows "namesApart t"
  using assms(1)
  by (induction rule: rtranclp_induct) (auto intro: serial_step_namesApart assms(2,3))

theorem serial_creates_keep_names_apart_witness:
  "namesApart (persist (CreateLLM (publicModel ''m'')) emptyApi)"
proof -
  have "admits sha256 (validatorAt managedNamespaces ''llm'' emptyApi) (CreateLLM (publicModel ''m''))"
    by (rule publicModel_admitted)
  then have "(serial_step sha256 managedNamespaces ''llm'')\<^sup>*\<^sup>* emptyApi
      (persist (CreateLLM (publicModel ''m'')) emptyApi)"
    by (intro r_into_rtranclp serial)
  then show ?thesis
    by (rule serial_creates_keep_names_apart [OF _ sha.digest_axioms]) (simp add: namesApart_def emptyApi_def)
qed

text \<open>C22: the webhooks refuse a name exactly when it is stored for the other kind of model: with a model
  stored, the requests for the other kind that are admitted are those admitted before, less the
  ones under its name. So two requests of different kinds under one name exclude each other once
  one of them is persisted, whichever comes first; but judged on the same state, as requests under
  way at the same time are, both can be admitted, and then both persist and the name is used twice.\<close>

theorem stored_name_excludes_other_kind:
  assumes "digest sha"
  shows "(admits sha (validatorAt nss op (persist (CreateLLM m) s)) (CreatePassthrough p) \<longleftrightarrow>
      admits sha (validatorAt nss op s) (CreatePassthrough p) \<and> metaKey (pm_meta p) \<noteq> metaKey (lm_meta m)) \<and>
    (admits sha (validatorAt nss op (persist (CreatePassthrough p) s)) (CreateLLM m) \<longleftrightarrow>
      admits sha (validatorAt nss op s) (CreateLLM m) \<and> metaKey (pm_meta p) \<noteq> metaKey (lm_meta m)) \<and>
    (namesApart s \<longrightarrow> admits sha (validatorAt nss op s) (CreateLLM m) \<longrightarrow>
      admits sha (validatorAt nss op s) (CreatePassthrough p) \<longrightarrow>
      (namesApart (persist (CreatePassthrough p) (persist (CreateLLM m) s)) \<longleftrightarrow>
        metaKey (pm_meta p) \<noteq> metaKey (lm_meta m)))"
proof (intro conjI impI)
  show "admits sha (validatorAt nss op (persist (CreateLLM m) s)) (CreatePassthrough p) \<longleftrightarrow>
      admits sha (validatorAt nss op s) (CreatePassthrough p) \<and> metaKey (pm_meta p) \<noteq> metaKey (lm_meta m)"
    by (rule admits_after_LLM)
  show "admits sha (validatorAt nss op (persist (CreatePassthrough p) s)) (CreateLLM m) \<longleftrightarrow>
      admits sha (validatorAt nss op s) (CreateLLM m) \<and> metaKey (pm_meta p) \<noteq> metaKey (lm_meta m)"
    by (rule admits_after_passthrough [OF assms])
  assume "namesApart s" and l: "admits sha (validatorAt nss op s) (CreateLLM m)"
    and p: "admits sha (validatorAt nss op s) (CreatePassthrough p)"
  with admits_fresh(1) [OF assms l] admits_fresh(2) [OF p]
  show "namesApart (persist (CreatePassthrough p) (persist (CreateLLM m) s)) \<longleftrightarrow>
      metaKey (pm_meta p) \<noteq> metaKey (lm_meta m)"
    by (auto simp: namesApart_def)
qed

text \<open>Both kinds under one name, judged on the empty cluster.\<close>

theorem stored_name_excludes_other_kind_witness:
  "admits sha256 (validatorAt managedNamespaces ''llm'' emptyApi) (CreateLLM (publicModel ''m'')) \<and>
   admits sha256 (validatorAt managedNamespaces ''llm'' emptyApi) (CreatePassthrough (publicPassthrough ''m'')) \<and>
   \<not> admits sha256 (validatorAt managedNamespaces ''llm'' (persist (CreateLLM (publicModel ''m'')) emptyApi))
      (CreatePassthrough (publicPassthrough ''m'')) \<and>
   \<not> namesApart (persist (CreatePassthrough (publicPassthrough ''m'')) (persist (CreateLLM (publicModel ''m'')) emptyApi))"
proof -
  have "metaKey (pm_meta (publicPassthrough ''m'')) = metaKey (lm_meta (publicModel ''m''))" by code_simp
  moreover have "namesApart emptyApi" by (simp add: namesApart_def emptyApi_def)
  ultimately show ?thesis
    using stored_name_excludes_other_kind [OF sha.digest_axioms, of managedNamespaces "''llm''" "publicModel ''m''"
        emptyApi "publicPassthrough ''m''"] publicModel_admitted publicPassthrough_admitted
    by (simp del: admits.simps)
qed

end
