(* ===== verification/Storage.thy ===== *)
theory Storage
  imports Workloads
begin

text \<open>
  \<open>operator/internal/controller/reconcilers/storage.go\<close>: the volume a served model keeps its
  weights on, the claim behind it, and the init container that fills it.
\<close>

definition modelStorageVolumeName :: string where "modelStorageVolumeName = ''model-storage''"
definition modelCachePath :: string where "modelCachePath = ''/model-cache''"
definition defaultModelDownloaderImage :: string where
  "defaultModelDownloaderImage = ''ghcr.io/nebari-dev/llm-serving-pack/model-downloader:latest''"

definition modelDownloaderImage :: "environ \<Rightarrow> string" where
  "modelDownloaderImage e =
     (let v = getenv e ''LLM_MODEL_DOWNLOADER_IMAGE'' in if v \<noteq> [] then v else defaultModelDownloaderImage)"

record StorageResult =
  str_PVC :: "PersistentVolumeClaim option"
  str_InitContainer :: "Container option"
  str_Volumes :: "Volume list"
  str_VolumeMounts :: "VolumeMount list"
  str_ModelPath :: string

definition parseStorageSize :: "quantity_parser \<Rightarrow> string \<Rightarrow> gerror + quantity" where
  "parseStorageSize parse sz =
     (if sz = [] then Inr ''0''
      else case parse sz of
        Inl e \<Rightarrow> Inl (wrapErr (''invalid storage size '' @ quote sz) e)
      | Inr q \<Rightarrow> Inr q)"

definition buildPVC :: "quantity_parser \<Rightarrow> string \<Rightarrow> StorageSpec \<Rightarrow> string \<Rightarrow> gerror + PersistentVolumeClaim" where
  "buildPVC parse name storage defaultStorageClassName =
     (case parseStorageSize parse (sto_size storage) of
        Inl e \<Rightarrow> Inl (wrapErr ''parsing storage size'' e)
      | Inr sz \<Rightarrow>
          let sc = (if sto_storageClassName storage = [] then defaultStorageClassName
            else sto_storageClassName storage)
          in Inr \<lparr>pvc_meta = newMeta name [] [], pvc_accessModes = [''ReadWriteOnce''], pvc_storage = sz,
               pvc_storageClassName = (if sc \<noteq> [] then Some sc else None)\<rparr>)"

definition cacheMount :: VolumeMount where
  "cacheMount = \<lparr>vmt_name = modelStorageVolumeName, vmt_path = modelCachePath, vmt_readOnly = False\<rparr>"

definition buildHFInitContainer :: "environ \<Rightarrow> LLMModel \<Rightarrow> Container" where
  "buildHFInitContainer e model =
     (let m = spec_model (lm_spec model);
          args = [mod_name m, ''--local-dir'', modelCachePath] @
            (if mod_revision m \<noteq> [] then [''--revision'', mod_revision m] else [])
      in (newContainer ''model-downloader'' (modelDownloaderImage e))
           \<lparr>ctr_args := args, ctr_mounts := [cacheMount],
            ctr_env := (if mod_authSecretName m \<noteq> []
              then [\<lparr>env_name = ''HF_TOKEN'', env_value = [],
                 env_secretKeyRef = Some (mod_authSecretName m, ''HF_TOKEN'')\<rparr>] else [])\<rparr>)"

definition buildHFStorageSpec ::
  "quantity_parser \<Rightarrow> environ \<Rightarrow> LLMModel \<Rightarrow> string \<Rightarrow> gerror + StorageResult" where
  "buildHFStorageSpec parse e model defaultStorageClassName =
     (let m = spec_model (lm_spec model); storage = mod_storage m;
          init = (if mod_preload m = None \<or> mod_preload m = Some True
            then Some (buildHFInitContainer e model) else None);
          result = (\<lambda>pvc source. \<lparr>str_PVC = pvc, str_InitContainer = init,
            str_Volumes = [\<lparr>vol_name = modelStorageVolumeName, vol_source = source\<rparr>],
            str_VolumeMounts = [cacheMount], str_ModelPath = modelCachePath\<rparr>)
      in if sto_type storage = StorageTypeEmptyDir
         then (case parseStorageSize parse (sto_size storage) of
             Inl err \<Rightarrow> Inl (wrapErr ''parsing storage size'' err)
           | Inr sizeLimit \<Rightarrow> Inr (result None (EmptyDirVolume [] (Some sizeLimit))))
         else let pvcName = lm_name model @ ''-model-storage''
           in (case buildPVC parse pvcName storage defaultStorageClassName of
             Inl err \<Rightarrow> Inl (wrapErr ''building PVC'' err)
           | Inr pvc \<Rightarrow> Inr (result (Some pvc) (ClaimVolume pvcName))))"

definition buildOCIStorageSpec :: "LLMModel \<Rightarrow> gerror + StorageResult" where
  "buildOCIStorageSpec model =
     Inr \<lparr>str_PVC = None,
       str_InitContainer = Some ((newContainer ''model-loader'' (mod_image (spec_model (lm_spec model))))
         \<lparr>ctr_command := [''cp'', ''-r'', ''/models/.'', ''/shared-models/''],
          ctr_mounts := [\<lparr>vmt_name = modelStorageVolumeName, vmt_path = ''/shared-models'',
            vmt_readOnly = False\<rparr>]\<rparr>),
       str_Volumes = [\<lparr>vol_name = modelStorageVolumeName, vol_source = EmptyDirVolume [] None\<rparr>],
       str_VolumeMounts = [cacheMount], str_ModelPath = modelCachePath\<rparr>"

definition BuildStorageSpec ::
  "quantity_parser \<Rightarrow> environ \<Rightarrow> LLMModel \<Rightarrow> string \<Rightarrow> gerror + StorageResult" where
  "BuildStorageSpec parse e model defaultStorageClassName =
     (if mod_source (spec_model (lm_spec model)) = ModelSourceOCI then buildOCIStorageSpec model
      else buildHFStorageSpec parse e model defaultStorageClassName)"

lemmas storage_defs = BuildStorageSpec_def buildOCIStorageSpec_def buildHFStorageSpec_def
  buildHFInitContainer_def newContainer_def cacheMount_def

text \<open>Shape of the result, and when there is none.\<close>

lemma storage_result_shape:
  assumes "BuildStorageSpec parse e model sc = Inr st"
  shows "\<exists>src. str_Volumes st = [\<lparr>vol_name = modelStorageVolumeName, vol_source = src\<rparr>]"
    and "str_VolumeMounts st = [cacheMount]" and "str_ModelPath st = modelCachePath"
    and "\<And>c. str_InitContainer st = Some c \<Longrightarrow> ctr_ports c = [] \<and>
      ctr_name c \<in> {''model-downloader'', ''model-loader''} \<and>
      (\<exists>p. ctr_mounts c = [\<lparr>vmt_name = modelStorageVolumeName, vmt_path = p, vmt_readOnly = False\<rparr>])"
  using assms by (auto simp: storage_defs Let_def split: if_splits sum.splits)

lemma storage_claim:
  assumes "BuildStorageSpec parse e model sc = Inr st"
  shows "(str_PVC st = None \<longleftrightarrow> mod_source (spec_model (lm_spec model)) = ModelSourceOCI \<or>
      sto_type (mod_storage (spec_model (lm_spec model))) = StorageTypeEmptyDir) \<and>
    (\<forall>pvc. str_PVC st = Some pvc \<longrightarrow> str_Volumes st =
      [\<lparr>vol_name = modelStorageVolumeName, vol_source = ClaimVolume (om_name (pvc_meta pvc))\<rparr>])"
  using assms by (auto simp: storage_defs Let_def buildPVC_def newMeta_def split: if_splits sum.splits)

lemma storage_fails_iff:
  "(\<exists>err. BuildStorageSpec parse e model sc = Inl err) \<longleftrightarrow>
     mod_source (spec_model (lm_spec model)) \<noteq> ModelSourceOCI \<and>
     sto_size (mod_storage (spec_model (lm_spec model))) \<noteq> [] \<and>
     (\<exists>err. parse (sto_size (mod_storage (spec_model (lm_spec model)))) = Inl err)"
  by (auto simp: BuildStorageSpec_def buildOCIStorageSpec_def buildHFStorageSpec_def Let_def buildPVC_def
      parseStorageSize_def split: sum.splits)

end
