(* ===== verification/ModelService.thy ===== *)
theory ModelService
  imports Storage Json
begin

text \<open>
  \<open>operator/internal/controller/reconcilers/modelservice.go\<close> and \<open>networkpolicy.go\<close>: the
  Deployment, Service, ServiceAccount and PodMonitor that serve a model, and the NetworkPolicy
  around its pods.
\<close>

definition modelDownloaderUserGID :: int where "modelDownloaderUserGID = 65532"
definition nvidiaGPUKey :: string where "nvidiaGPUKey = ''nvidia.com/gpu''"
definition shmVolumeName :: string where "shmVolumeName = ''shm''"
definition shmMountPath :: string where "shmMountPath = ''/dev/shm''"

record ModelServiceResources =
  ms_Deployment :: Deployment
  ms_Service :: Service
  ms_ServiceAccount :: ServiceAccount
  ms_PodMonitor :: "json option"

section \<open>The pod\<close>

definition buildShmVolume :: "LLMModel \<Rightarrow> Volume" where
  "buildShmVolume model =
     \<lparr>vol_name = shmVolumeName,
      vol_source = EmptyDirVolume ''Memory'' (map_of (res_limits (spec_resources (lm_spec model))) ''memory'')\<rparr>"

definition buildVLLMArgs :: "LLMModel \<Rightarrow> StorageResult \<Rightarrow> string list" where
  "buildVLLMArgs model storage =
     (let serving = spec_serving (lm_spec model);
          tensorParallelism = (case srv_tensorParallelism serving of
            None \<Rightarrow> gpu_count (res_gpu (spec_resources (lm_spec model))) | Some n \<Rightarrow> n);
          dataParallelism = (case srv_dataParallelism serving of None \<Rightarrow> 1 | Some n \<Rightarrow> n)
      in [''--model'', str_ModelPath storage,
          ''--served-model-name'', mod_name (spec_model (lm_spec model)),
          ''--tensor-parallel-size'', itoaInt tensorParallelism,
          ''--data-parallel-size'', itoaInt dataParallelism]
         @ srv_vllmArgs serving @ adv_extraArgs (adv_vllm (spec_advanced (lm_spec model))))"

definition buildResourceLimits :: "LLMModel \<Rightarrow> quantity gomap" where
  "buildResourceLimits model =
     (let limits = res_limits (spec_resources (lm_spec model));
          count = gpu_count (res_gpu (spec_resources (lm_spec model)))
      in if count > 0 then AList.update nvidiaGPUKey (itoaInt count) limits else limits)"

definition tolerationsGPUTaint :: "Toleration list \<Rightarrow> bool" where
  "tolerationsGPUTaint ts =
     list_ex (\<lambda>t. tol_key t = nvidiaGPUKey \<or> (tol_key t = [] \<and> tol_operator t = ''Exists'')) ts"

definition buildTolerations :: "LLMModel \<Rightarrow> Toleration list" where
  "buildTolerations model =
     (let tolerations = adv_tolerations (adv_vllm (spec_advanced (lm_spec model)))
      in if gpu_count (res_gpu (spec_resources (lm_spec model))) > 0 \<and> \<not> tolerationsGPUTaint tolerations
         then tolerations @ [\<lparr>tol_key = nvidiaGPUKey, tol_operator = ''Exists'', tol_value = [],
           tol_effect = ''NoSchedule''\<rparr>]
         else tolerations)"

definition buildVLLMContainer :: "LLMModel \<Rightarrow> StorageResult \<Rightarrow> OperatorConfig \<Rightarrow> Container" where
  "buildVLLMContainer model storage cfg =
     (let serving = spec_serving (lm_spec model);
          img = (if srv_image serving \<noteq> [] then srv_image serving else cfg_DefaultServingImage cfg);
          command = (if srv_command serving \<noteq> [] then srv_command serving
            else [''python3'', ''-m'', ''vllm.entrypoints.openai.api_server'']);
          http = PortName ''http''
      in \<lparr>ctr_name = ''vllm'', ctr_image = img, ctr_command = command,
          ctr_args = buildVLLMArgs model storage,
          ctr_ports = [\<lparr>cpt_name = ''http'', cpt_port = 8000, cpt_protocol = ''TCP''\<rparr>],
          ctr_limits = buildResourceLimits model,
          ctr_requests = res_requests (spec_resources (lm_spec model)),
          ctr_env = adv_extraEnv (adv_vllm (spec_advanced (lm_spec model))),
          ctr_mounts = str_VolumeMounts storage @
            [\<lparr>vmt_name = shmVolumeName, vmt_path = shmMountPath, vmt_readOnly = False\<rparr>],
          ctr_startup = Some \<lparr>prb_handler = HTTPGetProbe ''/v1/models'' http,
            prb_initialDelaySeconds = 15, prb_periodSeconds = 30, prb_failureThreshold = 120\<rparr>,
          ctr_liveness = Some \<lparr>prb_handler = HTTPGetProbe ''/health'' http,
            prb_initialDelaySeconds = 0, prb_periodSeconds = 10, prb_failureThreshold = 3\<rparr>,
          ctr_readiness = Some \<lparr>prb_handler = HTTPGetProbe ''/v1/models'' http,
            prb_initialDelaySeconds = 0, prb_periodSeconds = 5, prb_failureThreshold = 3\<rparr>\<rparr>)"

definition buildDeployment ::
  "LLMModel \<Rightarrow> StorageResult \<Rightarrow> OperatorConfig \<Rightarrow> string gomap \<Rightarrow> string \<Rightarrow> gerror + Deployment" where
  "buildDeployment model storage cfg labels saName =
     (let serving = spec_serving (lm_spec model);
          vllm = adv_vllm (spec_advanced (lm_spec model));
          replicas = (case srv_replicas serving of None \<Rightarrow> 1 | Some n \<Rightarrow> n);
          podSpec = \<lparr>pod_serviceAccount = saName,
            pod_initContainers = (case str_InitContainer storage of None \<Rightarrow> [] | Some c \<Rightarrow> [c]),
            pod_containers = [buildVLLMContainer model storage cfg],
            pod_volumes = str_Volumes storage @ [buildShmVolume model],
            pod_tolerations = buildTolerations model, pod_nodeSelector = adv_nodeSelector vllm,
            pod_affinity = adv_affinity vllm,
            pod_fsGroup = Some (modelDownloaderUserGID, ''OnRootMismatch'')\<rparr>;
          strategyType = (if srv_updateStrategy serving = UpdateStrategyRollingUpdate
            then ''RollingUpdate'' else ''Recreate'')
      in Inr \<lparr>dep_meta = newMeta (lm_name model) [] labels,
           dep_spec = \<lparr>dps_replicas = Some replicas, dps_strategy = strategyType,
             dps_selector = [(instanceLabel, lm_name model)], dps_labels = labels, dps_pod = podSpec\<rparr>,
           dep_readyReplicas = 0\<rparr>)"

section \<open>The objects around it\<close>

definition buildService :: "LLMModel \<Rightarrow> string gomap \<Rightarrow> Service" where
  "buildService model labels =
     \<lparr>svc_meta = newMeta (lm_name model) [] labels, svc_type = ''ClusterIP'',
      svc_selector = [(instanceLabel, lm_name model)],
      svc_ports = [\<lparr>spt_name = ''http'', spt_port = 8000, spt_targetPort = PortName ''http'',
        spt_protocol = ''TCP''\<rparr>], svc_clusterIP = []\<rparr>"

definition buildServiceAccount :: "string \<Rightarrow> string gomap \<Rightarrow> ServiceAccount" where
  "buildServiceAccount saName labels = \<lparr>sac_meta = newMeta saName [] labels\<rparr>"

definition buildPodMonitor :: "LLMModel \<Rightarrow> string gomap \<Rightarrow> json option" where
  "buildPodMonitor model labels =
     (if mon_enabled (srv_monitoring (spec_serving (lm_spec model))) \<noteq> Some True then None
      else Some (resourceTree ''monitoring.coreos.com/v1'' ''PodMonitor''
        (JObj [(''name'', JStr (lm_name model)), (''labels'', labelsToInterface labels)])
        (JObj [(''selector'', JObj [(''matchLabels'', JObj [(instanceLabel, JStr (lm_name model))])]),
           (''podMetricsEndpoints'', JArr [JObj [(''port'', JStr ''http''), (''path'', JStr ''/metrics''),
              (''interval'', JStr ''30s'')]])])))"

definition BuildModelServiceResources ::
  "LLMModel \<Rightarrow> StorageResult \<Rightarrow> OperatorConfig \<Rightarrow> gerror + ModelServiceResources" where
  "BuildModelServiceResources model storage cfg =
     (let labels = StandardLabels model; saName = lm_name model @ ''-sa''
      in case buildDeployment model storage cfg labels saName of
           Inl e \<Rightarrow> Inl (wrapErr ''building deployment'' e)
         | Inr deployment \<Rightarrow>
             Inr \<lparr>ms_Deployment = deployment, ms_Service = buildService model labels,
               ms_ServiceAccount = buildServiceAccount saName labels,
               ms_PodMonitor = buildPodMonitor model labels\<rparr>)"

section \<open>Network policy\<close>

definition uniqueStrings :: "string list \<Rightarrow> string list" where
  "uniqueStrings vs =
     (let step = (\<lambda>v (seen, result). if v \<noteq> [] \<and> v \<notin> set seen then (v # seen, result @ [v]) else (seen, result))
      in snd (fold step vs ([], [])))"

definition namespacePeer :: "string \<Rightarrow> NetworkPolicyPeer" where
  "namespacePeer ns = \<lparr>npp_namespaceSelector = Some [(''kubernetes.io/metadata.name'', ns)],
     npp_podSelector = None\<rparr>"

definition buildNetworkPolicyIngressRules :: "OperatorConfig \<Rightarrow> IngressRule list" where
  "buildNetworkPolicyIngressRules cfg =
     map (\<lambda>ns. \<lparr>npr_from = [namespacePeer ns], npr_ports = []\<rparr>)
       (uniqueStrings [cfg_ExternalGatewayNS cfg, cfg_InternalGatewayNS cfg])
     @ [\<lparr>npr_from = [\<lparr>npp_namespaceSelector = None, npp_podSelector = Some [(nameLabel, ''epp'')]\<rparr>],
         npr_ports = []\<rparr>]
     @ [\<lparr>npr_from = [namespacePeer ''monitoring''], npr_ports = [(''TCP'', 8000)]\<rparr>]"

definition BuildNetworkPolicy :: "LLMModel \<Rightarrow> OperatorConfig \<Rightarrow> NetworkPolicy" where
  "BuildNetworkPolicy model cfg =
     \<lparr>npo_meta = newMeta (lm_name model @ ''-deny-direct'') (lm_namespace model) (StandardLabels model),
      npo_podSelector = [(instanceLabel, lm_name model), (modelLabel, lm_name model)],
      npo_policyTypes = [''Ingress''], npo_ingress = buildNetworkPolicyIngressRules cfg\<rparr>"

section \<open>Lemmas\<close>

lemma uniqueStrings_fold:
  "fold (\<lambda>v (seen, result). if v \<noteq> [] \<and> v \<notin> set seen then (v # seen, result @ [v]) else (seen, result))
     vs (rev r, r) = (\<lambda>r'. (rev r', r')) (fold (\<lambda>v r. if v \<noteq> [] \<and> v \<notin> set r then r @ [v] else r) vs r)"
proof (induction vs arbitrary: r)
  case (Cons v vs)
  show ?case using Cons.IH [of "r @ [v]"] Cons.IH [of r] by simp
qed simp

text \<open>The strings kept are the non-empty ones, each at its first occurrence.\<close>

lemma first_occurrences:
  "fold (\<lambda>v r. if v \<noteq> [] \<and> v \<notin> set r then r @ [v] else r) vs r =
     r @ rev (remdups (rev (filter (\<lambda>v. v \<noteq> [] \<and> v \<notin> set r) vs)))"
proof (induction vs arbitrary: r)
  case (Cons v vs)
  have *: "rev (remdups (rev (v # filter (\<lambda>u. u \<noteq> [] \<and> u \<notin> set r) vs))) =
      v # rev (remdups (rev (filter (\<lambda>u. u \<noteq> [] \<and> u \<notin> set (r @ [v])) vs)))"
    if "v \<noteq> []" "v \<notin> set r"
  proof -
    have "remdups (xs @ [v]) = remdups (filter (\<lambda>u. u \<noteq> v) xs) @ [v]" for xs
      by (induction xs) auto
    then show ?thesis by (simp add: rev_filter filter_filter conj_commute conj_left_commute)
  qed
  show ?case using Cons.IH [of "r @ [v]"] Cons.IH [of r] * by auto
qed simp

lemma uniqueStrings_eq: "uniqueStrings vs = rev (remdups (rev (filter (\<lambda>v. v \<noteq> []) vs)))"
  using uniqueStrings_fold [of vs "[]"] first_occurrences [of vs "[]"]
  by (simp add: uniqueStrings_def Let_def case_prod_unfold)

lemma buildTolerations_spec:
  "prefix (adv_tolerations (adv_vllm (spec_advanced (lm_spec model)))) (buildTolerations model) \<and>
   (gpu_count (res_gpu (spec_resources (lm_spec model))) > 0 \<longrightarrow> tolerationsGPUTaint (buildTolerations model))"
  by (auto simp: buildTolerations_def Let_def tolerationsGPUTaint_def)

lemma buildResourceLimits_spec:
  "map_of (buildResourceLimits model) k =
     (if k = nvidiaGPUKey \<and> gpu_count (res_gpu (spec_resources (lm_spec model))) > 0
      then Some (itoaInt (gpu_count (res_gpu (spec_resources (lm_spec model)))))
      else map_of (res_limits (spec_resources (lm_spec model))) k)"
  by (simp add: buildResourceLimits_def Let_def)

end
