(* ===== verification/InferencePool.thy ===== *)
theory InferencePool
  imports ModelService
begin

text \<open>
  \<open>operator/internal/controller/reconcilers/inferencepool.go\<close>: the InferencePool of a model and the
  endpoint picker (EPP) that schedules its requests. The conversion of JSON to YAML is a function
  of \<open>sigs.k8s.io/yaml\<close> and an argument.
\<close>

definition eppConfigMountDir :: string where "eppConfigMountDir = ''/etc/epp''"
definition eppConfigFileName :: string where "eppConfigFileName = ''epp-config.yaml''"
definition eppConfigVolume :: string where "eppConfigVolume = ''epp-config''"

definition unlines :: "string list \<Rightarrow> string" where
  "unlines ls = concat (map (\<lambda>l. l @ [char_of (10 :: nat)]) ls)"

definition eppDefaultConfig :: string where
  "eppDefaultConfig = unlines
     [''apiVersion: inference.networking.x-k8s.io/v1alpha1'', ''kind: EndpointPickerConfig'', ''plugins:'',
      ''- type: max-score-picker'', ''- type: single-profile-handler'', ''schedulingProfiles:'',
      ''- name: default'', ''  plugins:'', ''  - pluginRef: max-score-picker'']"

record InferencePoolResources =
  ip_InferencePool :: json
  ip_EPPConfigMap :: configmap
  ip_EPPDeployment :: Deployment
  ip_EPPService :: Service
  ip_EPPServiceAccount :: ServiceAccount
  ip_EPPRole :: Role
  ip_EPPRoleBinding :: RoleBinding

definition eppConfigMapName :: "string \<Rightarrow> string" where
  "eppConfigMapName eppName = eppName @ ''-config''"

definition renderEPPConfig :: "(string \<Rightarrow> gerror + string) \<Rightarrow> string option \<Rightarrow> gerror + string" where
  "renderEPPConfig jsonToYAML override =
     (if override = None \<or> override = Some [] then Inr eppDefaultConfig
      else case jsonToYAML (the override) of
        Inl e \<Rightarrow> Inl (wrapErr ''converting schedulerConfig JSON to YAML'' e)
      | Inr y \<Rightarrow> Inr y)"

definition buildEPPConfigMap ::
  "(string \<Rightarrow> gerror + string) \<Rightarrow> LLMModel \<Rightarrow> string \<Rightarrow> string gomap \<Rightarrow> gerror + configmap" where
  "buildEPPConfigMap jsonToYAML model eppName labels =
     (case renderEPPConfig jsonToYAML
         (ipa_schedulerConfig (adv_inferencePool (spec_advanced (lm_spec model)))) of
        Inl e \<Rightarrow> Inl e
      | Inr configYAML \<Rightarrow> Inr \<lparr>cm_meta = newMeta (eppConfigMapName eppName) [] labels,
          cm_data = [(eppConfigFileName, configYAML)]\<rparr>)"

definition poolSelector :: "LLMModel \<Rightarrow> string gomap" where
  "poolSelector model = [(instanceLabel, lm_name model), (nameLabel, ''llmmodel'')]"

definition buildInferencePool :: "LLMModel \<Rightarrow> string gomap \<Rightarrow> json" where
  "buildInferencePool model labels =
     resourceTree ''inference.networking.k8s.io/v1'' ''InferencePool''
       (JObj [(''name'', JStr (lm_name model)), (''labels'', labelsToInterface labels)])
       (JObj [(''targetPorts'', JArr [JObj [(''number'', JInt 8000)]]),
          (''selector'', JObj [(''matchLabels'', labelsToInterface (poolSelector model))]),
          (''endpointPickerRef'', JObj [(''name'', JStr (lm_name model @ ''-epp'')), (''kind'', JStr ''Service''),
             (''port'', JObj [(''number'', JInt 9002)])])])"

definition buildEPPDeployment ::
  "LLMModel \<Rightarrow> string \<Rightarrow> string gomap \<Rightarrow> OperatorConfig \<Rightarrow> Deployment" where
  "buildEPPDeployment model eppName labels cfg =
     (let eppLabels = AList.update nameLabel ''epp'' labels;
          probe = \<lparr>prb_handler = GRPCProbe 9003 ''envoy.service.ext_proc.v3.ExternalProcessor'',
            prb_initialDelaySeconds = 5, prb_periodSeconds = 10, prb_failureThreshold = 0\<rparr>;
          container = \<lparr>ctr_name = ''epp'', ctr_image = cfg_DefaultEPPImage cfg, ctr_command = [],
            ctr_args = [''--pool-name'', lm_name model, ''--pool-namespace'', lm_namespace model,
              ''--grpc-port'', ''9002'', ''--grpc-health-port'', ''9003'', ''--metrics-port'', ''9090'',
              ''--config-file'', eppConfigMountDir @ ''/'' @ eppConfigFileName,
              ''--zap-encoder'', ''json'', ''--v'', ''4''],
            ctr_ports = [\<lparr>cpt_name = ''grpc'', cpt_port = 9002, cpt_protocol = ''TCP''\<rparr>,
              \<lparr>cpt_name = ''grpc-health'', cpt_port = 9003, cpt_protocol = ''TCP''\<rparr>,
              \<lparr>cpt_name = ''metrics'', cpt_port = 9090, cpt_protocol = ''TCP''\<rparr>],
            ctr_limits = [(''cpu'', ''500m''), (''memory'', ''512Mi'')],
            ctr_requests = [(''cpu'', ''100m''), (''memory'', ''256Mi'')], ctr_env = [],
            ctr_mounts = [\<lparr>vmt_name = eppConfigVolume, vmt_path = eppConfigMountDir, vmt_readOnly = True\<rparr>],
            ctr_startup = None, ctr_liveness = Some probe, ctr_readiness = Some probe\<rparr>
      in \<lparr>dep_meta = newMeta eppName [] eppLabels,
          dep_spec = \<lparr>dps_replicas = Some 1, dps_strategy = [],
            dps_selector = [(instanceLabel, lm_name model), (nameLabel, ''epp'')], dps_labels = eppLabels,
            dps_pod = \<lparr>pod_serviceAccount = eppName, pod_initContainers = [], pod_containers = [container],
              pod_volumes = [\<lparr>vol_name = eppConfigVolume,
                vol_source = ConfigMapVolume (eppConfigMapName eppName)\<rparr>],
              pod_tolerations = [], pod_nodeSelector = [], pod_affinity = None, pod_fsGroup = None\<rparr>\<rparr>,
          dep_readyReplicas = 0\<rparr>)"

definition buildEPPService :: "LLMModel \<Rightarrow> string \<Rightarrow> string gomap \<Rightarrow> Service" where
  "buildEPPService model eppName labels =
     \<lparr>svc_meta = newMeta eppName [] labels, svc_type = ''ClusterIP'',
      svc_selector = [(instanceLabel, lm_name model), (nameLabel, ''epp'')],
      svc_ports = [\<lparr>spt_name = ''grpc'', spt_port = 9002, spt_targetPort = PortName ''grpc'',
          spt_protocol = ''TCP''\<rparr>,
        \<lparr>spt_name = ''metrics'', spt_port = 9090, spt_targetPort = PortName ''metrics'',
          spt_protocol = ''TCP''\<rparr>], svc_clusterIP = []\<rparr>"

definition buildEPPServiceAccount :: "string \<Rightarrow> string gomap \<Rightarrow> ServiceAccount" where
  "buildEPPServiceAccount eppName labels = \<lparr>sac_meta = newMeta eppName [] labels\<rparr>"

definition readVerbs :: "string list" where
  "readVerbs = [''get'', ''list'', ''watch'']"

definition buildEPPRole :: "string \<Rightarrow> string gomap \<Rightarrow> Role" where
  "buildEPPRole eppName labels =
     \<lparr>rol_meta = newMeta eppName [] labels,
      rol_rules =
        [\<lparr>plr_apiGroups = [''inference.networking.k8s.io''], plr_resources = [''inferencepools''],
          plr_verbs = readVerbs\<rparr>,
         \<lparr>plr_apiGroups = [''inference.networking.x-k8s.io''],
          plr_resources = [''inferenceobjectives'', ''inferencemodelrewrites'', ''inferencepools'',
            ''inferencepoolimports''], plr_verbs = readVerbs\<rparr>,
         \<lparr>plr_apiGroups = [[]], plr_resources = [''pods''], plr_verbs = readVerbs\<rparr>,
         \<lparr>plr_apiGroups = [[]], plr_resources = [''endpoints'', ''services''], plr_verbs = readVerbs\<rparr>]\<rparr>"

definition buildEPPRoleBinding :: "string \<Rightarrow> string gomap \<Rightarrow> RoleBinding" where
  "buildEPPRoleBinding eppName labels =
     \<lparr>rlb_meta = newMeta eppName [] labels,
      rlb_roleRef = (''rbac.authorization.k8s.io'', ''Role'', eppName),
      rlb_subjects = [(''ServiceAccount'', eppName)]\<rparr>"

definition BuildInferencePoolResources ::
  "(string \<Rightarrow> gerror + string) \<Rightarrow> LLMModel \<Rightarrow> OperatorConfig \<Rightarrow> gerror + InferencePoolResources" where
  "BuildInferencePoolResources jsonToYAML model cfg =
     (let labels = StandardLabels model; eppName = lm_name model @ ''-epp''
      in case buildEPPConfigMap jsonToYAML model eppName labels of
           Inl e \<Rightarrow> Inl (wrapErr ''building EPP ConfigMap'' e)
         | Inr eppConfigMap \<Rightarrow>
             Inr \<lparr>ip_InferencePool = buildInferencePool model labels, ip_EPPConfigMap = eppConfigMap,
               ip_EPPDeployment = buildEPPDeployment model eppName labels cfg,
               ip_EPPService = buildEPPService model eppName labels,
               ip_EPPServiceAccount = buildEPPServiceAccount eppName labels,
               ip_EPPRole = buildEPPRole eppName labels,
               ip_EPPRoleBinding = buildEPPRoleBinding eppName labels\<rparr>)"

section \<open>Pods and selectors\<close>

lemmas workload_defs = BuildModelServiceResources_def buildDeployment_def buildVLLMContainer_def
  buildShmVolume_def buildService_def buildServiceAccount_def Let_def

lemmas pool_defs = BuildInferencePoolResources_def buildEPPDeployment_def buildEPPService_def
  buildEPPConfigMap_def Let_def

lemma label_keys_distinct [simp]:
  "instanceLabel \<noteq> nameLabel" "nameLabel \<noteq> instanceLabel" "modelLabel \<noteq> nameLabel"
  "nameLabel \<noteq> modelLabel" "managedByLabel \<noteq> nameLabel" "instanceLabel \<noteq> managedByLabel"
  "managedByLabel \<noteq> instanceLabel" "modelLabel \<noteq> managedByLabel" "modelLabel \<noteq> instanceLabel"
  "instanceLabel \<noteq> modelLabel" "managedByLabel \<noteq> modelLabel" "nameLabel \<noteq> managedByLabel"
  by (simp_all add: label_defs)

lemma StandardLabels_lookup [simp]:
  "map_of (StandardLabels m) instanceLabel = Some (lm_name m)"
  "map_of (StandardLabels m) nameLabel = Some ''llmmodel''"
  "map_of (StandardLabels m) modelLabel = Some (lm_name m)"
  by (simp_all add: StandardLabels_def)

text \<open>The parts of a Deployment the controller and the selectors look at.\<close>

lemma serving_resources:
  assumes "BuildModelServiceResources model st cfg = Inr ms"
  shows "dps_labels (dep_spec (ms_Deployment ms)) = StandardLabels model"
    and "dps_selector (dep_spec (ms_Deployment ms)) = [(instanceLabel, lm_name model)]"
    and "om_name (dep_meta (ms_Deployment ms)) = lm_name model"
    and "svc_selector (ms_Service ms) = [(instanceLabel, lm_name model)]"
    and "om_name (svc_meta (ms_Service ms)) = lm_name model"
  using assms by (auto simp: workload_defs newMeta_def)

lemma epp_resources:
  assumes "BuildInferencePoolResources y model cfg = Inr ip"
  shows "dps_labels (dep_spec (ip_EPPDeployment ip)) = AList.update nameLabel ''epp'' (StandardLabels model)"
    and "dps_selector (dep_spec (ip_EPPDeployment ip)) = [(instanceLabel, lm_name model), (nameLabel, ''epp'')]"
    and "om_name (dep_meta (ip_EPPDeployment ip)) = lm_name model @ ''-epp''"
    and "om_name (svc_meta (ip_EPPService ip)) = lm_name model @ ''-epp''"
    and "ip_InferencePool ip = buildInferencePool model (StandardLabels model)"
  using assms by (auto simp: pool_defs newMeta_def split: sum.splits)

lemma serving_pod_wf:
  assumes "BuildStorageSpec parse e model sc = Inr st" and "BuildModelServiceResources model st cfg = Inr ms"
  shows "wf_deployment (ms_Deployment ms) \<and> servesPorts (ms_Service ms) (dps_pod (dep_spec (ms_Deployment ms)))"
proof -
  obtain src where v: "str_Volumes st = [\<lparr>vol_name = modelStorageVolumeName, vol_source = src\<rparr>]"
    using storage_result_shape(1) [OF assms(1)] by blast
  have m: "str_VolumeMounts st = [cacheMount]" by (rule storage_result_shape(2) [OF assms(1)])
  have pod: "dps_pod (dep_spec (ms_Deployment ms)) = \<lparr>pod_serviceAccount = lm_name model @ ''-sa'',
      pod_initContainers = (case str_InitContainer st of None \<Rightarrow> [] | Some c \<Rightarrow> [c]),
      pod_containers = [buildVLLMContainer model st cfg],
      pod_volumes = str_Volumes st @ [buildShmVolume model],
      pod_tolerations = buildTolerations model,
      pod_nodeSelector = adv_nodeSelector (adv_vllm (spec_advanced (lm_spec model))),
      pod_affinity = adv_affinity (adv_vllm (spec_advanced (lm_spec model))),
      pod_fsGroup = Some (modelDownloaderUserGID, ''OnRootMismatch'')\<rparr>"
    using assms(2) by (auto simp: workload_defs)
  have vllm: "ctr_name (buildVLLMContainer model st cfg) = ''vllm''"
    "ctr_mounts (buildVLLMContainer model st cfg) =
       [cacheMount, \<lparr>vmt_name = shmVolumeName, vmt_path = shmMountPath, vmt_readOnly = False\<rparr>]"
    "ctr_ports (buildVLLMContainer model st cfg) =
       [\<lparr>cpt_name = ''http'', cpt_port = 8000, cpt_protocol = ''TCP''\<rparr>]"
    using m by (simp_all add: buildVLLMContainer_def Let_def)
  have svc: "svc_ports (ms_Service ms) = [\<lparr>spt_name = ''http'', spt_port = 8000,
      spt_targetPort = PortName ''http'', spt_protocol = ''TCP''\<rparr>]"
    using assms(2) by (auto simp: workload_defs)
  have names: "modelStorageVolumeName \<noteq> shmVolumeName" "modelCachePath \<noteq> shmMountPath"
    by (simp_all add: modelStorageVolumeName_def shmVolumeName_def modelCachePath_def shmMountPath_def)
  have init: "wf_container [modelStorageVolumeName, shmVolumeName] c \<and> ctr_name c \<noteq> ''vllm''"
    if "str_InitContainer st = Some c" for c
    using storage_result_shape(4) [OF assms(1) that] by (auto simp: wf_container_def)
  show ?thesis
    using init names serving_resources(1,2) [OF assms(2)]
    by (auto simp: wf_defs pod vllm svc v cacheMount_def buildShmVolume_def split: option.splits)
qed

lemma epp_pod_wf:
  assumes "BuildInferencePoolResources y model cfg = Inr ip"
  shows "wf_deployment (ip_EPPDeployment ip) \<and>
    servesPorts (ip_EPPService ip) (dps_pod (dep_spec (ip_EPPDeployment ip)))"
  using assms by (auto simp: pool_defs wf_defs split: sum.splits)

section \<open>Properties\<close>

text \<open>C24: every Deployment the operator builds is well formed, for the model and for its endpoint picker
  alike: each mount of each container names a volume of the pod, names and paths do not clash,
  the selector matches the pod labels, every named target port of the Service exists in the pod,
  and the claimed volume is the PVC that is created.\<close>

theorem built_workloads_well_formed:
  assumes "BuildStorageSpec parse e model sc = Inr st"
    and "BuildModelServiceResources model st cfg = Inr ms"
    and "BuildInferencePoolResources y model cfg = Inr ip"
  shows "wf_deployment (ms_Deployment ms) \<and> wf_deployment (ip_EPPDeployment ip) \<and>
    servesPorts (ms_Service ms) (dps_pod (dep_spec (ms_Deployment ms))) \<and>
    servesPorts (ip_EPPService ip) (dps_pod (dep_spec (ip_EPPDeployment ip))) \<and>
    (\<forall>pvc. str_PVC st = Some pvc \<longrightarrow> ClaimVolume (om_name (pvc_meta pvc)) \<in>
       vol_source ` set (pod_volumes (dps_pod (dep_spec (ms_Deployment ms)))))"
proof -
  have "pod_volumes (dps_pod (dep_spec (ms_Deployment ms))) = str_Volumes st @ [buildShmVolume model]"
    using assms(2) by (auto simp: workload_defs)
  then show ?thesis
    using serving_pod_wf [OF assms(1,2)] epp_pod_wf [OF assms(3)] storage_claim [OF assms(1)] by auto
qed

definition noYaml :: "string \<Rightarrow> gerror + string" where
  "noYaml s = Inl (errorf ''no schedulerConfig expected'')"

definition exampleServed :: LLMModel where
  "exampleServed = sampleModel ''m'' ''llm'' \<lparr>acc_public = Some True, acc_groups = []\<rparr>"

lemma exampleServed_builds:
  "\<exists>st ms ip. BuildStorageSpec Inr [] exampleServed [] = Inr st \<and>
     BuildModelServiceResources exampleServed st sampleConfig = Inr ms \<and>
     BuildInferencePoolResources noYaml exampleServed sampleConfig = Inr ip \<and> str_PVC st \<noteq> None"
proof -
  have "ipa_schedulerConfig (adv_inferencePool (spec_advanced (lm_spec exampleServed))) = None"
    by code_simp
  then have "\<exists>ip. BuildInferencePoolResources noYaml exampleServed sampleConfig = Inr ip"
    by (simp add: pool_defs renderEPPConfig_def)
  moreover have "map_sum (\<lambda>_. ()) (\<lambda>st. str_PVC st = None) (BuildStorageSpec Inr [] exampleServed []) = Inr False"
    by code_simp
  then have "\<exists>st. BuildStorageSpec Inr [] exampleServed [] = Inr st \<and> str_PVC st \<noteq> None"
    by (cases "BuildStorageSpec Inr [] exampleServed []") auto
  moreover have "\<exists>ms. BuildModelServiceResources m st c = Inr ms" for m st c
    by (simp add: workload_defs)
  ultimately show ?thesis by blast
qed

theorem built_workloads_well_formed_witness:
  "\<exists>st ms. BuildStorageSpec Inr [] exampleServed [] = Inr st \<and>
     BuildModelServiceResources exampleServed st sampleConfig = Inr ms \<and>
     wf_deployment (ms_Deployment ms) \<and> str_PVC st \<noteq> None"
  using exampleServed_builds built_workloads_well_formed by metis

text \<open>The selector of a model's InferencePool matches the pods that serve this very model, and no
  endpoint picker of any model; the selectors of the endpoint picker match only its own pods.\<close>

theorem pool_selects_serving_pods_only:
  assumes "BuildModelServiceResources m' st cfg = Inr ms"
    and "BuildInferencePoolResources y m cfg = Inr ip" and "BuildInferencePoolResources y' m' cfg = Inr ip'"
  shows "fieldOf (fieldOf (specOf (ip_InferencePool ip)) ''selector'') ''matchLabels'' =
      Some (labelsToInterface (poolSelector m)) \<and>
    (selects (poolSelector m) (dps_labels (dep_spec (ms_Deployment ms))) \<longleftrightarrow> lm_name m' = lm_name m) \<and>
    \<not> selects (poolSelector m) (dps_labels (dep_spec (ip_EPPDeployment ip'))) \<and>
    \<not> selects (svc_selector (ip_EPPService ip)) (dps_labels (dep_spec (ms_Deployment ms))) \<and>
    (selects (svc_selector (ip_EPPService ip)) (dps_labels (dep_spec (ip_EPPDeployment ip'))) \<longleftrightarrow>
      lm_name m' = lm_name m)"
proof -
  have "svc_selector (ip_EPPService ip) = [(instanceLabel, lm_name m), (nameLabel, ''epp'')]"
    using assms(2) by (auto simp: pool_defs split: sum.splits)
  then show ?thesis
    using serving_resources(1) [OF assms(1)] epp_resources(1) [OF assms(3)] epp_resources(5) [OF assms(2)]
    by (auto simp: selects_def poolSelector_def buildInferencePool_def)
qed

theorem pool_selects_serving_pods_only_witness:
  "\<exists>st ms. BuildModelServiceResources exampleServed st sampleConfig = Inr ms \<and>
     selects (poolSelector exampleServed) (dps_labels (dep_spec (ms_Deployment ms)))"
proof -
  obtain st ms ip where ms: "BuildModelServiceResources exampleServed st sampleConfig = Inr ms"
    and ip: "BuildInferencePoolResources noYaml exampleServed sampleConfig = Inr ip"
    using exampleServed_builds by blast
  from pool_selects_serving_pods_only [OF ms ip ip] ms show ?thesis by blast
qed

text \<open>C40: the selectors of a model's own Service, Deployment and NetworkPolicy leave the name label out and
  so match the pods of its endpoint picker as well, and a model whose name is another model's
  name with \<open>-epp\<close> at the end claims the Deployment and the Service of that model's endpoint
  picker, with a different selector.\<close>

theorem serving_selectors_reach_endpoint_picker:
  assumes "BuildModelServiceResources m st cfg = Inr ms" and "BuildInferencePoolResources y m cfg = Inr ip"
    and "BuildModelServiceResources m2 st2 cfg = Inr ms2" and "lm_name m2 = lm_name m @ ''-epp''"
  shows "selects (svc_selector (ms_Service ms)) (dps_labels (dep_spec (ip_EPPDeployment ip))) \<and>
    selects (dps_selector (dep_spec (ms_Deployment ms))) (dps_labels (dep_spec (ip_EPPDeployment ip))) \<and>
    selects (npo_podSelector (BuildNetworkPolicy m cfg)) (dps_labels (dep_spec (ip_EPPDeployment ip))) \<and>
    om_name (dep_meta (ms_Deployment ms2)) = om_name (dep_meta (ip_EPPDeployment ip)) \<and>
    om_name (svc_meta (ms_Service ms2)) = om_name (svc_meta (ip_EPPService ip)) \<and>
    dps_selector (dep_spec (ms_Deployment ms2)) \<noteq> dps_selector (dep_spec (ip_EPPDeployment ip))"
  using serving_resources [OF assms(1)] serving_resources [OF assms(3)] epp_resources [OF assms(2)] assms(4)
  by (auto simp: selects_def BuildNetworkPolicy_def)

definition exampleShadow :: LLMModel where
  "exampleShadow = sampleModel ''m-epp'' ''llm'' \<lparr>acc_public = Some True, acc_groups = []\<rparr>"

theorem serving_selectors_reach_endpoint_picker_witness:
  "\<exists>ip st ms2. BuildInferencePoolResources noYaml exampleServed sampleConfig = Inr ip \<and>
     BuildModelServiceResources exampleShadow st sampleConfig = Inr ms2 \<and>
     om_name (dep_meta (ms_Deployment ms2)) = om_name (dep_meta (ip_EPPDeployment ip))"
proof -
  obtain st ms ip where ms: "BuildModelServiceResources exampleServed st sampleConfig = Inr ms"
    and ip: "BuildInferencePoolResources noYaml exampleServed sampleConfig = Inr ip"
    using exampleServed_builds by blast
  obtain ms2 where ms2: "BuildModelServiceResources exampleShadow st sampleConfig = Inr ms2"
    by (simp add: workload_defs)
  have n: "lm_name exampleShadow = lm_name exampleServed @ ''-epp''" by code_simp
  from serving_selectors_reach_endpoint_picker [OF ms ip ms2 n] ip ms2 show ?thesis by blast
qed

end
