(* ===== verification/ClusterTLS.thy ===== *)
theory ClusterTLS
  imports Common Json
begin

text \<open>
  \<open>operator/internal/controller/reconcilers/clustertls.go\<close>: the shared certificate, the grants
  and the HTTPS listeners the operator maintains on the shared Gateways. Reading and writing
  \<open>spec.listeners\<close> of an unstructured object are functions of apimachinery, hence arguments; the
  locale \<open>nested_slice\<close> names what they are documented to do.
\<close>

definition SharedTLSCertificateName :: string where
  "SharedTLSCertificateName = ''nebari-llm-shared-tls''"
definition SharedTLSSecretName :: string where "SharedTLSSecretName = ''nebari-llm-shared-tls''"
definition ExternalHTTPSListenerName :: string where "ExternalHTTPSListenerName = ''llm-https''"
definition InternalHTTPSListenerName :: string where
  "InternalHTTPSListenerName = ''llm-internal-https''"

definition sharedTLSLabels :: "string gomap" where
  "sharedTLSLabels =
     [(managedByLabel, operatorName), (nameLabel, ''shared-tls''),
      (''app.kubernetes.io/component'', ''routing'')]"

definition BuildSharedCertificate :: "string \<Rightarrow> string \<Rightarrow> string \<Rightarrow> gerror + json" where
  "BuildSharedCertificate baseDomain ns clusterIssuerName =
     (if baseDomain = []
      then Inl (errorf ''baseDomain must be non-empty to build the shared TLS Certificate'')
      else if ns = [] then Inl (errorf ''namespace must be non-empty'')
      else if clusterIssuerName = [] then Inl (errorf ''clusterIssuerName must be non-empty'')
      else Inr (resourceTree ''cert-manager.io/v1'' ''Certificate''
        (metaTree SharedTLSCertificateName ns (labelsToInterface sharedTLSLabels))
        (JObj [(''secretName'', JStr SharedTLSSecretName),
           (''dnsNames'', JArr [JStr (SharedExternalHostname baseDomain),
              JStr (SharedInternalHostname baseDomain)]),
           (''issuerRef'', JObj [(''kind'', JStr ''ClusterIssuer''), (''name'', JStr clusterIssuerName),
              (''group'', JStr ''cert-manager.io'')])])))"

definition BuildSecretReferenceGrant :: "string \<Rightarrow> string \<Rightarrow> string \<Rightarrow> json" where
  "BuildSecretReferenceGrant fromNamespace secretNamespace secretName =
     resourceTree ''gateway.networking.k8s.io/v1beta1'' ''ReferenceGrant''
       (metaTree (''nebari-llm-shared-tls-from-'' @ fromNamespace) secretNamespace
         (labelsToInterface sharedTLSLabels))
       (JObj [(''from'', JArr [JObj [(''group'', JStr ''gateway.networking.k8s.io''),
            (''kind'', JStr ''Gateway''), (''namespace'', JStr fromNamespace)]]),
          (''to'', JArr [JObj [(''group'', JStr []), (''kind'', JStr ''Secret''),
            (''name'', JStr secretName)]])])"

section \<open>Listeners\<close>

definition buildHTTPSListener :: "string \<Rightarrow> string \<Rightarrow> string \<Rightarrow> string \<Rightarrow> json" where
  "buildHTTPSListener name hostname secretName secretNamespace =
     JObj [(''name'', JStr name), (''protocol'', JStr ''HTTPS''), (''port'', JInt 443),
       (''hostname'', JStr hostname),
       (''tls'', JObj [(''mode'', JStr ''Terminate''),
          (''certificateRefs'', JArr [JObj [(''kind'', JStr ''Secret''), (''name'', JStr secretName),
             (''namespace'', JStr secretNamespace)]])]),
       (''allowedRoutes'', JObj [(''namespaces'', JObj [(''from'', JStr ''All'')])])]"

definition sameFields :: "string list \<Rightarrow> json option \<Rightarrow> json option \<Rightarrow> bool" where
  "sameFields ks a b = list_all (\<lambda>k. fmtOpt (fieldOf a k) = fmtOpt (fieldOf b k)) ks"

definition listenersEqual :: "json \<Rightarrow> json \<Rightarrow> bool" where
  "listenersEqual a b =
     (let at' = fieldOf (Some a) ''tls''; bt = fieldOf (Some b) ''tls'';
          aRefs = items (fieldOf at' ''certificateRefs''); bRefs = items (fieldOf bt ''certificateRefs'');
          aNS = fieldOf (fieldOf (Some a) ''allowedRoutes'') ''namespaces'';
          bNS = fieldOf (fieldOf (Some b) ''allowedRoutes'') ''namespaces''
      in sameFields [''name'', ''protocol'', ''port'', ''hostname''] (Some a) (Some b) \<and>
         fmtOpt (fieldOf at' ''mode'') = fmtOpt (fieldOf bt ''mode'') \<and>
         length aRefs = length bRefs \<and>
         list_all2 (\<lambda>ar br. sameFields [''kind'', ''name'', ''namespace''] (Some ar) (Some br)) aRefs bRefs \<and>
         fmtOpt (fieldOf aNS ''from'') = fmtOpt (fieldOf bNS ''from''))"

text \<open>
  The scan of \<open>MergeHTTPSListener\<close>: the first map whose name is the wanted one decides; \<open>None\<close>
  means there is none, otherwise the flag says whether the listener was replaced.
\<close>

definition isNamed :: "string \<Rightarrow> json \<Rightarrow> bool" where
  "isNamed n raw = (case raw of JObj l \<Rightarrow> strOr (map_of l ''name'') = n | _ \<Rightarrow> False)"

fun scanListeners :: "string \<Rightarrow> json \<Rightarrow> json list \<Rightarrow> (bool \<times> json list) option" where
  "scanListeners n desired [] = None"
| "scanListeners n desired (raw # ls) =
     (if \<not> isNamed n raw then map_option (\<lambda>(ch, ls'). (ch, raw # ls')) (scanListeners n desired ls)
      else if listenersEqual raw desired then Some (False, raw # ls)
      else Some (True, desired # ls))"

type_synonym get_slice = "json \<Rightarrow> gerror + json list option"
type_synonym set_slice = "json \<Rightarrow> json list \<Rightarrow> gerror + json"

definition MergeHTTPSListener ::
  "get_slice \<Rightarrow> set_slice \<Rightarrow> json option \<Rightarrow> string \<Rightarrow> string \<Rightarrow> string \<Rightarrow> string \<Rightarrow> gerror + bool \<times> json" where
  "MergeHTTPSListener getS setS gateway listenerName hostname secretName secretNamespace =
     (case gateway of
        None \<Rightarrow> Inl (errorf ''gateway must be non-nil'')
      | Some g \<Rightarrow>
          let desired = buildHTTPSListener listenerName hostname secretName secretNamespace
          in case getS g of
               Inl e \<Rightarrow> Inl (wrapErr ''reading spec.listeners'' e)
             | Inr found \<Rightarrow>
                 let listeners = (case found of None \<Rightarrow> [] | Some ls \<Rightarrow> ls);
                     write = (\<lambda>ls. case setS g ls of
                       Inl e \<Rightarrow> Inl (wrapErr ''writing spec.listeners'' e) | Inr g' \<Rightarrow> Inr (True, g'))
                 in case scanListeners listenerName desired listeners of
                      Some (ch, ls) \<Rightarrow> if ch then write ls else Inr (False, g)
                    | None \<Rightarrow> write (listeners @ [desired]))"

section \<open>The slice in the tree\<close>

text \<open>
  What is written is read back, a tree that can be read can be written, and writing leaves every
  other field of the object and of its spec alone.
\<close>

locale nested_slice =
  fixes getS :: get_slice and setS :: set_slice
  assumes get_set: "setS g ls = Inr g' \<Longrightarrow> getS g' = Inr (Some ls)"
    and set_other: "setS g ls = Inr g' \<Longrightarrow> k \<noteq> ''spec'' \<Longrightarrow> objGet g' k = objGet g k"
    and set_spec_other: "setS g ls = Inr g' \<Longrightarrow> k \<noteq> ''listeners'' \<Longrightarrow>
      fieldOf (specOf g') k = fieldOf (specOf g) k"

definition listenersOf :: "get_slice \<Rightarrow> json \<Rightarrow> json list" where
  "listenersOf getS g = (case getS g of Inr (Some ls) \<Rightarrow> ls | _ \<Rightarrow> [])"

definition listenerNamed :: "string \<Rightarrow> json list \<Rightarrow> json option" where
  "listenerNamed n ls = find (isNamed n) ls"

lemma sameFields_refl [simp]: "sameFields ks a a"
  by (simp add: sameFields_def list_all_iff)

lemma listenersEqual_refl [simp]: "listenersEqual a a"
  by (simp add: listenersEqual_def Let_def list_all2_refl)

lemma isNamed_build [simp]: "isNamed m (buildHTTPSListener n h s sn) \<longleftrightarrow> m = n"
  by (auto simp: isNamed_def buildHTTPSListener_def)

lemma find_append:
  "find P (xs @ ys) = (case find P xs of None \<Rightarrow> find P ys | Some x \<Rightarrow> Some x)"
  by (induction xs) auto

lemma isNamed_unique: "isNamed m x \<Longrightarrow> isNamed n x \<Longrightarrow> m = n"
  by (cases x) (auto simp: isNamed_def)

text \<open>The scan, over the view that looks a listener up by its name.\<close>

lemma scan_None: "scanListeners n d ls = None \<longleftrightarrow> listenerNamed n ls = None"
  by (induction ls) (auto simp: listenerNamed_def)

lemma scan_same:
  "scanListeners n d ls = Some (False, ls') \<Longrightarrow>
     ls' = ls \<and> (\<exists>l. listenerNamed n ls = Some l \<and> listenersEqual l d)"
  by (induction ls arbitrary: ls') (auto simp: listenerNamed_def split: if_splits)

lemma scan_changed:
  assumes "scanListeners n d ls = Some (True, ls')" and "isNamed n d"
  shows "listenerNamed n ls' = Some d \<and> (\<forall>m. m \<noteq> n \<longrightarrow> listenerNamed m ls' = listenerNamed m ls) \<and>
    filter (\<lambda>l. \<not> isNamed n l) ls' = filter (\<lambda>l. \<not> isNamed n l) ls"
  using assms
proof (induction ls arbitrary: ls')
  case (Cons raw ls)
  show ?case
  proof (cases "isNamed n raw")
    case True
    with Cons.prems have "ls' = d # ls" by (auto split: if_splits)
    with True Cons.prems(2) show ?thesis
      by (auto simp: listenerNamed_def dest: isNamed_unique)
  next
    case False
    with Cons.prems obtain ls2 where "scanListeners n d ls = Some (True, ls2)" "ls' = raw # ls2"
      by auto
    with Cons.IH [OF _ Cons.prems(2)] False show ?thesis by (auto simp: listenerNamed_def)
  qed
qed simp

lemma scan_again:
  assumes "listenerNamed n ls = Some l" and "listenersEqual l d"
  shows "scanListeners n d ls = Some (False, ls)"
  using assms by (induction ls) (auto simp: listenerNamed_def split: if_splits)

section \<open>Merging\<close>

text \<open>
  The view of a Gateway as a map from listener names to listeners: merging updates it at the
  listener's own name, and a second merge finds nothing left to do.
\<close>

context nested_slice
begin

lemma merge_spec:
  assumes m: "MergeHTTPSListener getS setS (Some g) n h s sn = Inr (ch, g')"
  shows "(\<exists>l. listenerNamed n (listenersOf getS g') = Some l \<and>
      listenersEqual l (buildHTTPSListener n h s sn) \<and> (ch \<longrightarrow> l = buildHTTPSListener n h s sn)) \<and>
    (\<forall>k. k \<noteq> n \<longrightarrow> listenerNamed k (listenersOf getS g') = listenerNamed k (listenersOf getS g)) \<and>
    filter (\<lambda>l. \<not> isNamed n l) (listenersOf getS g') = filter (\<lambda>l. \<not> isNamed n l) (listenersOf getS g) \<and>
    (\<not> ch \<longrightarrow> g' = g) \<and> (\<forall>k. k \<noteq> ''spec'' \<longrightarrow> objGet g' k = objGet g k) \<and>
    (\<forall>k. k \<noteq> ''listeners'' \<longrightarrow> fieldOf (specOf g') k = fieldOf (specOf g) k) \<and>
    (\<exists>found. getS g' = Inr found)"
proof -
  let ?d = "buildHTTPSListener n h s sn"
  obtain found where f: "getS g = Inr found" using m
    by (auto simp: MergeHTTPSListener_def Let_def split: sum.splits)
  define ls where "ls = listenersOf getS g"
  have ls: "(case found of None \<Rightarrow> [] | Some ls \<Rightarrow> ls) = ls"
    using f by (simp add: ls_def listenersOf_def split: option.split)
  have frame: "(\<forall>k. k \<noteq> ''spec'' \<longrightarrow> objGet g' k = objGet g k) \<and>
      (\<forall>k. k \<noteq> ''listeners'' \<longrightarrow> fieldOf (specOf g') k = fieldOf (specOf g) k) \<and>
      listenersOf getS g' = ls2 \<and> (\<exists>found. getS g' = Inr found)" if "setS g ls2 = Inr g'" for ls2
    using set_other [OF that] set_spec_other [OF that] get_set [OF that] by (simp add: listenersOf_def)
  show ?thesis
  proof (cases "scanListeners n ?d ls")
    case None
    with m f ls have w: "setS g (ls @ [?d]) = Inr g'" and "ch"
      by (auto simp: MergeHTTPSListener_def Let_def split: sum.splits)
    moreover have "listenerNamed n (ls @ [?d]) = Some ?d"
      using None by (simp add: scan_None listenerNamed_def find_append)
    moreover have "listenerNamed k (ls @ [?d]) = listenerNamed k ls" if "k \<noteq> n" for k
      using that by (simp add: listenerNamed_def find_append split: option.split)
    ultimately show ?thesis using frame [OF w] by (simp add: ls_def)
  next
    case (Some r)
    obtain c ls2 where r: "r = (c, ls2)" by (cases r)
    show ?thesis
    proof (cases c)
      case True
      with m f ls Some r have w: "setS g ls2 = Inr g'" and "ch"
        by (auto simp: MergeHTTPSListener_def Let_def split: sum.splits)
      with scan_changed [of n ?d ls ls2] Some r True frame [OF w] show ?thesis by (simp add: ls_def)
    next
      case False
      with m f ls Some r have "g' = g" and "\<not> ch"
        by (auto simp: MergeHTTPSListener_def Let_def split: sum.splits)
      with scan_same [of n ?d ls ls2] Some r False f show ?thesis by (auto simp: ls_def)
    qed
  qed
qed

lemma merge_again:
  assumes "listenerNamed n (listenersOf getS g) = Some l" and "getS g = Inr found"
    and "listenersEqual l (buildHTTPSListener n h s sn)"
  shows "MergeHTTPSListener getS setS (Some g) n h s sn = Inr (False, g)"
  using assms scan_again [OF assms(1,3)]
  by (cases found) (simp_all add: MergeHTTPSListener_def Let_def listenersOf_def listenerNamed_def)

lemma merge_idempotent:
  assumes "MergeHTTPSListener getS setS (Some g) n h s sn = Inr (ch, g')"
  shows "MergeHTTPSListener getS setS (Some g') n h s sn = Inr (False, g')"
proof -
  from merge_spec [OF assms] obtain l found where "listenerNamed n (listenersOf getS g') = Some l"
    "listenersEqual l (buildHTTPSListener n h s sn)" "getS g' = Inr found" by blast
  then show ?thesis by (intro merge_again)
qed

text \<open>A merge of another listener leaves the first one in order.\<close>

lemma merge_keeps_other:
  assumes "MergeHTTPSListener getS setS (Some g) n h s sn = Inr (ch, g1)"
    and "MergeHTTPSListener getS setS (Some g1) n2 h2 s2 sn2 = Inr (ch2, g2)" and "n \<noteq> n2"
  shows "MergeHTTPSListener getS setS (Some g2) n h s sn = Inr (False, g2)"
proof -
  from merge_spec [OF assms(1)] obtain l where l: "listenerNamed n (listenersOf getS g1) = Some l"
    "listenersEqual l (buildHTTPSListener n h s sn)" by blast
  from merge_spec [OF assms(2)] assms(3) obtain found where
    "listenerNamed n (listenersOf getS g2) = listenerNamed n (listenersOf getS g1)" "getS g2 = Inr found"
    by blast
  with l show ?thesis using merge_again [of n g2 l found] by simp
qed

end

section \<open>The accessors of apimachinery on this path\<close>

definition treeGetListeners :: get_slice where
  "treeGetListeners g =
     (case objGet g ''spec'' of
        None \<Rightarrow> Inr None
      | Some JNull \<Rightarrow> Inr None
      | Some (JObj m) \<Rightarrow>
          (case map_of m ''listeners'' of
             None \<Rightarrow> Inr None
           | Some (JArr ls) \<Rightarrow> Inr (Some ls)
           | Some v \<Rightarrow> Inl (errorf (''.spec.listeners accessor error: '' @ fmtV v @ '' is not a slice'')))
      | Some v \<Rightarrow> Inl (errorf (''.spec.listeners accessor error: '' @ fmtV v @ '' is not a map'')))"

definition treeSetListeners :: set_slice where
  "treeSetListeners g ls =
     (case g of
        JObj m \<Rightarrow>
          (case map_of m ''spec'' of
             None \<Rightarrow> Inr (JObj (AList.update ''spec'' (JObj [(''listeners'', JArr ls)]) m))
           | Some (JObj sm) \<Rightarrow>
               Inr (JObj (AList.update ''spec'' (JObj (AList.update ''listeners'' (JArr ls) sm)) m))
           | Some v \<Rightarrow> Inl (errorf (''value cannot be set because '' @ fmtV v @ '' is not a map'')))
      | _ \<Rightarrow> Inl (errorf ''value cannot be set''))"

lemma treeSet_cases:
  assumes "treeSetListeners g ls = Inr g'"
  obtains m sm where "g = JObj m" "g' = JObj (AList.update ''spec'' (JObj (AList.update ''listeners'' (JArr ls) sm)) m)"
    "map_of m ''spec'' = Some (JObj sm) \<or> map_of m ''spec'' = None \<and> sm = []"
proof -
  from assms obtain m where m: "g = JObj m" by (cases g) (auto simp: treeSetListeners_def)
  show thesis
  proof (cases "map_of m ''spec''")
    case None
    with assms m that [of m "[]"] show thesis by (simp add: treeSetListeners_def)
  next
    case (Some v)
    with assms m obtain sm where "v = JObj sm" by (cases v) (auto simp: treeSetListeners_def)
    with assms m Some that [of m sm] show thesis by (simp add: treeSetListeners_def)
  qed
qed

interpretation tree: nested_slice treeGetListeners treeSetListeners
proof (unfold_locales, goal_cases)
  case (1 g ls g')
  then show ?case by (elim treeSet_cases) (auto simp: treeGetListeners_def)
next
  case (2 g ls g' k)
  then show ?case by (elim treeSet_cases) auto
next
  case (3 g ls g' k)
  then show ?case by (elim treeSet_cases) (auto simp: specOf_def)
qed

section \<open>Properties\<close>

text \<open>C18: merging refines an update of the map from listener names to listeners: afterwards the
  operator's listener compares equal to the wanted one, every other listener is kept, with its
  place, every other field of the Gateway is kept, an unchanged Gateway is returned as it was,
  and neither a second merge nor one after the merge of another listener writes again.\<close>

theorem merge_refines_listener_map:
  assumes "nested_slice getS setS"
    and "MergeHTTPSListener getS setS (Some g) n h s sn = Inr (ch, g')"
  shows "(\<exists>l. listenerNamed n (listenersOf getS g') = Some l \<and>
      listenersEqual l (buildHTTPSListener n h s sn) \<and> (ch \<longrightarrow> l = buildHTTPSListener n h s sn)) \<and>
    (\<forall>k. k \<noteq> n \<longrightarrow> listenerNamed k (listenersOf getS g') = listenerNamed k (listenersOf getS g)) \<and>
    filter (\<lambda>l. \<not> isNamed n l) (listenersOf getS g') = filter (\<lambda>l. \<not> isNamed n l) (listenersOf getS g) \<and>
    (\<not> ch \<longrightarrow> g' = g) \<and> (\<forall>k. k \<noteq> ''spec'' \<longrightarrow> objGet g' k = objGet g k) \<and>
    (\<forall>k. k \<noteq> ''listeners'' \<longrightarrow> fieldOf (specOf g') k = fieldOf (specOf g) k) \<and>
    MergeHTTPSListener getS setS (Some g') n h s sn = Inr (False, g') \<and>
    (\<forall>n2 h2 s2 sn2 ch2 g2. n2 \<noteq> n \<longrightarrow>
       MergeHTTPSListener getS setS (Some g') n2 h2 s2 sn2 = Inr (ch2, g2) \<longrightarrow>
       MergeHTTPSListener getS setS (Some g2) n h s sn = Inr (False, g2))"
proof -
  have "MergeHTTPSListener getS setS (Some g2) n h s sn = Inr (False, g2)"
    if "n2 \<noteq> n" and "MergeHTTPSListener getS setS (Some g') n2 h2 s2 sn2 = Inr (ch2, g2)"
    for n2 h2 s2 sn2 ch2 g2
    using nested_slice.merge_keeps_other [OF assms that(2)] that(1) by simp
  then show ?thesis
    using nested_slice.merge_spec [OF assms] nested_slice.merge_idempotent [OF assms] by simp
qed

definition sampleGateway :: json where
  "sampleGateway = JObj [(''kind'', JStr ''Gateway''),
     (''spec'', JObj [(''gatewayClassName'', JStr ''eg''),
        (''listeners'', JArr [JObj [(''name'', JStr ''https''), (''port'', JInt 443)],
           JObj [(''name'', JStr ''llm-https''), (''port'', JInt 80)]])])]"

definition mergedGateway :: json where
  "mergedGateway = JObj [(''kind'', JStr ''Gateway''),
     (''spec'', JObj [(''gatewayClassName'', JStr ''eg''),
        (''listeners'', JArr [JObj [(''name'', JStr ''https''), (''port'', JInt 443)],
           buildHTTPSListener ''llm-https'' ''llm.example.com'' SharedTLSSecretName ''llm''])])]"

lemma mergedGateway_value:
  "MergeHTTPSListener treeGetListeners treeSetListeners (Some sampleGateway) ''llm-https''
     ''llm.example.com'' SharedTLSSecretName ''llm'' = Inr (True, mergedGateway)"
  by code_simp

theorem merge_refines_listener_map_witness:
  "MergeHTTPSListener treeGetListeners treeSetListeners (Some mergedGateway) ''llm-https''
     ''llm.example.com'' SharedTLSSecretName ''llm'' = Inr (False, mergedGateway)"
  using merge_refines_listener_map [OF tree.nested_slice_axioms mergedGateway_value] by blast

end
