(* ===== verification/Routing.thy ===== *)
theory Routing
  imports Auth ClusterTLS
begin

text \<open>
  \<open>reconcilers/routing.go\<close> and \<open>reconcilers/passthrough.go\<close> of the operator: the AIGatewayRoutes of
  both kinds of model, and the provider resources of a PassthroughModel. Every builder is a pure
  function to the tree of the object.
\<close>

section \<open>Routes of an LLMModel\<close>

record RoutingResources =
  rr_ExternalRoute :: "json option"
  rr_InternalRoute :: "json option"

definition DefaultRequestTimeout :: string where "DefaultRequestTimeout = ''600s''"

definition modelHeader :: string where "modelHeader = ''x-ai-eg-model''"

text \<open>An exact match on one request header.\<close>

definition exactHeader :: "string \<Rightarrow> string \<Rightarrow> json" where
  "exactHeader name value = JObj [(''type'', JStr ''Exact''), (''name'', JStr name), (''value'', JStr value)]"

definition headerMatch :: "json \<Rightarrow> json" where
  "headerMatch header = JObj [(''headers'', JArr [header])]"

definition parentRef :: "string \<Rightarrow> string \<Rightarrow> string \<Rightarrow> json" where
  "parentRef gatewayName gatewayNS listenerSectionName =
     JObj [(''name'', JStr gatewayName), (''namespace'', JStr gatewayNS),
       (''sectionName'', JStr listenerSectionName)]"

definition buildAIGatewayRoute ::
  "string \<Rightarrow> string \<Rightarrow> string gomap \<Rightarrow> string \<Rightarrow> string \<Rightarrow> string \<Rightarrow> string \<Rightarrow> string \<Rightarrow> string \<Rightarrow> json" where
  "buildAIGatewayRoute name ns labels gatewayName gatewayNS listenerSectionName poolName modelName requestTimeout =
     resourceTree ''aigateway.envoyproxy.io/v1alpha1'' ''AIGatewayRoute''
       (metaTree name ns (labelsToInterface labels))
       (JObj [(''parentRefs'', JArr [parentRef gatewayName gatewayNS listenerSectionName]),
          (''rules'', JArr [JObj
            [(''matches'', JArr [headerMatch (exactHeader modelHeader modelName)]),
             (''backendRefs'', JArr [JObj [(''group'', JStr ''inference.networking.k8s.io''),
                (''kind'', JStr ''InferencePool''), (''name'', JStr poolName)]]),
             (''timeouts'', JObj [(''request'', JStr requestTimeout)])]])])"

definition BuildRoutingResources :: "LLMModel \<Rightarrow> OperatorConfig \<Rightarrow> gerror + RoutingResources" where
  "BuildRoutingResources model cfg =
     (let endpoints = spec_endpoints (lm_spec model);
          requestTimeout = (if ep_requestTimeout endpoints = [] then DefaultRequestTimeout
            else ep_requestTimeout endpoints)
      in Inr \<lparr>rr_ExternalRoute =
             (if boolOrDefault (ext_enabled (ep_external endpoints)) True
              then Some (buildAIGatewayRoute (lm_name model @ ''-external'') (lm_namespace model)
                (StandardLabels model) (cfg_ExternalGatewayName cfg) (cfg_ExternalGatewayNS cfg)
                ExternalHTTPSListenerName (lm_name model) (mod_name (spec_model (lm_spec model))) requestTimeout)
              else None),
           rr_InternalRoute =
             (if boolOrDefault (int_enabled (ep_internal endpoints)) True
              then Some (buildAIGatewayRoute (lm_name model @ ''-internal'') (lm_namespace model)
                (StandardLabels model) (cfg_InternalGatewayName cfg) (cfg_InternalGatewayNS cfg)
                InternalHTTPSListenerName (lm_name model) (mod_name (spec_model (lm_spec model))) requestTimeout)
              else None)\<rparr>)"

section \<open>The resources of a PassthroughModel\<close>

record PassthroughResources =
  pr_Backend :: json
  pr_BackendTLSPolicy :: json
  pr_AIServiceBackend :: json
  pr_BackendSecurityPolicy :: json
  pr_APIKeySecret :: secret
  pr_APIKeyMetadataCM :: configmap
  pr_ExternalRoute :: "json option"
  pr_InternalRoute :: "json option"
  pr_ExternalSecurityPolicy :: "json option"
  pr_InternalSecurityPolicy :: "json option"

definition PassthroughStandardLabels :: "PassthroughModel \<Rightarrow> string gomap" where
  "PassthroughStandardLabels pm =
     [(managedByLabel, operatorName), (instanceLabel, pm_name pm), (nameLabel, ''passthroughmodel''),
      (modelLabel, pm_name pm)]"

definition providerBackendName :: "PassthroughModel \<Rightarrow> string" where
  "providerBackendName pm = pm_name pm @ ''-backend''"

definition buildProviderBackend :: "PassthroughModel \<Rightarrow> string gomap \<Rightarrow> json" where
  "buildProviderBackend pm labels =
     (let provider = pspec_provider (pm_spec pm);
          port = (if prov_port provider = 0 then 443 else prov_port provider)
      in resourceTree ''gateway.envoyproxy.io/v1alpha1'' ''Backend''
        (metaTree (providerBackendName pm) (pm_namespace pm) (labelsToInterface labels))
        (JObj [(''endpoints'', JArr [JObj [(''fqdn'', JObj
           [(''hostname'', JStr (prov_hostname provider)), (''port'', JInt port)])]])]))"

definition buildProviderBackendTLSPolicy :: "PassthroughModel \<Rightarrow> string gomap \<Rightarrow> json" where
  "buildProviderBackendTLSPolicy pm labels =
     resourceTree ''gateway.networking.k8s.io/v1'' ''BackendTLSPolicy''
       (metaTree (pm_name pm @ ''-backend-tls'') (pm_namespace pm) (labelsToInterface labels))
       (JObj [(''targetRefs'', JArr [JObj [(''group'', JStr ''gateway.envoyproxy.io''),
            (''kind'', JStr ''Backend''), (''name'', JStr (providerBackendName pm))]]),
          (''validation'', JObj [(''wellKnownCACertificates'', JStr ''System''),
            (''hostname'', JStr (prov_hostname (pspec_provider (pm_spec pm))))])])"

definition buildProviderAIServiceBackend :: "PassthroughModel \<Rightarrow> string gomap \<Rightarrow> json" where
  "buildProviderAIServiceBackend pm labels =
     (let v = prov_schemaVersion (pspec_provider (pm_spec pm)); schemaVersion = (if v = [] then ''v1'' else v)
      in resourceTree ''aigateway.envoyproxy.io/v1alpha1'' ''AIServiceBackend''
        (metaTree (pm_name pm) (pm_namespace pm) (labelsToInterface labels))
        (JObj [(''schema'', JObj [(''name'', JStr ''OpenAI''), (''version'', JStr schemaVersion)]),
           (''backendRef'', JObj [(''group'', JStr ''gateway.envoyproxy.io''), (''kind'', JStr ''Backend''),
              (''name'', JStr (providerBackendName pm))])]))"

definition buildProviderBackendSecurityPolicy :: "PassthroughModel \<Rightarrow> string gomap \<Rightarrow> json" where
  "buildProviderBackendSecurityPolicy pm labels =
     resourceTree ''aigateway.envoyproxy.io/v1alpha1'' ''BackendSecurityPolicy''
       (metaTree (pm_name pm @ ''-upstream-auth'') (pm_namespace pm) (labelsToInterface labels))
       (JObj [(''targetRefs'', JArr [JObj [(''group'', JStr ''aigateway.envoyproxy.io''),
            (''kind'', JStr ''AIServiceBackend''), (''name'', JStr (pm_name pm))]]),
          (''type'', JStr ''APIKey''),
          (''apiKey'', JObj [(''secretRef'', JObj
             [(''name'', JStr (prov_credentialSecretName (pspec_provider (pm_spec pm))))])])])"

definition passthroughBackendRefs :: "PassthroughModel \<Rightarrow> json" where
  "passthroughBackendRefs pm = JArr [JObj [(''name'', JStr (pm_name pm))]]"

definition buildPassthroughRoute ::
  "string \<Rightarrow> PassthroughModel \<Rightarrow> string gomap \<Rightarrow> string \<Rightarrow> string \<Rightarrow> string \<Rightarrow> string \<Rightarrow> bool \<Rightarrow> json" where
  "buildPassthroughRoute name pm labels gatewayName gatewayNS listenerSectionName hostname declareModels =
     (let hostHeader = exactHeader ''Host'' hostname;
          models = pspec_models (pm_spec pm);
          timeouts = JObj [(''request'', JStr ''120s'')];
          declared = (if pms_declared models \<noteq> []
            then [JObj ([(''matches'', JArr (map (\<lambda>i. headerMatch (exactHeader modelHeader i)) (pms_declared models))),
                (''backendRefs'', passthroughBackendRefs pm), (''timeouts'', timeouts)]
              @ (if declareModels then [(''modelsOwnedBy'', JStr (pm_name pm))] else []))]
            else []);
          catchAll = (if pms_catchAll models
            then [JObj [(''matches'', JArr [headerMatch hostHeader]),
                (''backendRefs'', passthroughBackendRefs pm), (''timeouts'', timeouts)]]
            else [])
      in resourceTree ''aigateway.envoyproxy.io/v1alpha1'' ''AIGatewayRoute''
        (metaTree name (pm_namespace pm) (labelsToInterface labels))
        (JObj [(''parentRefs'', JArr [parentRef gatewayName gatewayNS listenerSectionName]),
           (''rules'', JArr (declared @ catchAll))]))"

definition BuildPassthroughResources ::
  "PassthroughModel \<Rightarrow> OperatorConfig \<Rightarrow> string list \<Rightarrow> string list \<Rightarrow> gerror + PassthroughResources" where
  "BuildPassthroughResources pm cfg clientIDs credentialSecretNames =
     (let labels = PassthroughStandardLabels pm;
          authLabels = AList.update modelNameLabel (pm_name pm) labels;
          endpoints = pspec_endpoints (pm_spec pm);
          external = boolOrDefault (tog_enabled (pep_external endpoints)) True;
          internal = boolOrDefault (tog_enabled (pep_internal endpoints)) True
      in Inr \<lparr>pr_Backend = buildProviderBackend pm labels,
           pr_BackendTLSPolicy = buildProviderBackendTLSPolicy pm labels,
           pr_AIServiceBackend = buildProviderAIServiceBackend pm labels,
           pr_BackendSecurityPolicy = buildProviderBackendSecurityPolicy pm labels,
           pr_APIKeySecret = \<lparr>sec_meta = newMeta (APIKeySecretName (pm_name pm)) (pm_namespace pm) authLabels,
             sec_type = ''Opaque'', sec_data = []\<rparr>,
           pr_APIKeyMetadataCM =
             \<lparr>cm_meta = newMeta (APIKeyMetadataConfigMapName (pm_name pm)) (pm_namespace pm) authLabels,
              cm_data = []\<rparr>,
           pr_ExternalRoute =
             (if external then Some (buildPassthroughRoute (pm_name pm @ ''-external'') pm labels
                (cfg_ExternalGatewayName cfg) (cfg_ExternalGatewayNS cfg) ExternalHTTPSListenerName
                (SharedExternalHostname (cfg_BaseDomain cfg)) True) else None),
           pr_InternalRoute =
             (if internal then Some (buildPassthroughRoute (pm_name pm @ ''-internal'') pm labels
                (cfg_InternalGatewayName cfg) (cfg_InternalGatewayNS cfg) InternalHTTPSListenerName
                (SharedInternalHostname (cfg_BaseDomain cfg)) False) else None),
           pr_ExternalSecurityPolicy =
             (if external then Some (buildAPIKeyAuthSecurityPolicy (pm_name pm @ ''-external-auth'')
                (pm_namespace pm) (labelsToInterface labels) (pm_name pm @ ''-external'')
                credentialSecretNames clientIDs) else None),
           pr_InternalSecurityPolicy =
             (if internal then Some (buildJWTSecurityPolicy (pm_name pm @ ''-internal-auth'')
                (pm_namespace pm) (labelsToInterface labels) (pm_name pm @ ''-internal'') cfg
                (isPublicAccess (pspec_access (pm_spec pm))) (acc_groups (pspec_access (pm_spec pm))))
              else None)\<rparr>)"

section \<open>Reading a route\<close>

text \<open>The model identifiers and the host names a route's rules match, and the routes a policy targets.\<close>

definition ruleHeaders :: "json \<Rightarrow> json list" where
  "ruleHeaders rule = concat (map (\<lambda>m. items (fieldOf (Some m) ''headers'')) (items (fieldOf (Some rule) ''matches'')))"

definition routeHeaderValues :: "string \<Rightarrow> json \<Rightarrow> string list" where
  "routeHeaderValues h route =
     map (\<lambda>x. strOr (fieldOf (Some x) ''value''))
       (filter (\<lambda>x. fieldOf (Some x) ''name'' = Some (JStr h))
         (concat (map ruleHeaders (items (fieldOf (specOf route) ''rules'')))))"

definition routeParents :: "json \<Rightarrow> json list" where
  "routeParents route = items (fieldOf (specOf route) ''parentRefs'')"

definition listingRules :: "json \<Rightarrow> json list" where
  "listingRules route =
     filter (\<lambda>r. fieldOf (Some r) ''modelsOwnedBy'' \<noteq> None) (items (fieldOf (specOf route) ''rules''))"

definition targetsRoute :: "json \<Rightarrow> json \<Rightarrow> bool" where
  "targetsRoute policy route \<longleftrightarrow>
     fieldOf (specOf policy) ''targetRefs'' = Some (routeTarget (treeName route)) \<and>
     treeNamespace policy = treeNamespace route"

text \<open>
  An endpoint that is on is guarded when it has a route and a policy on that route, one that is off
  when it has neither. It is served as wanted when moreover the route has exactly this parent and
  matches exactly these model identifiers and hosts.
\<close>

definition endpointGuarded :: "bool \<Rightarrow> json option \<Rightarrow> json option \<Rightarrow> bool" where
  "endpointGuarded enabled route policy =
     (case (route, policy) of
        (Some r, Some p) \<Rightarrow> enabled \<and> targetsRoute p r
      | (None, None) \<Rightarrow> \<not> enabled
      | _ \<Rightarrow> False)"

definition endpointServed ::
  "bool \<Rightarrow> json \<Rightarrow> string list \<Rightarrow> string list \<Rightarrow> json option \<Rightarrow> json option \<Rightarrow> bool" where
  "endpointServed enabled parent models hosts route policy \<longleftrightarrow>
     endpointGuarded enabled route policy \<and>
     (case route of
        None \<Rightarrow> True
      | Some r \<Rightarrow> routeParents r = [parent] \<and> routeHeaderValues modelHeader r = models \<and>
          routeHeaderValues ''Host'' r = hosts)"

lemmas endpoint_defs = endpointServed_def endpointGuarded_def

lemmas route_builders = buildAIGatewayRoute_def buildPassthroughRoute_def Let_def

lemma route_name:
  "treeName (buildAIGatewayRoute n ns l g gns sec p mn t) = n"
  "treeNamespace (buildAIGatewayRoute n ns l g gns sec p mn t) = ns"
  "treeName (buildPassthroughRoute n pm l g gns sec h d) = n"
  "treeNamespace (buildPassthroughRoute n pm l g gns sec h d) = pm_namespace pm"
  by (simp_all add: route_builders)

lemma policy_targets:
  "targetsRoute (buildAPIKeyAuthSecurityPolicy n ns l r s i) route \<longleftrightarrow> treeName route = r \<and> treeNamespace route = ns"
  "targetsRoute (buildJWTSecurityPolicy n ns l r cfg pub gs) route \<longleftrightarrow> treeName route = r \<and> treeNamespace route = ns"
  by (auto simp: targetsRoute_def buildAPIKeyAuthSecurityPolicy_def buildJWTSecurityPolicy_def routeTarget_def)

lemma served_route_values:
  "routeHeaderValues h (buildAIGatewayRoute n ns l g gns sec p mn t) = (if h = modelHeader then [mn] else [])"
  "routeParents (buildAIGatewayRoute n ns l g gns sec p mn t) = [parentRef g gns sec]"
  by (auto simp: routeHeaderValues_def routeParents_def ruleHeaders_def route_builders headerMatch_def
      exactHeader_def)

lemma header_values_map:
  "map (\<lambda>x. strOr (fieldOf (Some x) ''value'')) (filter (\<lambda>x. fieldOf (Some x) ''name'' = Some (JStr h))
     (concat (map (\<lambda>m. items (fieldOf (Some m) ''headers'')) (map (\<lambda>i. headerMatch (exactHeader k i)) xs)))) =
   (if h = k then xs else [])"
  by (induction xs) (auto simp: headerMatch_def exactHeader_def)

lemma passthrough_route_values:
  "routeHeaderValues h (buildPassthroughRoute n pm l g gns sec host d) =
     (if h = modelHeader then pms_declared (pspec_models (pm_spec pm)) else []) @
     (if h = ''Host'' \<and> pms_catchAll (pspec_models (pm_spec pm)) then [host] else [])"
  "routeParents (buildPassthroughRoute n pm l g gns sec host d) = [parentRef g gns sec]"
proof -
  show "routeHeaderValues h (buildPassthroughRoute n pm l g gns sec host d) =
     (if h = modelHeader then pms_declared (pspec_models (pm_spec pm)) else []) @
     (if h = ''Host'' \<and> pms_catchAll (pspec_models (pm_spec pm)) then [host] else [])"
    using header_values_map [of h modelHeader "pms_declared (pspec_models (pm_spec pm))"]
    by (auto simp: routeHeaderValues_def ruleHeaders_def route_builders headerMatch_def exactHeader_def comp_def)
qed (simp add: routeParents_def route_builders)

lemma passthrough_listing:
  "listingRules (buildPassthroughRoute n pm l g gns sec host d) = [] \<longleftrightarrow>
     \<not> d \<or> pms_declared (pspec_models (pm_spec pm)) = []"
  by (simp add: listingRules_def route_builders)

text \<open>An endpoint is on unless its toggle is set to false.\<close>

lemma toggle_on: "boolOrDefault b True \<longleftrightarrow> b \<noteq> Some False"
  by (cases b) (auto simp: boolOrDefault_def)

section \<open>Properties\<close>

text \<open>C17: for both kinds of model, an endpoint that is not switched off gets a route together with a
  policy that targets exactly that route, and one that is switched off gets neither; the external
  route attaches to the HTTPS listener of the external Gateway only and the internal one to that of
  the internal Gateway. A served route matches its public model name and no host; a passthrough
  route matches exactly the declared identifiers, and with the catch-all the shared host of its
  side, otherwise no host; and only its external route lists models.\<close>

theorem every_endpoint_guarded:
  "(\<exists>rr ar. BuildRoutingResources model cfg = Inr rr \<and> BuildAuthResources model cfg ids secrets = Inr ar \<and>
     endpointServed (ext_enabled (ep_external (spec_endpoints (lm_spec model))) \<noteq> Some False)
       (parentRef (cfg_ExternalGatewayName cfg) (cfg_ExternalGatewayNS cfg) ExternalHTTPSListenerName)
       [mod_name (spec_model (lm_spec model))] [] (rr_ExternalRoute rr) (ar_ExternalSecurityPolicy ar) \<and>
     endpointServed (int_enabled (ep_internal (spec_endpoints (lm_spec model))) \<noteq> Some False)
       (parentRef (cfg_InternalGatewayName cfg) (cfg_InternalGatewayNS cfg) InternalHTTPSListenerName)
       [mod_name (spec_model (lm_spec model))] [] (rr_InternalRoute rr) (ar_InternalSecurityPolicy ar)) \<and>
   (\<exists>pr. BuildPassthroughResources pm cfg ids secrets = Inr pr \<and>
     endpointServed (tog_enabled (pep_external (pspec_endpoints (pm_spec pm))) \<noteq> Some False)
       (parentRef (cfg_ExternalGatewayName cfg) (cfg_ExternalGatewayNS cfg) ExternalHTTPSListenerName)
       (pms_declared (pspec_models (pm_spec pm)))
       (if pms_catchAll (pspec_models (pm_spec pm)) then [SharedExternalHostname (cfg_BaseDomain cfg)] else [])
       (pr_ExternalRoute pr) (pr_ExternalSecurityPolicy pr) \<and>
     endpointServed (tog_enabled (pep_internal (pspec_endpoints (pm_spec pm))) \<noteq> Some False)
       (parentRef (cfg_InternalGatewayName cfg) (cfg_InternalGatewayNS cfg) InternalHTTPSListenerName)
       (pms_declared (pspec_models (pm_spec pm)))
       (if pms_catchAll (pspec_models (pm_spec pm)) then [SharedInternalHostname (cfg_BaseDomain cfg)] else [])
       (pr_InternalRoute pr) (pr_InternalSecurityPolicy pr) \<and>
     (\<forall>r. pr_InternalRoute pr = Some r \<longrightarrow> listingRules r = []) \<and>
     (\<forall>r. pr_ExternalRoute pr = Some r \<longrightarrow>
        (listingRules r \<noteq> [] \<longleftrightarrow> pms_declared (pspec_models (pm_spec pm)) \<noteq> [])))"
proof (rule conjI, goal_cases)
  case 1
  show ?case
    by (simp add: BuildRoutingResources_def BuildAuthResources_def buildExternalSecurityPolicy_def
        buildInternalSecurityPolicy_def Let_def endpoint_defs policy_targets route_name
        served_route_values modelHeader_def toggle_on)
next
  case 2
  show ?case
    by (simp add: BuildPassthroughResources_def Let_def endpoint_defs policy_targets route_name
        passthrough_route_values passthrough_listing modelHeader_def toggle_on)
qed

definition groupAccess :: "string list \<Rightarrow> AccessSpec" where
  "groupAccess gs = \<lparr>acc_public = Some False, acc_groups = gs\<rparr>"

definition exampleModel :: LLMModel where
  "exampleModel = sampleModel ''m'' ''llm'' (groupAccess [''ml''])"

theorem every_endpoint_guarded_witness:
  "\<exists>rr ar r p. BuildRoutingResources exampleModel sampleConfig = Inr rr \<and>
     BuildAuthResources exampleModel sampleConfig [''k1''] [''m-api-keys''] = Inr ar \<and>
     rr_ExternalRoute rr = Some r \<and> ar_ExternalSecurityPolicy ar = Some p \<and> targetsRoute p r \<and>
     routeHeaderValues modelHeader r = [''org/m'']"
proof -
  have v: "mod_name (spec_model (lm_spec exampleModel)) = ''org/m''"
    "ext_enabled (ep_external (spec_endpoints (lm_spec exampleModel))) \<noteq> Some False" by code_simp+
  obtain rr ar where rr: "BuildRoutingResources exampleModel sampleConfig = Inr rr"
    and ar: "BuildAuthResources exampleModel sampleConfig [''k1''] [''m-api-keys''] = Inr ar"
    and g: "endpointServed True (parentRef (cfg_ExternalGatewayName sampleConfig) (cfg_ExternalGatewayNS sampleConfig)
      ExternalHTTPSListenerName) [''org/m''] [] (rr_ExternalRoute rr) (ar_ExternalSecurityPolicy ar)"
    using every_endpoint_guarded [of exampleModel sampleConfig "[''k1'']" "[''m-api-keys'']"
        "samplePassthrough ''p'' ''llm'' (groupAccess [])"] v by auto
  from g obtain r p where "rr_ExternalRoute rr = Some r" "ar_ExternalSecurityPolicy ar = Some p"
    "targetsRoute p r" "routeHeaderValues modelHeader r = [''org/m'']"
    by (auto simp: endpoint_defs split: option.splits)
  with rr ar show ?thesis by blast
qed

end
