(* ===== verification/Controllers.thy ===== *)
theory Controllers
  imports ApiKeys InferencePool Routing
begin

text \<open>
  What the controllers of \<open>operator/internal/controller\<close> share: the clients, the functions of
  controller-runtime and apimachinery they call, and the step "create the object or update the
  one that is there". The library functions are fields of a record; the locale
  \<open>controller_library\<close> names their documented behaviour, and a sample library satisfies it.
\<close>

section \<open>Clients and library\<close>

record 'k clients =
  kc_llmmodel :: "('k, LLMModel) typed_client"
  kc_passthrough :: "('k, PassthroughModel) typed_client"
  kc_secret :: "('k, secret) typed_client"
  kc_configmap :: "('k, configmap) typed_client"
  kc_pvc :: "('k, PersistentVolumeClaim) typed_client"
  kc_networkpolicy :: "('k, NetworkPolicy) typed_client"
  kc_serviceaccount :: "('k, ServiceAccount) typed_client"
  kc_service :: "('k, Service) typed_client"
  kc_deployment :: "('k, Deployment) typed_client"
  kc_role :: "('k, Role) typed_client"
  kc_rolebinding :: "('k, RoleBinding) typed_client"
  kc_pod :: "('k, Pod) typed_client"
  kc_tree :: "string \<Rightarrow> ('k, json) typed_client"

text \<open>
  Finalizers, owner references (\<open>SetControllerReference\<close>, by the kind and the metadata of the
  owner), the accessors of \<open>unstructured.Unstructured\<close>, \<open>meta.SetStatusCondition\<close>, quantities,
  YAML and SHA-256.
\<close>

record library =
  lib_hasFinalizer :: "objmeta \<Rightarrow> string \<Rightarrow> bool"
  lib_addFinalizer :: "objmeta \<Rightarrow> string \<Rightarrow> objmeta"
  lib_removeFinalizer :: "objmeta \<Rightarrow> string \<Rightarrow> objmeta"
  lib_setOwner :: "string \<Rightarrow> objmeta \<Rightarrow> objmeta \<Rightarrow> gerror + objmeta"
  lib_setTreeOwner :: "string \<Rightarrow> objmeta \<Rightarrow> json \<Rightarrow> gerror + json"
  lib_setTreeNamespace :: "string \<Rightarrow> json \<Rightarrow> json"
  lib_treeVersion :: "json \<Rightarrow> string"
  lib_setTreeVersion :: "string \<Rightarrow> json \<Rightarrow> json"
  lib_setCondition :: "Condition \<Rightarrow> Condition list \<Rightarrow> Condition list"
  lib_parseQuantity :: quantity_parser
  lib_jsonToYAML :: "string \<Rightarrow> gerror + string"
  lib_sum256 :: "bytes \<Rightarrow> bytes"

text \<open>
  The fields of both reconcilers, and the environment of the process. The code tests \<open>r.Config\<close>
  for nil in places, but \<open>BuildNetworkPolicy\<close> and \<open>BuildPassthroughResources\<close> read it
  unconditionally and \<open>cmd/main.go\<close> never passes nil, so it is a value here.
\<close>

record 'k Reconciler =
  rc_client :: "'k clients"
  rc_library :: library
  rc_Config :: OperatorConfig
  rc_environ :: environ

definition finalizerName :: string where "finalizerName = ''llm.nebari.dev/cleanup''"

locale controller_library =
  fixes L :: library
  assumes has_finalizer: "lib_hasFinalizer L m f \<longleftrightarrow> f \<in> set (om_finalizers m)"
    and add_finalizer: "f \<notin> set (om_finalizers m) \<Longrightarrow>
      lib_addFinalizer L m f = m\<lparr>om_finalizers := om_finalizers m @ [f]\<rparr>"
    and remove_finalizer: "lib_removeFinalizer L m f = m\<lparr>om_finalizers := removeAll f (om_finalizers m)\<rparr>"
    and set_owner: "lib_setOwner L kind own m = Inr m' \<Longrightarrow> m'\<lparr>om_owner := om_owner m\<rparr> = m"
    and set_tree_owner: "lib_setTreeOwner L kind own t = Inr t' \<Longrightarrow> treeContent t' = treeContent t"
    and set_tree_namespace: "treeContent (lib_setTreeNamespace L ns t) = (treeKind t, treeName t, ns, specOf t)"
    and set_tree_version: "treeContent (lib_setTreeVersion L r t) = treeContent t"

context controller_library
begin

lemma set_ownerD:
  assumes "lib_setOwner L kind own m = Inr m'"
  shows "metaKey m' = metaKey m" "alive m' = alive m" "om_labels m' = om_labels m"
    "om_annotations m' = om_annotations m" "om_finalizers m' = om_finalizers m"
  using set_owner [OF assms] by (cases m; cases m'; simp add: metaKey_def alive_def)+

end

definition sampleSetTreeOwner :: "string \<Rightarrow> objmeta \<Rightarrow> json \<Rightarrow> gerror + json" where
  "sampleSetTreeOwner kind own t = Inr (setMetaField ''ownerReferences''
     (JArr [JObj [(''kind'', JStr kind), (''name'', JStr (om_name own))]]) t)"

definition sampleLibrary :: library where
  "sampleLibrary =
     \<lparr>lib_hasFinalizer = (\<lambda>m f. f \<in> set (om_finalizers m)),
      lib_addFinalizer = (\<lambda>m f. if f \<in> set (om_finalizers m) then m
        else m\<lparr>om_finalizers := om_finalizers m @ [f]\<rparr>),
      lib_removeFinalizer = (\<lambda>m f. m\<lparr>om_finalizers := removeAll f (om_finalizers m)\<rparr>),
      lib_setOwner = (\<lambda>kind own m. Inr (m\<lparr>om_owner := Some (kind, om_name own)\<rparr>)),
      lib_setTreeOwner = sampleSetTreeOwner,
      lib_setTreeNamespace = (\<lambda>ns. setMetaField ''namespace'' (JStr ns)),
      lib_treeVersion = (\<lambda>t. om_rv (treeMeta t)),
      lib_setTreeVersion = (\<lambda>r. setMetaField ''resourceVersion'' (JStr r)),
      lib_setCondition = (\<lambda>c cs. filter (\<lambda>d. cond_type d \<noteq> cond_type c) cs @ [c]),
      lib_parseQuantity = Inr, lib_jsonToYAML = Inr, lib_sum256 = (\<lambda>b. take 32 (b @ replicate 32 CHR ''0''))\<rparr>"

interpretation sample_lib: controller_library sampleLibrary
  by unfold_locales
    (auto simp: sampleLibrary_def sampleSetTreeOwner_def treeContent_def)

section \<open>Create or update\<close>

text \<open>
  The step every helper of the controllers takes: read the object, create it when it is absent,
  otherwise write back what the helper makes of the stored one.
\<close>

definition createOrUpdate ::
  "('k, 'o) typed_client \<Rightarrow> nsname \<Rightarrow> ('o \<Rightarrow> 'o) \<Rightarrow> 'o \<Rightarrow> ('k, unit) action" where
  "createOrUpdate c n edit obj s =
     (case tc_get c n s of
        (Inl e, s') \<Rightarrow> if isNotFound e then voidE (tc_create c obj) s' else (Inl e, s')
      | (Inr existing, s') \<Rightarrow> voidE (tc_update c (edit existing)) s')"

definition relabel :: "objmeta \<Rightarrow> objmeta \<Rightarrow> objmeta" where
  "relabel new m = m\<lparr>om_labels := om_labels new\<rparr>"

definition createOrUpdateSecret :: "'k clients \<Rightarrow> secret \<Rightarrow> ('k, unit) action" where
  "createOrUpdateSecret K secret = createOrUpdate (kc_secret K) (metaKey (sec_meta secret))
     (sec_meta_update (relabel (sec_meta secret))) secret"

definition createOrUpdateConfigMapPreserveData :: "'k clients \<Rightarrow> configmap \<Rightarrow> ('k, unit) action" where
  "createOrUpdateConfigMapPreserveData K cm = createOrUpdate (kc_configmap K) (metaKey (cm_meta cm))
     (cm_meta_update (relabel (cm_meta cm))) cm"

definition createOrUpdateUnstructured :: "'k clients \<Rightarrow> library \<Rightarrow> json \<Rightarrow> ('k, unit) action" where
  "createOrUpdateUnstructured K L obj =
     createOrUpdate (kc_tree K (treeKind obj)) (treeNamespace obj, treeName obj)
       (\<lambda>existing. lib_setTreeVersion L (lib_treeVersion L existing) obj) obj"

section \<open>Releasing a model\<close>

text \<open>Both finalizers delete an object they can read; an absent one and a failed read pass.\<close>

definition deleteIfPresent :: "('k, 'o) typed_client \<Rightarrow> nsname \<Rightarrow> ('k, unit) action" where
  "deleteIfPresent c n s =
     (case tc_get c n s of
        (Inl e, s') \<Rightarrow> (Inr (), s')
      | (Inr x, s') \<Rightarrow>
          (case tc_delete c n s' of
             (Inl e, s'') \<Rightarrow> if isNotFound e then (Inr (), s'') else (Inl e, s'')
           | (Inr u, s'') \<Rightarrow> (Inr (), s'')))"

text \<open>A read that fails for another reason than a missing object.\<close>

definition unreadable :: "('k, 'o) typed_client \<Rightarrow> nsname \<Rightarrow> 'k \<Rightarrow> bool" where
  "unreadable c n s = (case fst (tc_get c n s) of Inl e \<Rightarrow> \<not> isNotFound e | Inr x \<Rightarrow> False)"

definition deleteKeyObjects :: "'k clients \<Rightarrow> string \<Rightarrow> string \<Rightarrow> ('k, unit) action" where
  "deleteKeyObjects K ns name =
     bindE (wrapE ''deleting api key secret'' (deleteIfPresent (kc_secret K) (ns, APIKeySecretName name)))
       (\<lambda>u. wrapE ''deleting api key metadata configmap''
         (deleteIfPresent (kc_configmap K) (ns, APIKeyMetadataConfigMapName name)))"

section \<open>Frames and effects\<close>

text \<open>The rules that take a frame through a composed action, applied by \<open>intro\<close>.\<close>

named_theorems keeps_rules

context frame
begin

lemma keeps_if: "(b \<Longrightarrow> keeps R f) \<Longrightarrow> (\<not> b \<Longrightarrow> keeps R g) \<Longrightarrow> keeps R (if b then f else g)"
  by simp

lemma keeps_option:
  "(x = None \<Longrightarrow> keeps R f) \<Longrightarrow> (\<And>a. x = Some a \<Longrightarrow> keeps R (g a)) \<Longrightarrow>
     keeps R (case x of None \<Rightarrow> f | Some a \<Rightarrow> g a)"
  by (cases x) auto

lemma keeps_createOrUpdate:
  assumes "keeps R (tc_get c n)" and "keeps R (tc_create c obj)" and "\<And>x. keeps R (tc_update c (edit x))"
  shows "keeps R (createOrUpdate c n edit obj)"
proof (rule keepsI)
  fix s r s' assume run: "createOrUpdate c n edit obj s = (r, s')"
  obtain q t where g: "tc_get c n s = (q, t)" by fastforce
  with assms(1) have st: "R s t" by (rule keepsD)
  have "keeps R (voidE (tc_create c obj))" "\<And>x. keeps R (voidE (tc_update c (edit x)))"
    using assms(2,3) by blast+
  with run g have "R t s'"
    by (auto simp: createOrUpdate_def refl split: sum.splits if_splits dest: keepsD)
  with st show "R s s'" by (rule trans)
qed

lemma keeps_deleteIfPresent:
  assumes "keeps R (tc_get c n)" and "keeps R (tc_delete c n)"
  shows "keeps R (deleteIfPresent c n)"
proof (rule keepsI)
  fix s r s' assume run: "deleteIfPresent c n s = (r, s')"
  obtain q t where g: "tc_get c n s = (q, t)" by fastforce
  obtain d t' where d: "tc_delete c n t = (d, t')" by fastforce
  from assms(1) g have "R s t" by (rule keepsD)
  moreover from assms(2) d have "R t t'" by (rule keepsD)
  moreover from run g d have "s' = t \<or> s' = t'"
    by (auto simp: deleteIfPresent_def split: sum.splits if_splits)
  ultimately show "R s s'" using trans by blast
qed

lemmas keeps_composed [keeps_rules] = keeps_return keeps_throw keeps_lift keeps_bind keeps_wrap
  keeps_ignore keeps_void keeps_if keeps_option keeps_createOrUpdate keeps_deleteIfPresent

end

text \<open>Over the objects of the kind: at most the object's own key changes, to what was written.\<close>

context kube_kind
begin

lemma createOrUpdate_cases:
  assumes run: "createOrUpdate C n edit obj s = (r, s')"
    and obj: "metaKey (metaOf obj) = n" "alive (metaOf obj)"
    and edit: "\<And>x. metaKey (metaOf x) = n \<Longrightarrow> alive (metaOf x) \<Longrightarrow>
      metaKey (metaOf (edit x)) = n \<and> alive (metaOf (edit x))"
  shows "(view s' = view s \<and> (\<exists>e. r = Inl e)) \<or>
    (\<exists>y. metaKey (metaOf y) = n \<and> view s' = (view s)(n \<mapsto> y) \<and>
      content y = content (case view s n of None \<Rightarrow> obj | Some x \<Rightarrow> edit x))"
proof -
  obtain q t where g: "tc_get C n s = (q, t)" by fastforce
  show ?thesis
  proof (cases q)
    case (Inl e)
    note t = get_err [OF g [unfolded Inl]]
    show ?thesis
    proof (cases "isNotFound e")
      case True
      obtain w u where w: "tc_create C obj t = (w, u)" by fastforce
      with create_ok [of obj t _ u] create_err [of obj t _ u] obj t True
      have "(view u = view s \<and> (\<exists>e. w = Inl e)) \<or>
          (\<exists>y. metaKey (metaOf y) = n \<and> view u = (view s)(n \<mapsto> y) \<and> content y = content obj)"
        by (cases w) auto
      with run g Inl True w t show ?thesis
        by (cases w) (auto simp: createOrUpdate_def voidE_def)
    next
      case False
      with run g Inl t show ?thesis by (auto simp: createOrUpdate_def)
    qed
  next
    case (Inr x)
    from get_ok [OF g [unfolded Inr]] have t: "view s n = Some x" "view t = view s" by auto
    with edit view_key [of s n x] have x: "metaKey (metaOf (edit x)) = n" "alive (metaOf (edit x))" by auto
    obtain w u where w: "tc_update C (edit x) t = (w, u)" by fastforce
    with update_ok [of "edit x" t _ u] update_err [of "edit x" t _ u] x t
    have "(view u = view s \<and> (\<exists>e. w = Inl e)) \<or>
        (\<exists>y. metaKey (metaOf y) = n \<and> view u = (view s)(n \<mapsto> y) \<and> content y = content (edit x))"
      by (cases w) auto
    with run g Inr w t show ?thesis by (cases w) (auto simp: createOrUpdate_def voidE_def)
  qed
qed

end

context kube_deletes
begin

lemma deleteIfPresent_cases:
  assumes run: "deleteIfPresent C n s = (r, s')"
  shows "view s' = view s \<or> gone metaOf (view s) n (view s')"
    and "r = Inr u \<Longrightarrow> gone metaOf (view s) n (view s') \<or>
      (view s' = view s \<and> unreadable C n s)"
proof -
  obtain q t where g: "tc_get C n s = (q, t)" by fastforce
  obtain d t' where d: "tc_delete C n t = (d, t')" by fastforce
  have "(view s' = view s \<or> gone metaOf (view s) n (view s')) \<and> (r = Inr u \<longrightarrow>
      gone metaOf (view s) n (view s') \<or> (view s' = view s \<and> unreadable C n s))"
  proof (cases q)
    case (Inl e)
    with run g get_err [of n s e t] show ?thesis by (auto simp: deleteIfPresent_def gone_def unreadable_def)
  next
    case (Inr x)
    with run g d get_ok [of n s x t] delete_ok [of n t _ t'] delete_err [of n t _ t'] show ?thesis
      by (auto simp: deleteIfPresent_def split: sum.splits if_splits)
  qed
  then show "view s' = view s \<or> gone metaOf (view s) n (view s')"
    and "r = Inr u \<Longrightarrow> gone metaOf (view s) n (view s') \<or>
      (view s' = view s \<and> unreadable C n s)"
    by blast+
qed

end

section \<open>Objects without a Go type\<close>

text \<open>What identifies such an object, and that the server holds it with the contents wanted.\<close>

definition treeIdent :: "json \<Rightarrow> string \<times> nsname" where
  "treeIdent t = (treeKind t, treeNamespace t, treeName t)"

definition applied :: "('k \<Rightarrow> string \<Rightarrow> nsname \<Rightarrow> json option) \<Rightarrow> 'k \<Rightarrow> json \<Rightarrow> bool" where
  "applied viewT s t \<longleftrightarrow> (\<exists>y. viewT s (treeKind t) (treeNamespace t, treeName t) = Some y \<and>
     treeContent y = treeContent t)"

locale tree_cluster =
  fixes T :: "string \<Rightarrow> ('k, json) typed_client"
    and viewT :: "'k \<Rightarrow> string \<Rightarrow> nsname \<Rightarrow> json option"
  assumes tree_kind: "kube_kind (T kind) (\<lambda>s. viewT s kind) treeMeta treeContent"
    and tree_apart: "kind' \<noteq> kind \<Longrightarrow> unaffected (\<lambda>s. viewT s kind') (T kind)"

lemma treeMeta_simps [simp]:
  "metaKey (treeMeta t) = (treeNamespace t, treeName t)" "alive (treeMeta t)"
  by (simp_all add: treeMeta_def newMeta_def metaKey_def alive_def)

locale tree_controller = tree_cluster "kc_tree K" viewT + controller_library L
  for K :: "'k clients" and L :: library and viewT
begin

lemma createOrUpdateUnstructured_effect:
  assumes run: "createOrUpdateUnstructured K L t s = (q, s')"
  shows "(q = Inr u \<longrightarrow> applied viewT s' t) \<and>
    (\<forall>kind n. (kind, n) \<noteq> treeIdent t \<longrightarrow> viewT s' kind n = viewT s kind n)"
proof -
  let ?k = "treeKind t" and ?n = "(treeNamespace t, treeName t)"
  let ?edit = "\<lambda>existing. lib_setTreeVersion L (lib_treeVersion L existing) t"
  have content: "treeContent (?edit x) = treeContent t" for x by (rule set_tree_version)
  then have key: "treeNamespace (?edit x) = treeNamespace t" "treeName (?edit x) = treeName t" for x
    by (simp_all add: treeContent_def)
  from run have cou: "createOrUpdate (kc_tree K ?k) ?n ?edit t s = (q, s')"
    by (simp add: createOrUpdateUnstructured_def)
  have "(viewT s' ?k = viewT s ?k \<and> (\<exists>e. q = Inl e)) \<or>
      (\<exists>y. metaKey (treeMeta y) = ?n \<and> viewT s' ?k = (viewT s ?k)(?n \<mapsto> y) \<and>
        treeContent y = treeContent (case viewT s ?k ?n of None \<Rightarrow> t | Some x \<Rightarrow> ?edit x))"
    by (rule kube_kind.createOrUpdate_cases [OF tree_kind cou]) (simp_all add: key)
  then have own: "(q = Inr u \<longrightarrow> applied viewT s' t) \<and> (\<forall>n. n \<noteq> ?n \<longrightarrow> viewT s' ?k n = viewT s ?k n)"
    by (auto simp: applied_def content simp del: split_paired_All split: option.splits if_splits)
  have other: "viewT s' k = viewT s k" if "k \<noteq> ?k" for k
  proof -
    have "keeps (same (\<lambda>s. viewT s k)) (createOrUpdate (kc_tree K ?k) ?n ?edit t)"
      by (rule frame.keeps_createOrUpdate) (auto intro!: frame.intro simp: same_def
          intro: clientKeepsD [OF iffD1 [OF unaffected_def tree_apart [OF that]]])
    from keeps_sameD [OF this cou] show ?thesis .
  qed
  show ?thesis
  proof (intro conjI allI impI)
    fix kind n assume "(kind, n) \<noteq> treeIdent t"
    then show "viewT s' kind n = viewT s kind n"
      using own other [of kind]
      by (cases "kind = ?k") (auto simp: treeIdent_def simp del: split_paired_All)
  qed (use own in blast)
qed

lemma applied_frame:
  "applied viewT s t \<Longrightarrow> viewT s' (treeKind t) (treeNamespace t, treeName t) =
     viewT s (treeKind t) (treeNamespace t, treeName t) \<Longrightarrow> applied viewT s' t"
  by (simp add: applied_def)

end

section \<open>Issued keys\<close>

text \<open>
  The credentials and the metadata at a name, none while the object is missing. A step keeps the
  keys outside \<open>E\<close> when it changes neither and removes no object that holds them.
\<close>

definition dataOf :: "(nsname \<Rightarrow> secret option) \<Rightarrow> nsname \<Rightarrow> bytes gomap" where
  "dataOf v n = (case v n of None \<Rightarrow> [] | Some x \<Rightarrow> sec_data x)"

definition metadataOf :: "(nsname \<Rightarrow> configmap option) \<Rightarrow> nsname \<Rightarrow> string gomap" where
  "metadataOf v n = (case v n of None \<Rightarrow> [] | Some x \<Rightarrow> cm_data x)"

definition isKeyMetadata :: "nsname \<Rightarrow> bool" where
  "isKeyMetadata n = hasSuffix (snd n) ''-api-key-metadata''"

definition keysKept ::
  "('k \<Rightarrow> nsname \<Rightarrow> secret option) \<Rightarrow> ('k \<Rightarrow> nsname \<Rightarrow> configmap option) \<Rightarrow> nsname set \<Rightarrow>
   'k \<Rightarrow> 'k \<Rightarrow> bool" where
  "keysKept viewS viewM E s s' \<longleftrightarrow> (\<forall>n. n \<notin> E \<longrightarrow>
     dataOf (viewS s') n = dataOf (viewS s) n \<and> (viewS s n \<noteq> None \<longrightarrow> viewS s' n \<noteq> None) \<and>
     (isKeyMetadata n \<longrightarrow>
       metadataOf (viewM s') n = metadataOf (viewM s) n \<and> (viewM s n \<noteq> None \<longrightarrow> viewM s' n \<noteq> None)))"

definition keyObjects :: "nsname \<Rightarrow> nsname set" where
  "keyObjects req = {(fst req, APIKeySecretName (snd req)), (fst req, APIKeyMetadataConfigMapName (snd req))}"

text \<open>
  The cluster as the controllers assume it: the documented behaviour of Secrets and ConfigMaps,
  and no call for another kind touches either.
\<close>

locale controller_cluster =
  S: kube_deletes "kc_secret K" viewS sec_meta secretContent +
  M: kube_deletes "kc_configmap K" viewM cm_meta configmapContent +
  controller_library L
  for K :: "'k clients" and L :: library and viewS viewM +
  assumes quiet_llmmodel: "unaffected (\<lambda>s. (viewS s, viewM s)) (kc_llmmodel K)"
    and quiet_passthrough: "unaffected (\<lambda>s. (viewS s, viewM s)) (kc_passthrough K)"
    and quiet_pvc: "unaffected (\<lambda>s. (viewS s, viewM s)) (kc_pvc K)"
    and quiet_networkpolicy: "unaffected (\<lambda>s. (viewS s, viewM s)) (kc_networkpolicy K)"
    and quiet_serviceaccount: "unaffected (\<lambda>s. (viewS s, viewM s)) (kc_serviceaccount K)"
    and quiet_service: "unaffected (\<lambda>s. (viewS s, viewM s)) (kc_service K)"
    and quiet_deployment: "unaffected (\<lambda>s. (viewS s, viewM s)) (kc_deployment K)"
    and quiet_role: "unaffected (\<lambda>s. (viewS s, viewM s)) (kc_role K)"
    and quiet_rolebinding: "unaffected (\<lambda>s. (viewS s, viewM s)) (kc_rolebinding K)"
    and quiet_pod: "unaffected (\<lambda>s. (viewS s, viewM s)) (kc_pod K)"
    and quiet_tree: "unaffected (\<lambda>s. (viewS s, viewM s)) (kc_tree K kind)"
    and secret_quiet: "unaffected viewM (kc_secret K)"
    and configmap_quiet: "unaffected viewS (kc_configmap K)"
begin

sublocale keys: frame "keysKept viewS viewM E" for E
  by unfold_locales (auto simp: keysKept_def)

lemma views_keep: "viewS s' = viewS s \<Longrightarrow> viewM s' = viewM s \<Longrightarrow> keysKept viewS viewM E s s'"
  by (simp add: keysKept_def)

lemma quiet_keeps: "unaffected (\<lambda>s. (viewS s, viewM s)) c \<Longrightarrow> clientKeeps (keysKept viewS viewM E) c"
  by (rule unaffected_keeps) (auto intro: views_keep)

lemmas keeps_clients [keeps_rules] =
  clientKeepsD [OF quiet_keeps [OF quiet_llmmodel]] clientKeepsD [OF quiet_keeps [OF quiet_passthrough]]
  clientKeepsD [OF quiet_keeps [OF quiet_pvc]] clientKeepsD [OF quiet_keeps [OF quiet_networkpolicy]]
  clientKeepsD [OF quiet_keeps [OF quiet_serviceaccount]] clientKeepsD [OF quiet_keeps [OF quiet_service]]
  clientKeepsD [OF quiet_keeps [OF quiet_deployment]] clientKeepsD [OF quiet_keeps [OF quiet_role]]
  clientKeepsD [OF quiet_keeps [OF quiet_rolebinding]] clientKeepsD [OF quiet_keeps [OF quiet_pod]]
  clientKeepsD [OF quiet_keeps [OF quiet_tree]]

lemma keeps_reads [keeps_rules]:
  "keeps (keysKept viewS viewM E) (tc_get (kc_secret K) n)"
  "keeps (keysKept viewS viewM E) (tc_list (kc_secret K) ns sel)"
  "keeps (keysKept viewS viewM E) (tc_get (kc_configmap K) n)"
  by (auto intro!: keepsI views_keep dest: S.get_view S.list_view M.get_view
      quietD [OF secret_quiet] quietD [OF configmap_quiet])

lemma keeps_clientIDs [keeps_rules]: "keeps (keysKept viewS viewM E) (apiKeyClientIDs (kc_secret K) mn ns)"
  by (auto simp: apiKeyClientIDs_def keeps_def split: prod.splits sum.splits
      dest: keepsD [OF keeps_reads(1)])

lemma keeps_secretNames [keeps_rules]:
  "keeps (keysKept viewS viewM E) (apiKeySecretNamesWith (kc_secret K) ns own)"
  by (auto simp: apiKeySecretNamesWith_def keeps_def split: prod.splits sum.splits
      dest: keepsD [OF keeps_reads(2)])

text \<open>The Secret of a model is created empty and afterwards only relabelled.\<close>

lemma keeps_createOrUpdateSecret:
  assumes "sec_data x = []" and "alive (sec_meta x)"
  shows "keeps (keysKept viewS viewM E) (createOrUpdateSecret K x)"
proof (rule keepsI)
  fix s r s' assume run: "createOrUpdateSecret K x s = (r, s')"
  have m: "viewM s' = viewM s"
  proof -
    have "keeps (same viewM) (createOrUpdateSecret K x)"
      unfolding createOrUpdateSecret_def
      by (rule frame.keeps_createOrUpdate) (auto intro!: frame.intro simp: same_def
          intro: clientKeepsD [OF iffD1 [OF unaffected_def secret_quiet]])
    with run show ?thesis by (auto dest: keeps_sameD)
  qed
  let ?n = "metaKey (sec_meta x)"
  from run have "(viewS s' = viewS s \<and> (\<exists>e. r = Inl e)) \<or>
      (\<exists>y. metaKey (sec_meta y) = ?n \<and> viewS s' = (viewS s)(?n \<mapsto> y) \<and> secretContent y =
        secretContent (case viewS s ?n of None \<Rightarrow> x | Some z \<Rightarrow> sec_meta_update (relabel (sec_meta x)) z))"
    unfolding createOrUpdateSecret_def
    by (rule S.createOrUpdate_cases) (use assms in \<open>auto simp: relabel_def metaKey_def alive_def\<close>)
  then show "keysKept viewS viewM E s s'"
  proof (elim disjE exE conjE)
    fix y assume v: "viewS s' = (viewS s)(?n \<mapsto> y)" and c: "secretContent y = secretContent
      (case viewS s ?n of None \<Rightarrow> x | Some z \<Rightarrow> sec_meta_update (relabel (sec_meta x)) z)"
    have "sec_data y = dataOf (viewS s) ?n"
      using secretContent_eqD [OF c] assms(1) by (simp add: dataOf_def split: option.splits)
    with v m show ?thesis by (auto simp: keysKept_def dataOf_def)
  qed (use m in \<open>simp add: views_keep\<close>)
qed

lemma keeps_cm_frame:
  "keeps (same viewS) (createOrUpdate (kc_configmap K) n edit cm)"
  by (rule frame.keeps_createOrUpdate) (auto intro!: frame.intro simp: same_def
      intro: clientKeepsD [OF iffD1 [OF unaffected_def configmap_quiet]])

lemma keeps_createOrUpdateConfigMapPreserveData:
  assumes "cm_data x = []" and "alive (cm_meta x)"
  shows "keeps (keysKept viewS viewM E) (createOrUpdateConfigMapPreserveData K x)"
proof (rule keepsI)
  fix s r s' assume run: "createOrUpdateConfigMapPreserveData K x s = (r, s')"
  then have m: "viewS s' = viewS s"
    unfolding createOrUpdateConfigMapPreserveData_def by (rule keeps_sameD [OF keeps_cm_frame])
  let ?n = "metaKey (cm_meta x)"
  from run have "(viewM s' = viewM s \<and> (\<exists>e. r = Inl e)) \<or>
      (\<exists>y. metaKey (cm_meta y) = ?n \<and> viewM s' = (viewM s)(?n \<mapsto> y) \<and> configmapContent y =
        configmapContent (case viewM s ?n of None \<Rightarrow> x | Some z \<Rightarrow> cm_meta_update (relabel (cm_meta x)) z))"
    unfolding createOrUpdateConfigMapPreserveData_def
    by (rule M.createOrUpdate_cases) (use assms in \<open>auto simp: relabel_def metaKey_def alive_def\<close>)
  then show "keysKept viewS viewM E s s'"
  proof (elim disjE exE conjE)
    fix y assume v: "viewM s' = (viewM s)(?n \<mapsto> y)" and c: "configmapContent y = configmapContent
      (case viewM s ?n of None \<Rightarrow> x | Some z \<Rightarrow> cm_meta_update (relabel (cm_meta x)) z)"
    have "cm_data y = metadataOf (viewM s) ?n"
      using configmapContent_eqD [OF c] assms(1) by (simp add: metadataOf_def split: option.splits)
    with v m show ?thesis by (auto simp: keysKept_def metadataOf_def)
  qed (use m in \<open>simp add: views_keep\<close>)
qed

text \<open>Any other ConfigMap may be rewritten.\<close>

lemma keeps_other_configmap:
  assumes "metaKey (cm_meta x) = n" and "alive (cm_meta x)" and "\<not> isKeyMetadata n"
    and "\<And>z. metaKey (cm_meta z) = n \<Longrightarrow> alive (cm_meta z) \<Longrightarrow>
      metaKey (cm_meta (edit z)) = n \<and> alive (cm_meta (edit z))"
  shows "keeps (keysKept viewS viewM E) (createOrUpdate (kc_configmap K) n edit x)"
proof (rule keepsI)
  fix s r s' assume run: "createOrUpdate (kc_configmap K) n edit x s = (r, s')"
  then have "viewS s' = viewS s" by (rule keeps_sameD [OF keeps_cm_frame])
  moreover have "viewM s' = viewM s \<or> (\<exists>y. viewM s' = (viewM s)(n \<mapsto> y))"
    using M.createOrUpdate_cases [OF run assms(1,2,4)] by blast
  ultimately show "keysKept viewS viewM E s s'"
    using assms(3) by (auto simp: keysKept_def metadataOf_def)
qed

text \<open>A finalizer deletes nothing but the objects of its own model.\<close>

lemma gone_other: "gone f v n v' \<Longrightarrow> k \<noteq> n \<Longrightarrow> v' k = v k"
  unfolding gone_def by blast

lemma keeps_deleteKeyObjects [keeps_rules]:
  "keeps (keysKept viewS viewM (keyObjects (ns, mn))) (deleteKeyObjects K ns mn)"
proof -
  have "keeps (keysKept viewS viewM (keyObjects (ns, mn))) (deleteIfPresent (kc_secret K) (ns, APIKeySecretName mn))"
  proof (rule keepsI)
    fix s r s' assume run: "deleteIfPresent (kc_secret K) (ns, APIKeySecretName mn) s = (r, s')"
    have "keeps (same viewM) (deleteIfPresent (kc_secret K) (ns, APIKeySecretName mn))"
      by (rule frame.keeps_deleteIfPresent) (auto intro!: frame.intro simp: same_def
          intro: clientKeepsD [OF iffD1 [OF unaffected_def secret_quiet]])
    with run have "viewM s' = viewM s" by (auto dest: keeps_sameD)
    moreover have "viewS s' k = viewS s k" if "k \<noteq> (ns, APIKeySecretName mn)" for k
      using S.deleteIfPresent_cases(1) [OF run] gone_other that by metis
    ultimately show "keysKept viewS viewM (keyObjects (ns, mn)) s s'"
      by (simp add: keysKept_def keyObjects_def dataOf_def del: split_paired_All)
  qed
  moreover have "keeps (keysKept viewS viewM (keyObjects (ns, mn)))
      (deleteIfPresent (kc_configmap K) (ns, APIKeyMetadataConfigMapName mn))"
  proof (rule keepsI)
    fix s r s' assume run: "deleteIfPresent (kc_configmap K) (ns, APIKeyMetadataConfigMapName mn) s = (r, s')"
    have "keeps (same viewS) (deleteIfPresent (kc_configmap K) (ns, APIKeyMetadataConfigMapName mn))"
      by (rule frame.keeps_deleteIfPresent) (auto intro!: frame.intro simp: same_def
          intro: clientKeepsD [OF iffD1 [OF unaffected_def configmap_quiet]])
    with run have "viewS s' = viewS s" by (auto dest: keeps_sameD)
    moreover have "viewM s' k = viewM s k" if "k \<noteq> (ns, APIKeyMetadataConfigMapName mn)" for k
      using M.deleteIfPresent_cases(1) [OF run] gone_other that by metis
    ultimately show "keysKept viewS viewM (keyObjects (ns, mn)) s s'"
      by (simp add: keysKept_def keyObjects_def dataOf_def metadataOf_def del: split_paired_All)
  qed
  ultimately show ?thesis unfolding deleteKeyObjects_def by blast
qed

text \<open>
  After a successful clean-up both objects are gone (or marked, when something else holds a
  finalizer on them), unless one could not be read: then it is left as it is.
\<close>

lemma deleteKeyObjects_effect:
  assumes run: "deleteKeyObjects K ns mn s = (Inr u, s')"
  shows "gone sec_meta (viewS s) (ns, APIKeySecretName mn) (viewS s') \<or>
      (viewS s' = viewS s \<and> unreadable (kc_secret K) (ns, APIKeySecretName mn) s)"
    and "gone cm_meta (viewM s) (ns, APIKeyMetadataConfigMapName mn) (viewM s') \<or>
      (viewM s' = viewM s \<and> unreadable (kc_configmap K) (ns, APIKeyMetadataConfigMapName mn)
        (snd (deleteIfPresent (kc_secret K) (ns, APIKeySecretName mn) s)))"
proof -
  from run obtain v t where 1: "deleteIfPresent (kc_secret K) (ns, APIKeySecretName mn) s = (Inr v, t)"
    and 2: "deleteIfPresent (kc_configmap K) (ns, APIKeyMetadataConfigMapName mn) t = (Inr u, s')"
    by (auto simp: deleteKeyObjects_def bindE_Inr wrapE_Inr)
  have "keeps (same viewM) (deleteIfPresent (kc_secret K) (ns, APIKeySecretName mn))"
    by (rule frame.keeps_deleteIfPresent) (auto intro!: frame.intro simp: same_def
        intro: clientKeepsD [OF iffD1 [OF unaffected_def secret_quiet]])
  with 1 have m: "viewM t = viewM s" by (auto dest: keeps_sameD)
  have "keeps (same viewS) (deleteIfPresent (kc_configmap K) (ns, APIKeyMetadataConfigMapName mn))"
    by (rule frame.keeps_deleteIfPresent) (auto intro!: frame.intro simp: same_def
        intro: clientKeepsD [OF iffD1 [OF unaffected_def configmap_quiet]])
  with 2 have v: "viewS s' = viewS t" by (auto dest: keeps_sameD)
  show "gone sec_meta (viewS s) (ns, APIKeySecretName mn) (viewS s') \<or>
      (viewS s' = viewS s \<and> unreadable (kc_secret K) (ns, APIKeySecretName mn) s)"
    using S.deleteIfPresent_cases(2) [OF 1, of v] unfolding v by simp
  show "gone cm_meta (viewM s) (ns, APIKeyMetadataConfigMapName mn) (viewM s') \<or>
      (viewM s' = viewM s \<and> unreadable (kc_configmap K) (ns, APIKeyMetadataConfigMapName mn)
        (snd (deleteIfPresent (kc_secret K) (ns, APIKeySecretName mn) s)))"
    using M.deleteIfPresent_cases(2) [OF 2, of u] unfolding m 1 snd_conv by simp
qed

end

section \<open>On the reference server\<close>

definition clusterClients :: "cluster clients" where
  "clusterClients =
     \<lparr>kc_llmmodel = llmmodelClient, kc_passthrough = passthroughClient, kc_secret = secretClient,
      kc_configmap = configmapClient, kc_pvc = pvcClient, kc_networkpolicy = networkpolicyClient,
      kc_serviceaccount = serviceaccountClient, kc_service = serviceClient,
      kc_deployment = deploymentClient, kc_role = roleClient, kc_rolebinding = rolebindingClient,
      kc_pod = podClient, kc_tree = treeClient\<rparr>"

lemma clusterClients_simps [simp]:
  "kc_llmmodel clusterClients = llmmodelClient" "kc_passthrough clusterClients = passthroughClient"
  "kc_secret clusterClients = secretClient" "kc_configmap clusterClients = configmapClient"
  "kc_pvc clusterClients = pvcClient" "kc_networkpolicy clusterClients = networkpolicyClient"
  "kc_serviceaccount clusterClients = serviceaccountClient" "kc_service clusterClients = serviceClient"
  "kc_deployment clusterClients = deploymentClient" "kc_role clusterClients = roleClient"
  "kc_rolebinding clusterClients = rolebindingClient" "kc_pod clusterClients = podClient"
  "kc_tree clusterClients = treeClient"
  by (simp_all add: clusterClients_def)

definition clusterReconciler :: "OperatorConfig \<Rightarrow> cluster Reconciler" where
  "clusterReconciler cfg =
     \<lparr>rc_client = clusterClients, rc_library = sampleLibrary, rc_Config = cfg, rc_environ = []\<rparr>"

lemma clusterReconciler_simps [simp]:
  "rc_client (clusterReconciler cfg) = clusterClients" "rc_library (clusterReconciler cfg) = sampleLibrary"
  "rc_Config (clusterReconciler cfg) = cfg" "rc_environ (clusterReconciler cfg) = []"
  by (simp_all add: clusterReconciler_def)

interpretation ctl: controller_cluster clusterClients sampleLibrary secretsAt configmapsAt
proof (intro controller_cluster.intro controller_cluster_axioms.intro)
  show "kube_deletes (kc_secret clusterClients) secretsAt sec_meta secretContent"
    using secret_store.kube_deletes_axioms by (simp add: secretClient_def secretsAt_def [abs_def])
  show "kube_deletes (kc_configmap clusterClients) configmapsAt cm_meta configmapContent"
    using configmap_store.kube_deletes_axioms by (simp add: configmapClient_def configmapsAt_def [abs_def])
  show "controller_library sampleLibrary" by (rule sample_lib.controller_library_axioms)
qed (unfold clusterClients_simps, (rule unaffected_rules; simp add: at_defs tick_def)+)

interpretation cluster_trees: tree_controller clusterClients sampleLibrary treesAt
proof (intro tree_controller.intro tree_cluster.intro)
  fix kind
  show "kube_kind (kc_tree clusterClients kind) (\<lambda>s. treesAt s kind) treeMeta treeContent"
    using tree_store.kube_kind_axioms [of kind] by (simp add: treeClient_def treesAt_def [abs_def])
next
  fix kind' kind :: string
  assume "kind' \<noteq> kind"
  then show "unaffected (\<lambda>s. treesAt s kind') (kc_tree clusterClients kind)"
    unfolding clusterClients_simps by (intro unaffected_rules) (simp_all add: at_defs tick_def)
qed (rule sample_lib.controller_library_axioms)

end
