(* ===== verification/TlsSingleton.thy ===== *)
theory TlsSingleton
  imports Controllers ClusterTLS
begin

text \<open>
  \<open>operator/internal/controller/clustertls_singleton.go\<close>: the resync pass over the objects behind
  the shared host names: the certificate, the grants for the namespaces of the Gateways, and the
  HTTPS listeners. The accessors of unstructured trees are arguments.
\<close>

section \<open>Comparing specs\<close>

text \<open>
  Maps and slices are walked, everything else is compared by its text. A \<open>[]string\<close> is not a
  \<open>[]interface{}\<close>, so it falls under the last case.
\<close>

lemma zip_size: "(x, y) \<in> set (zip xs ys) \<Longrightarrow> size x < Suc (size_list size xs)"
  by (drule set_zip_leftD) (simp add: size_list_estimation less_Suc_eq_le size_list_estimation')

lemma pair_size: "(k, v) \<in> set m \<Longrightarrow> size v < size_list (size_prod (\<lambda>x. 0) size) m"
  by (induction m) auto

function valueEqual :: "json \<Rightarrow> json \<Rightarrow> bool"
  and nestedSpecsEqual :: "(string \<times> json) list \<Rightarrow> (string \<times> json) list \<Rightarrow> bool" where
  "valueEqual a b =
     (case a of
        JObj am \<Rightarrow> (case b of JObj bm \<Rightarrow> nestedSpecsEqual am bm | _ \<Rightarrow> False)
      | JArr xs \<Rightarrow> (case b of JArr ys \<Rightarrow> length xs = length ys \<and> list_all (\<lambda>(x, y). valueEqual x y) (zip xs ys)
          | _ \<Rightarrow> False)
      | _ \<Rightarrow> fmtV a = fmtV b)"
| "nestedSpecsEqual am bm \<longleftrightarrow> length am = length bm \<and>
     list_all (\<lambda>(k, av). case map_of bm k of None \<Rightarrow> False | Some bv \<Rightarrow> valueEqual av bv) am"
  by pat_completeness auto

termination
  by (relation "measure (case_sum (\<lambda>(a, b). size a) (\<lambda>(am, bm). size_list (size_prod (\<lambda>x. 0) size) am))")
    (auto simp: zip_size pair_size)

section \<open>The pass\<close>

record tls_library =
  tl_getListeners :: get_slice
  tl_setListeners :: set_slice
  tl_nestedSpec :: "json \<Rightarrow> (string \<times> json) list"
  tl_setSpec :: "(string \<times> json) list \<Rightarrow> json \<Rightarrow> gerror + json"
  tl_isNoMatch :: "gerror \<Rightarrow> bool"

record 'k ClusterTLSSingleton =
  ts_Client :: "string \<Rightarrow> ('k, json) typed_client"
  ts_library :: tls_library
  ts_Config :: "OperatorConfig option"
  ts_Interval :: int

declare valueEqual.simps [simp del]

text \<open>Durations are milliseconds.\<close>

definition defaultClusterTLSResyncInterval :: int where "defaultClusterTLSResyncInterval = 300000"

definition NeedLeaderElection :: bool where "NeedLeaderElection = True"

definition sharedSecretName :: "OperatorConfig \<Rightarrow> string" where
  "sharedSecretName cfg = (if cfg_TLSSecretName cfg \<noteq> [] then cfg_TLSSecretName cfg else SharedTLSSecretName)"

definition distinctGatewayNamespaces :: "OperatorConfig \<Rightarrow> string list" where
  "distinctGatewayNamespaces cfg =
     (if cfg_ExternalGatewayNS cfg = cfg_InternalGatewayNS cfg then [cfg_ExternalGatewayNS cfg]
      else [cfg_ExternalGatewayNS cfg, cfg_InternalGatewayNS cfg])"

definition nsnameText :: "nsname \<Rightarrow> string" where "nsnameText n = fst n @ ''/'' @ snd n"

definition tlsCreateOrUpdateUnstructured :: "'k ClusterTLSSingleton \<Rightarrow> json \<Rightarrow> ('k, unit) action" where
  "tlsCreateOrUpdateUnstructured r desired s =
     (let L = ts_library r; c = ts_Client r (treeKind desired); n = (treeNamespace desired, treeName desired);
          what = treeKind desired @ '' '' @ nsnameText n; spec = tl_nestedSpec L desired
      in case tc_get c n s of
           (Inl e, s') \<Rightarrow>
             if isNotFound e then voidE (wrapE (''creating '' @ what) (tc_create c desired)) s'
             else (Inl (wrapErr (''getting '' @ what) e), s')
         | (Inr current, s') \<Rightarrow>
             if nestedSpecsEqual spec (tl_nestedSpec L current) then (Inr (), s')
             else (case tl_setSpec L spec current of
                 Inl e \<Rightarrow> (Inl (wrapErr ''setting spec'' e), s')
               | Inr t \<Rightarrow> voidE (wrapE (''updating '' @ what) (tc_update c t)) s'))"

definition ensureCertificate :: "'k ClusterTLSSingleton \<Rightarrow> OperatorConfig \<Rightarrow> ('k, unit) action" where
  "ensureCertificate r cfg =
     bindE (liftE (BuildSharedCertificate (cfg_BaseDomain cfg) (cfg_OperatorNamespace cfg) (cfg_ClusterIssuerName cfg)))
       (tlsCreateOrUpdateUnstructured r)"

definition ensureReferenceGrant :: "'k ClusterTLSSingleton \<Rightarrow> OperatorConfig \<Rightarrow> string \<Rightarrow> ('k, unit) action" where
  "ensureReferenceGrant r cfg fromNamespace = tlsCreateOrUpdateUnstructured r
     (BuildSecretReferenceGrant fromNamespace (cfg_OperatorNamespace cfg) (sharedSecretName cfg))"

definition deleteManagedCertificate :: "'k ClusterTLSSingleton \<Rightarrow> OperatorConfig \<Rightarrow> ('k, unit) action" where
  "deleteManagedCertificate r cfg s =
     (case tc_delete (ts_Client r ''Certificate'') (cfg_OperatorNamespace cfg, SharedTLSCertificateName) s of
        (Inl e, s') \<Rightarrow> if isNotFound e \<or> tl_isNoMatch (ts_library r) e then (Inr (), s') else (Inl e, s')
      | (Inr u, s') \<Rightarrow> (Inr (), s'))"

text \<open>The check of the user's Secret only logs.\<close>

definition checkUserSecret :: "'k ClusterTLSSingleton \<Rightarrow> OperatorConfig \<Rightarrow> ('k, unit) action" where
  "checkUserSecret r cfg =
     ignoreE (tc_get (ts_Client r ''Secret'') (cfg_OperatorNamespace cfg, cfg_TLSSecretName cfg))"

definition patchGatewayListener ::
  "'k ClusterTLSSingleton \<Rightarrow> OperatorConfig \<Rightarrow> string \<Rightarrow> string \<Rightarrow> string \<Rightarrow> string \<Rightarrow> ('k, unit) action" where
  "patchGatewayListener r cfg gatewayName gatewayNamespace listenerName hostname s =
     (let L = ts_library r; c = ts_Client r ''Gateway''; n = (gatewayNamespace, gatewayName)
      in case tc_get c n s of
           (Inl e, s') \<Rightarrow>
             if isNotFound e then (Inr (), s') else (Inl (wrapErr (''getting Gateway '' @ nsnameText n) e), s')
         | (Inr gw, s') \<Rightarrow>
             (case MergeHTTPSListener (tl_getListeners L) (tl_setListeners L) (Some gw) listenerName hostname
                 (sharedSecretName cfg) (cfg_OperatorNamespace cfg) of
                Inl e \<Rightarrow> (Inl (wrapErr ''merging listener'' e), s')
              | Inr (changed, gw') \<Rightarrow>
                  if \<not> changed then (Inr (), s')
                  else voidE (wrapE (''updating Gateway '' @ nsnameText n) (tc_update c gw')) s'))"

definition ensureTLSSource :: "'k ClusterTLSSingleton \<Rightarrow> OperatorConfig \<Rightarrow> ('k, unit) action" where
  "ensureTLSSource r cfg =
     (if cfg_TLSSecretName cfg \<noteq> []
      then bindE (wrapE ''deleting managed Certificate after switch to user-provided TLS secret''
          (deleteManagedCertificate r cfg)) (\<lambda>u. checkUserSecret r cfg)
      else wrapE ''ensuring Certificate'' (ensureCertificate r cfg))"

fun ensureGrants :: "'k ClusterTLSSingleton \<Rightarrow> OperatorConfig \<Rightarrow> string list \<Rightarrow> ('k, unit) action" where
  "ensureGrants r cfg [] = returnE ()"
| "ensureGrants r cfg (ns # nss) =
     (if ns = cfg_OperatorNamespace cfg then ensureGrants r cfg nss
      else bindE (wrapE (''ensuring ReferenceGrant from '' @ ns) (ensureReferenceGrant r cfg ns))
        (\<lambda>u. ensureGrants r cfg nss))"

definition patchExternal :: "'k ClusterTLSSingleton \<Rightarrow> OperatorConfig \<Rightarrow> ('k, unit) action" where
  "patchExternal r cfg = wrapE ''patching external Gateway listener''
     (patchGatewayListener r cfg (cfg_ExternalGatewayName cfg) (cfg_ExternalGatewayNS cfg)
       ExternalHTTPSListenerName (SharedExternalHostname (cfg_BaseDomain cfg)))"

definition patchInternal :: "'k ClusterTLSSingleton \<Rightarrow> OperatorConfig \<Rightarrow> ('k, unit) action" where
  "patchInternal r cfg = wrapE ''patching internal Gateway listener''
     (patchGatewayListener r cfg (cfg_InternalGatewayName cfg) (cfg_InternalGatewayNS cfg)
       InternalHTTPSListenerName (SharedInternalHostname (cfg_BaseDomain cfg)))"

definition ReconcileTLS :: "'k ClusterTLSSingleton \<Rightarrow> ('k, unit) action" where
  "ReconcileTLS r =
     (case ts_Config r of
        None \<Rightarrow> throwE (errorf ''operator config is nil'')
      | Some cfg \<Rightarrow>
          if cfg_BaseDomain cfg = [] then returnE ()
          else if cfg_OperatorNamespace cfg = [] then returnE ()
          else bindE (ensureTLSSource r cfg)
            (\<lambda>u. bindE (ensureGrants r cfg (distinctGatewayNamespaces cfg))
            (\<lambda>u. if \<not> cfg_ManageSharedListeners cfg then returnE ()
              else bindE (patchExternal r cfg) (\<lambda>u. patchInternal r cfg))))"

text \<open>The runnable: a pass at once and one per tick until the context is done; it never fails.\<close>

definition tickInterval :: "'k ClusterTLSSingleton \<Rightarrow> int" where
  "tickInterval r = (if ts_Interval r = 0 then defaultClusterTLSResyncInterval else ts_Interval r)"

fun startTLS :: "'k ClusterTLSSingleton \<Rightarrow> nat \<Rightarrow> ('k, unit) action" where
  "startTLS r 0 = ignoreE (ReconcileTLS r)"
| "startTLS r (Suc ticks) = bindE (startTLS r ticks) (\<lambda>u. ignoreE (ReconcileTLS r))"

section \<open>The cluster\<close>

text \<open>
  Besides the behaviour of the tree clients: the accessors read and write the fields they name and
  nothing else, the listeners depend on the spec only, and a deletion concerns one object. What a
  deleted object leaves behind (a mark, while something holds a finalizer) is left open.
\<close>

locale tls_cluster = tree_cluster T viewT + nested_slice "tl_getListeners L" "tl_setListeners L"
  for T :: "string \<Rightarrow> ('k, json) typed_client" and L :: tls_library and viewT +
  assumes get_spec: "specOf g = specOf g' \<Longrightarrow> tl_getListeners L g = tl_getListeners L g'"
    and nested_spec: "tl_nestedSpec L t = (case specOf t of Some (JObj m) \<Rightarrow> m | _ \<Rightarrow> [])"
    and set_spec: "tl_setSpec L m t = Inr t' \<Longrightarrow>
      treeContent t' = (treeKind t, treeName t, treeNamespace t, Some (JObj m))"
    and tree_delete: "tc_delete (T kind) n s = (q, s') \<Longrightarrow>
      (\<forall>k. k \<noteq> n \<longrightarrow> viewT s' kind k = viewT s kind k) \<and> (viewT s kind n = None \<longrightarrow> viewT s' kind = viewT s kind)"

text \<open>A tree stored at a place of the view.\<close>

definition setTree ::
  "(string \<Rightarrow> nsname \<Rightarrow> json option) \<Rightarrow> string \<Rightarrow> nsname \<Rightarrow> json \<Rightarrow> string \<Rightarrow> nsname \<Rightarrow> json option" where
  "setTree v kind n y = v(kind := (v kind)(n \<mapsto> y))"

lemma setTree_simps [simp]:
  "setTree v kind n y kind n = Some y"
  "(k, i) \<noteq> (kind, n) \<Longrightarrow> setTree v kind n y k i = v k i"
  by (auto simp: setTree_def)

definition specStored :: "tls_library \<Rightarrow> (string \<Rightarrow> nsname \<Rightarrow> json option) \<Rightarrow> json \<Rightarrow> bool" where
  "specStored L v t \<longleftrightarrow> (case v (treeKind t) (treeNamespace t, treeName t) of None \<Rightarrow> False
     | Some y \<Rightarrow> nestedSpecsEqual (tl_nestedSpec L t) (tl_nestedSpec L y))"

definition listenerStored ::
  "tls_library \<Rightarrow> OperatorConfig \<Rightarrow> (string \<Rightarrow> nsname \<Rightarrow> json option) \<Rightarrow> nsname \<Rightarrow> string \<Rightarrow> string \<Rightarrow> bool" where
  "listenerStored L cfg v n ln h \<longleftrightarrow> (case v ''Gateway'' n of None \<Rightarrow> True
     | Some g \<Rightarrow> isl (tl_getListeners L g) = False \<and>
         (case listenerNamed ln (listenersOf (tl_getListeners L) g) of None \<Rightarrow> False
          | Some l \<Rightarrow> listenersEqual l (buildHTTPSListener ln h (sharedSecretName cfg) (cfg_OperatorNamespace cfg))))"

context tls_cluster
begin

lemma same_kinds:
  assumes "\<And>k. k \<noteq> kind \<Longrightarrow> viewT s' k = viewT s k"
  shows "viewT s' kind = viewT s kind \<Longrightarrow> viewT s' = viewT s"
    and "viewT s' kind = (viewT s kind)(n \<mapsto> y) \<Longrightarrow> viewT s' = setTree (viewT s) kind n y"
proof -
  have "viewT s' k = ((viewT s)(kind := viewT s' kind)) k" for k
    using assms [of k] by (cases "k = kind") simp_all
  then have all: "viewT s' = (viewT s)(kind := viewT s' kind)" by blast
  show "viewT s' kind = viewT s kind \<Longrightarrow> viewT s' = viewT s" using all by simp
  show "viewT s' kind = (viewT s kind)(n \<mapsto> y) \<Longrightarrow> viewT s' = setTree (viewT s) kind n y"
    using all by (simp add: setTree_def)
qed

lemma get_tree:
  assumes "tc_get (T kind) n s = (q, s')"
  shows "viewT s' = viewT s" and "q = Inr x \<Longrightarrow> viewT s kind n = Some x"
    and "q = Inl e \<Longrightarrow> isNotFound e \<Longrightarrow> viewT s kind n = None"
proof -
  have other: "viewT s' k = viewT s k" if "k \<noteq> kind" for k
    using quietD(1) [OF tree_apart [OF that] assms] .
  show "viewT s' = viewT s"
    by (rule same_kinds(1) [OF other kube_kind.get_view [OF tree_kind assms]])
  show "q = Inr x \<Longrightarrow> viewT s kind n = Some x"
    using kube_kind.get_ok [OF tree_kind, of kind n s x s'] assms by blast
  show "q = Inl e \<Longrightarrow> isNotFound e \<Longrightarrow> viewT s kind n = None"
    using kube_kind.get_err [OF tree_kind, of kind n s e s'] assms by blast
qed

lemma stored_key: "viewT s kind n = Some x \<Longrightarrow> n = (treeNamespace x, treeName x)"
  using kube_kind.view_key [OF tree_kind, of s kind n x] by simp

lemma update_tree:
  assumes "tc_update (T kind) x s = (q, s')" and "n = (treeNamespace x, treeName x)"
  shows "(viewT s' = viewT s \<and> (\<exists>e. q = Inl e)) \<or>
    (\<exists>y. treeContent y = treeContent x \<and> viewT s' = setTree (viewT s) kind n y)"
proof -
  have other: "viewT s' k = viewT s k" if "k \<noteq> kind" for k
    using quietD(4) [OF tree_apart [OF that] assms(1)] .
  show ?thesis
    using kube_kind.update_ok [OF tree_kind, of kind x s _ s'] kube_kind.update_err [OF tree_kind, of kind x s _ s']
      assms same_kinds [OF other] by (cases q) (simp_all, blast+)
qed

lemma create_tree:
  assumes "tc_create (T kind) x s = (q, s')" and "n = (treeNamespace x, treeName x)"
  shows "(viewT s' = viewT s \<and> (\<exists>e. q = Inl e)) \<or>
    (\<exists>y. treeContent y = treeContent x \<and> viewT s' = setTree (viewT s) kind n y)"
proof -
  have other: "viewT s' k = viewT s k" if "k \<noteq> kind" for k
    using quietD(3) [OF tree_apart [OF that] assms(1)] .
  show ?thesis
    using kube_kind.create_ok [OF tree_kind, of kind x s _ s'] kube_kind.create_err [OF tree_kind, of kind x s _ s']
      assms same_kinds [OF other] by (cases q) (simp_all, blast+)
qed

text \<open>
  The step that writes a spec: it stores the spec, or leaves a stored one that compares equal, and
  touches no other object.
\<close>

lemma spec_step:
  assumes run: "tlsCreateOrUpdateUnstructured r t s = (q, s')" and r: "ts_Client r = T" "ts_library r = L"
    and own: "nestedSpecsEqual (tl_nestedSpec L t) (tl_nestedSpec L t)"
    and n: "n = (treeNamespace t, treeName t)"
  shows "(viewT s' = viewT s \<or> (\<exists>y. viewT s' = setTree (viewT s) (treeKind t) n y \<and>
      tl_nestedSpec L y = tl_nestedSpec L t)) \<and>
    (q = Inr u \<longrightarrow> specStored L (viewT s') t) \<and> (specStored L (viewT s) t \<longrightarrow> viewT s' = viewT s)"
proof -
  let ?c = "T (treeKind t)" and ?v = "viewT s" and ?k = "treeKind t"
  obtain g w where g: "tc_get ?c n s = (g, w)" by fastforce
  note get = get_tree [OF g]
  have stored: "specStored L (setTree ?v ?k n y) t" if "tl_nestedSpec L y = tl_nestedSpec L t" for y
    using that own n by (simp add: specStored_def)
  have content: "tl_nestedSpec L y = tl_nestedSpec L x" if "treeContent y = treeContent x" for x y
    using that by (simp add: nested_spec treeContent_def)
  have written: ?thesis
    if "s' = w'" and "q = Inr u \<longrightarrow> (\<exists>y. z = Inr y)" and "\<not> specStored L ?v t"
      and "(viewT w' = ?v \<and> (\<exists>e. z = Inl e)) \<or> (\<exists>y. treeContent y = treeContent x \<and> viewT w' = setTree ?v ?k n y)"
      and "tl_nestedSpec L x = tl_nestedSpec L t" for w' x and z :: "gerror + json"
    using that(4)
  proof (elim disjE conjE exE)
    fix y assume y: "treeContent y = treeContent x" and w': "viewT w' = setTree ?v ?k n y"
    have spec: "tl_nestedSpec L y = tl_nestedSpec L t" using content [OF y] that(5) by simp
    have eq: "viewT s' = setTree ?v ?k n y" using w' that(1) by simp
    show ?thesis unfolding eq using stored [OF spec] that(3) spec by blast
  qed (use that in auto)
  show ?thesis
  proof (cases g)
    case (Inl e)
    show ?thesis
    proof (cases "isNotFound e")
      case True
      obtain z w' where z: "tc_create ?c t w = (z, w')" by fastforce
      from get(3) [OF Inl True] have none: "\<not> specStored L ?v t" using n by (simp add: specStored_def)
      from run g Inl True z have "s' = w'" "q = Inr u \<longrightarrow> (\<exists>y. z = Inr y)"
        by (auto simp: tlsCreateOrUpdateUnstructured_def Let_def r n voidE_def wrapE_def split: sum.splits)
      then show ?thesis
          by (rule written [OF _ _ none create_tree [OF z n, unfolded get(1)] refl])
    next
      case False
      with run g Inl get(1) show ?thesis
        by (auto simp: tlsCreateOrUpdateUnstructured_def Let_def r n)
    qed
  next
    case (Inr x)
    note x = get(2) [OF Inr]
    show ?thesis
    proof (cases "nestedSpecsEqual (tl_nestedSpec L t) (tl_nestedSpec L x)")
      case True
      with run g Inr x get(1) n show ?thesis
        by (auto simp: tlsCreateOrUpdateUnstructured_def Let_def r specStored_def)
    next
      case False
      with x n have differ: "\<not> specStored L ?v t" by (simp add: specStored_def)
      show ?thesis
      proof (cases "tl_setSpec L (tl_nestedSpec L t) x")
        case (Inl e)
        with run g Inr False get(1) n differ show ?thesis
          by (auto simp: tlsCreateOrUpdateUnstructured_def Let_def r)
      next
        case (Inr x')
        note x' = set_spec [OF Inr]
        then have spec: "tl_nestedSpec L x' = tl_nestedSpec L t" by (simp add: nested_spec treeContent_def)
        have key: "n = (treeNamespace x', treeName x')"
          using x' stored_key [OF x] by (simp add: treeContent_def)
        obtain z w' where z: "tc_update ?c x' w = (z, w')" by fastforce
        from run g \<open>g = Inr x\<close> False Inr z have "s' = w'" "q = Inr u \<longrightarrow> (\<exists>y. z = Inr y)"
          by (auto simp: tlsCreateOrUpdateUnstructured_def Let_def r n voidE_def wrapE_def split: sum.splits)
        then show ?thesis
          by (rule written [OF _ _ differ update_tree [OF z key, unfolded get(1)] spec])
      qed
    qed
  qed
qed

end

text \<open>
  What a pass may do to a Gateway: every listener but the operator's two stays, in its place, and
  so does every other field of the spec.
\<close>

definition gatewayKept :: "tls_library \<Rightarrow> json \<Rightarrow> json \<Rightarrow> bool" where
  "gatewayKept L g g' \<longleftrightarrow>
     filter (\<lambda>l. \<not> isNamed ExternalHTTPSListenerName l \<and> \<not> isNamed InternalHTTPSListenerName l)
       (listenersOf (tl_getListeners L) g') =
     filter (\<lambda>l. \<not> isNamed ExternalHTTPSListenerName l \<and> \<not> isNamed InternalHTTPSListenerName l)
       (listenersOf (tl_getListeners L) g) \<and>
     (\<forall>k. k \<noteq> ''listeners'' \<longrightarrow> fieldOf (specOf g') k = fieldOf (specOf g) k)"

lemma filter_weaker:
  assumes "filter P xs = filter P ys" and "\<And>x. Q x \<Longrightarrow> P x"
  shows "filter Q xs = filter Q ys"
proof -
  have "filter Q zs = filter Q (filter P zs)" for zs using assms(2) by (induction zs) auto
  with assms(1) show ?thesis by metis
qed

context tls_cluster
begin

lemma patch_step:
  assumes run: "patchGatewayListener r cfg gn gns ln h s = (q, s')"
    and r: "ts_Client r = T" "ts_library r = L" and n: "n = (gns, gn)"
    and ln: "ln = ExternalHTTPSListenerName \<or> ln = InternalHTTPSListenerName"
  shows "(viewT s' = viewT s \<or> (\<exists>g y. viewT s ''Gateway'' n = Some g \<and>
      viewT s' = setTree (viewT s) ''Gateway'' n y \<and> gatewayKept L g y \<and> isl (tl_getListeners L y) = False \<and>
      (\<forall>k. k \<noteq> ln \<longrightarrow> listenerNamed k (listenersOf (tl_getListeners L) y) =
        listenerNamed k (listenersOf (tl_getListeners L) g)))) \<and>
    (q = Inr u \<longrightarrow> listenerStored L cfg (viewT s') n ln h) \<and>
    (listenerStored L cfg (viewT s) n ln h \<longrightarrow> viewT s' = viewT s)"
proof -
  let ?get = "tl_getListeners L" and ?set = "tl_setListeners L" and ?v = "viewT s"
  let ?sec = "sharedSecretName cfg" and ?ns = "cfg_OperatorNamespace cfg"
  let ?d = "buildHTTPSListener ln h ?sec ?ns"
  obtain p w where p: "tc_get (T ''Gateway'') n s = (p, w)" by fastforce
  note get = get_tree [OF p]
  show ?thesis
  proof (cases p)
    case (Inl e)
    have "s' = w" and "q = Inr u \<longrightarrow> isNotFound e"
      using run p Inl n by (auto simp: patchGatewayListener_def Let_def r split: if_splits)
    with get(1) get(3) [OF Inl] show ?thesis by (auto simp: listenerStored_def)
  next
    case (Inr g)
    note g = get(2) [OF Inr]
    show ?thesis
    proof (cases "MergeHTTPSListener ?get ?set (Some g) ln h ?sec ?ns")
      case (Inl e)
      with run p Inr get(1) n show ?thesis by (auto simp: patchGatewayListener_def Let_def r)
    next
      case (Inr cg)
      obtain ch g' where cg: "cg = (ch, g')" by (cases cg)
      note m = Inr [unfolded cg]
      from merge_spec [OF m] obtain l where l: "listenerNamed ln (listenersOf ?get g') = Some l" "listenersEqual l ?d"
        and others: "\<forall>k. k \<noteq> ln \<longrightarrow> listenerNamed k (listenersOf ?get g') = listenerNamed k (listenersOf ?get g)"
        and rest: "filter (\<lambda>l. \<not> isNamed ln l) (listenersOf ?get g') = filter (\<lambda>l. \<not> isNamed ln l) (listenersOf ?get g)"
        and fields: "\<forall>k. k \<noteq> ''spec'' \<longrightarrow> objGet g' k = objGet g k"
        and spec: "\<forall>k. k \<noteq> ''listeners'' \<longrightarrow> fieldOf (specOf g') k = fieldOf (specOf g) k"
        and ok: "isl (?get g') = False" and unch: "\<not> ch \<longrightarrow> g' = g" by auto
      show ?thesis
      proof (cases ch)
        case False
        with run p \<open>p = Inr g\<close> m n have "s' = w" by (auto simp: patchGatewayListener_def Let_def r)
        with get(1) have "viewT s' = ?v" by simp
        then show ?thesis using g l ok unch False by (auto simp: listenerStored_def)
      next
        case True
        have key: "n = (treeNamespace g', treeName g')"
          using stored_key [OF g] fields by (simp add: treeNamespace_def treeName_def)
        obtain z w' where z: "tc_update (T ''Gateway'') g' w = (z, w')" by fastforce
        from run p \<open>p = Inr g\<close> m n True z have s': "s' = w'" and q: "q = Inr u \<longrightarrow> (\<exists>y. z = Inr y)"
          by (auto simp: patchGatewayListener_def Let_def r voidE_def wrapE_def split: sum.splits)
        obtain found where found: "?get g = Inr found"
          using m by (auto simp: MergeHTTPSListener_def Let_def split: sum.splits)
        have again: "\<not> listenerStored L cfg ?v n ln h"
        proof
          assume "listenerStored L cfg ?v n ln h"
          then obtain x where "listenerNamed ln (listenersOf ?get g) = Some x" "listenersEqual x ?d"
            using g by (auto simp: listenerStored_def split: option.splits)
          from merge_again [OF this(1) found this(2)] m True show False by simp
        qed
        from update_tree [OF z key] show ?thesis
        proof (elim disjE conjE exE)
          fix y assume y: "treeContent y = treeContent g'" and w': "viewT w' = setTree (viewT w) ''Gateway'' n y"
          have "specOf y = specOf g'" using y by (simp add: treeContent_def)
          then have gy: "?get y = ?get g'" and sy: "specOf y = specOf g'" by (auto intro: get_spec)
          then have ly: "listenersOf ?get y = listenersOf ?get g'" by (simp add: listenersOf_def)
          have eq: "viewT s' = setTree ?v ''Gateway'' n y" unfolding s' w' get(1) ..
          have "filter (\<lambda>l. \<not> isNamed ExternalHTTPSListenerName l \<and> \<not> isNamed InternalHTTPSListenerName l)
              (listenersOf ?get g') = filter (\<lambda>l. \<not> isNamed ExternalHTTPSListenerName l \<and>
              \<not> isNamed InternalHTTPSListenerName l) (listenersOf ?get g)"
            by (rule filter_weaker [OF rest]) (use ln in auto)
          with spec have "gatewayKept L g y" by (simp add: gatewayKept_def ly sy)
          moreover have "isl (?get y) = False" "\<forall>k. k \<noteq> ln \<longrightarrow>
              listenerNamed k (listenersOf ?get y) = listenerNamed k (listenersOf ?get g)"
            using ok others by (simp_all add: ly gy)
          moreover have "listenerStored L cfg (viewT s') n ln h"
            using l ok by (simp add: eq listenerStored_def ly gy)
          ultimately show ?thesis using g eq again by blast
        qed (use s' q get(1) again in auto)
      qed
    qed
  qed
qed

end

section \<open>What a pass may touch\<close>

definition certificateAt :: "OperatorConfig \<Rightarrow> nsname" where
  "certificateAt cfg = (cfg_OperatorNamespace cfg, SharedTLSCertificateName)"

definition grantFor :: "OperatorConfig \<Rightarrow> string \<Rightarrow> json" where
  "grantFor cfg ns = BuildSecretReferenceGrant ns (cfg_OperatorNamespace cfg) (sharedSecretName cfg)"

definition grantNamespaces :: "OperatorConfig \<Rightarrow> string set" where
  "grantNamespaces cfg = set (distinctGatewayNamespaces cfg) - {cfg_OperatorNamespace cfg}"

definition tlsObjects :: "OperatorConfig \<Rightarrow> (string \<times> nsname) set" where
  "tlsObjects cfg = {(''Certificate'', certificateAt cfg)} \<union>
     (\<lambda>ns. treeIdent (grantFor cfg ns)) ` grantNamespaces cfg \<union>
     (if cfg_ManageSharedListeners cfg
      then {(''Gateway'', (cfg_ExternalGatewayNS cfg, cfg_ExternalGatewayName cfg)),
        (''Gateway'', (cfg_InternalGatewayNS cfg, cfg_InternalGatewayName cfg))} else {})"

text \<open>
  Only these objects change; nothing is deleted but the certificate, and that only in favour of a
  Secret of the user's; the Gateways keep what is not the operator's.
\<close>

definition tlsKept ::
  "tls_library \<Rightarrow> OperatorConfig \<Rightarrow> (string \<Rightarrow> nsname \<Rightarrow> json option) \<Rightarrow> (string \<Rightarrow> nsname \<Rightarrow> json option) \<Rightarrow> bool" where
  "tlsKept L cfg v v' \<longleftrightarrow>
     (\<forall>kind n. (kind, n) \<notin> tlsObjects cfg \<longrightarrow> v' kind n = v kind n) \<and>
     (\<forall>kind n. (kind = ''Certificate'' \<longrightarrow> cfg_TLSSecretName cfg = []) \<longrightarrow> v kind n \<noteq> None \<longrightarrow> v' kind n \<noteq> None) \<and>
     (\<forall>n. rel_option (gatewayKept L) (v ''Gateway'' n) (v' ''Gateway'' n))"

definition passKept :: "tls_library \<Rightarrow> OperatorConfig \<Rightarrow> ('k \<Rightarrow> string \<Rightarrow> nsname \<Rightarrow> json option) \<Rightarrow> 'k \<Rightarrow> 'k \<Rightarrow> bool" where
  "passKept L cfg viewT s s' \<longleftrightarrow> tlsKept L cfg (viewT s) (viewT s')"

lemma gatewayKept_refl: "gatewayKept L g g"
  by (simp add: gatewayKept_def)

lemma gatewayKept_trans: "gatewayKept L g h \<Longrightarrow> gatewayKept L h i \<Longrightarrow> gatewayKept L g i"
  by (simp add: gatewayKept_def)

lemma tlsKept_refl: "tlsKept L cfg v v"
  by (simp add: tlsKept_def rel_option_reflI gatewayKept_refl)

lemma tlsKept_trans:
  assumes "tlsKept L cfg u v" and "tlsKept L cfg v w"
  shows "tlsKept L cfg u w"
proof -
  have "rel_option (gatewayKept L) (u ''Gateway'' n) (w ''Gateway'' n)" for n
    using assms by (cases "u ''Gateway'' n"; cases "v ''Gateway'' n"; cases "w ''Gateway'' n")
      (auto simp: tlsKept_def simp del: split_paired_All intro: gatewayKept_trans
        dest!: spec [of "\<lambda>n. rel_option (gatewayKept L) (x n) (y n)" n for x y])
  with assms show ?thesis by (simp add: tlsKept_def del: split_paired_All)
qed

lemma tlsKept_setTree:
  assumes "(kind, n) \<in> tlsObjects cfg" and "kind = ''Gateway'' \<Longrightarrow> \<exists>g. v kind n = Some g \<and> gatewayKept L g y"
  shows "tlsKept L cfg v (setTree v kind n y)"
proof -
  have "rel_option (gatewayKept L) (v ''Gateway'' m) (setTree v kind n y ''Gateway'' m)" for m
    using assms(2) by (cases "(''Gateway'', m) = (kind, n)") (auto simp: rel_option_reflI gatewayKept_refl)
  moreover have "setTree v kind n y k i = (if (k, i) = (kind, n) then Some y else v k i)" for k i
    by simp
  ultimately show ?thesis using assms(1) by (auto simp: tlsKept_def simp del: split_paired_All)
qed

lemma grant_ident:
  "treeIdent (grantFor cfg ns) =
     (''ReferenceGrant'', cfg_OperatorNamespace cfg, ''nebari-llm-shared-tls-from-'' @ ns)"
  by (simp add: treeIdent_def grantFor_def BuildSecretReferenceGrant_def)

lemma cert_ident:
  "BuildSharedCertificate d (cfg_OperatorNamespace cfg) i = Inr t \<Longrightarrow> treeIdent t = (''Certificate'', certificateAt cfg)"
  by (auto simp: treeIdent_def BuildSharedCertificate_def certificateAt_def split: if_splits)

text \<open>The specs the operator writes compare equal to themselves.\<close>

lemma grant_own:
  assumes "\<And>t. tl_nestedSpec L t = (case specOf t of Some (JObj m) \<Rightarrow> m | _ \<Rightarrow> [])"
  shows "nestedSpecsEqual (tl_nestedSpec L (grantFor cfg ns)) (tl_nestedSpec L (grantFor cfg ns))"
  by (simp add: assms grantFor_def BuildSecretReferenceGrant_def valueEqual.simps)

lemma cert_own:
  assumes "\<And>t. tl_nestedSpec L t = (case specOf t of Some (JObj m) \<Rightarrow> m | _ \<Rightarrow> [])"
    and "BuildSharedCertificate d ns i = Inr t"
  shows "nestedSpecsEqual (tl_nestedSpec L t) (tl_nestedSpec L t)"
  using assms(2) by (auto simp: assms(1) BuildSharedCertificate_def valueEqual.simps split: if_splits)

text \<open>What a clean pass establishes.\<close>

definition sourceStored :: "tls_library \<Rightarrow> OperatorConfig \<Rightarrow> (string \<Rightarrow> nsname \<Rightarrow> json option) \<Rightarrow> bool" where
  "sourceStored L cfg v \<longleftrightarrow>
     (if cfg_TLSSecretName cfg \<noteq> [] then v ''Certificate'' (certificateAt cfg) = None
      else case BuildSharedCertificate (cfg_BaseDomain cfg) (cfg_OperatorNamespace cfg) (cfg_ClusterIssuerName cfg) of
             Inl e \<Rightarrow> True | Inr t \<Rightarrow> specStored L v t)"

definition grantsStored :: "tls_library \<Rightarrow> OperatorConfig \<Rightarrow> string set \<Rightarrow> (string \<Rightarrow> nsname \<Rightarrow> json option) \<Rightarrow> bool" where
  "grantsStored L cfg nss v \<longleftrightarrow> (\<forall>ns \<in> nss. specStored L v (grantFor cfg ns))"

definition bothListenersStored :: "tls_library \<Rightarrow> OperatorConfig \<Rightarrow> (string \<Rightarrow> nsname \<Rightarrow> json option) \<Rightarrow> bool" where
  "bothListenersStored L cfg v \<longleftrightarrow>
     listenerStored L cfg v (cfg_ExternalGatewayNS cfg, cfg_ExternalGatewayName cfg)
       ExternalHTTPSListenerName (SharedExternalHostname (cfg_BaseDomain cfg)) \<and>
     listenerStored L cfg v (cfg_InternalGatewayNS cfg, cfg_InternalGatewayName cfg)
       InternalHTTPSListenerName (SharedInternalHostname (cfg_BaseDomain cfg))"

definition tlsSettled :: "tls_library \<Rightarrow> OperatorConfig \<Rightarrow> (string \<Rightarrow> nsname \<Rightarrow> json option) \<Rightarrow> bool" where
  "tlsSettled L cfg v \<longleftrightarrow> sourceStored L cfg v \<and> grantsStored L cfg (grantNamespaces cfg) v \<and>
     (cfg_ManageSharedListeners cfg \<longrightarrow> bothListenersStored L cfg v)"

lemma specStored_frame:
  "v' (treeKind t) = v (treeKind t) \<Longrightarrow> specStored L v' t = specStored L v t"
  by (simp add: specStored_def)

lemma specStored_other:
  "(treeKind t, treeNamespace t, treeName t) \<noteq> (kind, n) \<Longrightarrow> specStored L (setTree v kind n y) t = specStored L v t"
  by (simp add: specStored_def)

lemma listener_other:
  assumes "listenerStored L cfg v n ln h" and "v ''Gateway'' n2 = Some g" and "isl (tl_getListeners L y) = False"
    and "listenerNamed ln (listenersOf (tl_getListeners L) y) = listenerNamed ln (listenersOf (tl_getListeners L) g)"
  shows "listenerStored L cfg (setTree v ''Gateway'' n2 y) n ln h"
  using assms by (cases "n = n2") (auto simp: listenerStored_def)

context tls_cluster
begin

lemma delete_step:
  assumes run: "deleteManagedCertificate r cfg s = (q, s')" and r: "ts_Client r = T"
  shows "(\<forall>k. k \<noteq> ''Certificate'' \<longrightarrow> viewT s' k = viewT s k) \<and>
    (\<forall>n. n \<noteq> certificateAt cfg \<longrightarrow> viewT s' ''Certificate'' n = viewT s ''Certificate'' n) \<and>
    (viewT s ''Certificate'' (certificateAt cfg) = None \<longrightarrow> viewT s' = viewT s)"
proof -
  obtain p w where p: "tc_delete (T ''Certificate'') (certificateAt cfg) s = (p, w)" by fastforce
  then have s': "s' = w" using run r
    by (auto simp: deleteManagedCertificate_def certificateAt_def split: sum.splits if_splits)
  have other: "viewT w k = viewT s k" if "k \<noteq> ''Certificate''" for k
    using quietD(6) [OF tree_apart [OF that] p] .
  from tree_delete [OF p] same_kinds(1) [of "''Certificate''" w s, OF other] other show ?thesis
    unfolding s' by blast
qed

lemma source_step:
  assumes run: "ensureTLSSource r cfg s = (q, s')" and r: "ts_Client r = T" "ts_library r = L"
  shows "(\<forall>k. k \<noteq> ''Certificate'' \<longrightarrow> viewT s' k = viewT s k) \<and>
    (q = Inr u \<longrightarrow> cfg_TLSSecretName cfg = [] \<longrightarrow> sourceStored L cfg (viewT s')) \<and>
    (sourceStored L cfg (viewT s) \<longrightarrow> viewT s' = viewT s) \<and> tlsKept L cfg (viewT s) (viewT s')"
proof (cases "cfg_TLSSecretName cfg = []")
  case False
  obtain p w where p: "deleteManagedCertificate r cfg s = (p, w)" by fastforce
  have "s' = w \<or> (\<exists>x. tc_get (T ''Secret'') (cfg_OperatorNamespace cfg, cfg_TLSSecretName cfg) w = (x, s'))"
    using run p False r by (cases p) (auto simp: ensureTLSSource_def checkUserSecret_def action_simps ignoreE_eq
        bindE_def wrapE_def split: sum.splits)
  then have v: "viewT s' = viewT w" using get_tree(1) by blast
  note d = delete_step [OF p r(1)]
  have "tlsKept L cfg (viewT s) (viewT w)"
    unfolding tlsKept_def
  proof (intro conjI allI impI)
    fix kind n assume "(kind, n) \<notin> tlsObjects cfg"
    then show "viewT w kind n = viewT s kind n"
      using d by (cases "kind = ''Certificate''") (auto simp: tlsObjects_def simp del: split_paired_All)
  next
    fix kind n assume "kind = ''Certificate'' \<longrightarrow> cfg_TLSSecretName cfg = []" "viewT s kind n \<noteq> None"
    then show "viewT w kind n \<noteq> None" using d False by auto
  next
    fix n show "rel_option (gatewayKept L) (viewT s ''Gateway'' n) (viewT w ''Gateway'' n)"
      using d by (simp add: rel_option_reflI gatewayKept_refl)
  qed
  with d v False show ?thesis by (simp add: sourceStored_def)
next
  case True
  show ?thesis
  proof (cases "BuildSharedCertificate (cfg_BaseDomain cfg) (cfg_OperatorNamespace cfg) (cfg_ClusterIssuerName cfg)")
    case (Inl e)
    with run True have "s' = s" "\<exists>e. q = Inl e"
      by (auto simp: ensureTLSSource_def ensureCertificate_def wrapE_def bindE_def liftE_def split: prod.splits sum.splits)
    then show ?thesis by (auto simp: tlsKept_refl)
  next
    case (Inr t)
    obtain p where p: "tlsCreateOrUpdateUnstructured r t s = (p, s')" and q: "q = Inr u \<longrightarrow> p = Inr u"
      using run True Inr
      by (auto simp: ensureTLSSource_def ensureCertificate_def wrapE_def bindE_def liftE_def split: prod.splits sum.splits)
    note id = cert_ident [OF Inr]
    then have k: "treeKind t = ''Certificate''" and n: "certificateAt cfg = (treeNamespace t, treeName t)"
      by (simp_all add: treeIdent_def)
    note step = spec_step [OF p r cert_own [OF nested_spec Inr] n, of u, unfolded k]
    have "tlsKept L cfg (viewT s) (viewT s')"
      using step tlsKept_setTree [of "''Certificate''" "certificateAt cfg" cfg "viewT s"] tlsKept_refl
      by (auto simp: tlsObjects_def)
    with step q True Inr show ?thesis by (auto simp: sourceStored_def setTree_def)
  qed
qed

lemma grants_step:
  assumes "ts_Client r = T" "ts_library r = L"
  shows "ensureGrants r cfg nss s = (q, s') \<Longrightarrow> set nss \<subseteq> set (distinctGatewayNamespaces cfg) \<Longrightarrow>
    (\<forall>k. k \<noteq> ''ReferenceGrant'' \<longrightarrow> viewT s' k = viewT s k) \<and>
    (\<forall>t. specStored L (viewT s) (grantFor cfg t) \<longrightarrow> specStored L (viewT s') (grantFor cfg t)) \<and>
    (q = Inr u \<longrightarrow> grantsStored L cfg (set nss - {cfg_OperatorNamespace cfg}) (viewT s')) \<and>
    (grantsStored L cfg (set nss - {cfg_OperatorNamespace cfg}) (viewT s) \<longrightarrow> viewT s' = viewT s) \<and>
    tlsKept L cfg (viewT s) (viewT s')"
proof (induction nss arbitrary: s)
  case Nil
  then show ?case by (simp add: returnE_eq grantsStored_def tlsKept_refl)
next
  case (Cons ns nss)
  show ?case
  proof (cases "ns = cfg_OperatorNamespace cfg")
    case True
    with Cons.IH [of s] Cons.prems show ?thesis by simp
  next
    case False
    let ?g = "grantFor cfg ns"
    have k: "treeKind ?g = ''ReferenceGrant''" and own: "(treeNamespace ?g, treeName ?g) \<noteq> (treeNamespace (grantFor cfg t), treeName (grantFor cfg t)) \<or> t = ns"
      for t using grant_ident [of cfg ns] grant_ident [of cfg t] by (auto simp: treeIdent_def)
    obtain p w where p: "tlsCreateOrUpdateUnstructured r ?g s = (p, w)" by fastforce
    note step = spec_step [OF p assms grant_own [OF nested_spec] refl, of u, unfolded k]
    have mine: "treeIdent ?g \<in> tlsObjects cfg"
      using Cons.prems(2) False by (auto simp: tlsObjects_def grantNamespaces_def)
    have kept: "tlsKept L cfg (viewT s) (viewT w)"
      using step tlsKept_setTree [of "''ReferenceGrant''" "(treeNamespace ?g, treeName ?g)" cfg "viewT s"] mine tlsKept_refl
      by (auto simp: treeIdent_def k)
    have others: "specStored L (viewT w) (grantFor cfg t)" if "specStored L (viewT s) (grantFor cfg t)" for t
      using step that own [of t] specStored_other [of "grantFor cfg t" "''ReferenceGrant''" "(treeNamespace ?g, treeName ?g)" L "viewT s"]
      by (cases "t = ns") auto
    have kinds: "viewT w k = viewT s k" if "k \<noteq> ''ReferenceGrant''" for k
      using step that by (auto simp: setTree_def)
    show ?thesis
    proof (cases p)
      case (Inl e)
      with Cons.prems(1) False p have "s' = w" "\<exists>e. q = Inl e"
        by (auto simp: ensureReferenceGrant_def grantFor_def bindE_def wrapE_def split: sum.splits)
      with step others kinds kept False show ?thesis by (auto simp: grantsStored_def)
    next
      case (Inr x)
      with Cons.prems(1) False p have "ensureGrants r cfg nss w = (q, s')"
        by (simp add: ensureReferenceGrant_def grantFor_def bindE_def wrapE_def)
      from Cons.IH [OF this] Cons.prems(2) Inr step others kinds kept False tlsKept_trans [OF kept]
      show ?thesis by (auto simp: grantsStored_def)
    qed
  qed
qed

lemma listeners_step:
  assumes run: "bindE (patchExternal r cfg) (\<lambda>u. patchInternal r cfg) s = (q, s')"
    and r: "ts_Client r = T" "ts_library r = L" and managed: "cfg_ManageSharedListeners cfg"
  shows "(\<forall>k. k \<noteq> ''Gateway'' \<longrightarrow> viewT s' k = viewT s k) \<and>
    (q = Inr u \<longrightarrow> bothListenersStored L cfg (viewT s')) \<and>
    (bothListenersStored L cfg (viewT s) \<longrightarrow> viewT s' = viewT s) \<and> tlsKept L cfg (viewT s) (viewT s')"
proof -
  let ?e = "(cfg_ExternalGatewayNS cfg, cfg_ExternalGatewayName cfg)"
    and ?i = "(cfg_InternalGatewayNS cfg, cfg_InternalGatewayName cfg)"
    and ?eh = "SharedExternalHostname (cfg_BaseDomain cfg)" and ?ih = "SharedInternalHostname (cfg_BaseDomain cfg)"
  have names: "ExternalHTTPSListenerName \<noteq> InternalHTTPSListenerName"
    by (simp add: ExternalHTTPSListenerName_def InternalHTTPSListenerName_def)
  have mine: "(''Gateway'', ?e) \<in> tlsObjects cfg" "(''Gateway'', ?i) \<in> tlsObjects cfg"
    using managed by (simp_all add: tlsObjects_def)
  obtain p w where p: "patchGatewayListener r cfg (cfg_ExternalGatewayName cfg) (cfg_ExternalGatewayNS cfg)
      ExternalHTTPSListenerName ?eh s = (p, w)" by fastforce
  note one = patch_step [OF p r refl, of u, simplified]
  have kept1: "tlsKept L cfg (viewT s) (viewT w)"
    using one tlsKept_setTree [OF mine(1), of "viewT s"] tlsKept_refl by auto
  have kinds1: "viewT w k = viewT s k" if "k \<noteq> ''Gateway''" for k
    using one that by (auto simp: setTree_def)
  show ?thesis
  proof (cases p)
    case (Inl e)
    with run p have "s' = w" "\<exists>e. q = Inl e" by (auto simp: patchExternal_def bindE_def wrapE_def)
    with one kept1 kinds1 show ?thesis by (auto simp: bothListenersStored_def)
  next
    case (Inr x)
    obtain p2 where p2: "patchGatewayListener r cfg (cfg_InternalGatewayName cfg) (cfg_InternalGatewayNS cfg)
        InternalHTTPSListenerName ?ih w = (p2, s')" and q: "q = Inr u \<longrightarrow> p2 = Inr u"
      using run p Inr by (auto simp: patchExternal_def patchInternal_def bindE_def wrapE_def
          split: prod.splits sum.splits)
    note two = patch_step [OF p2 r refl, of u, simplified]
    have kept2: "tlsKept L cfg (viewT w) (viewT s')"
      using two tlsKept_setTree [OF mine(2), of "viewT w"] tlsKept_refl by auto
    have kinds2: "viewT s' k = viewT w k" if "k \<noteq> ''Gateway''" for k
      using two that by (auto simp: setTree_def)
    have first: "listenerStored L cfg (viewT s') ?e ExternalHTTPSListenerName ?eh"
      if "listenerStored L cfg (viewT w) ?e ExternalHTTPSListenerName ?eh"
      using two listener_other [OF that] that names by auto
    show ?thesis
      using one two Inr q first kinds1 kinds2 tlsKept_trans [OF kept1 kept2]
      by (auto simp: bothListenersStored_def)
  qed
qed

text \<open>The pass.\<close>

lemma source_frame:
  "viewT s' ''Certificate'' = viewT s ''Certificate'' \<Longrightarrow> sourceStored L cfg (viewT s') = sourceStored L cfg (viewT s)"
  using cert_ident by (auto simp: sourceStored_def treeIdent_def split: sum.splits intro!: specStored_frame iffD1 [OF specStored_frame])

lemma grants_frame:
  "viewT s' ''ReferenceGrant'' = viewT s ''ReferenceGrant'' \<Longrightarrow>
     grantsStored L cfg nss (viewT s') = grantsStored L cfg nss (viewT s)"
proof -
  assume "viewT s' ''ReferenceGrant'' = viewT s ''ReferenceGrant''"
  then have "specStored L (viewT s') (grantFor cfg ns) = specStored L (viewT s) (grantFor cfg ns)" for ns
    using grant_ident [of cfg ns] by (intro specStored_frame) (simp add: treeIdent_def)
  then show ?thesis by (simp add: grantsStored_def)
qed

lemma pass_effect:
  assumes run: "ReconcileTLS r s = (q, s')" and r: "ts_Client r = T" "ts_library r = L" "ts_Config r = Some cfg"
    and set_up: "cfg_BaseDomain cfg \<noteq> []" "cfg_OperatorNamespace cfg \<noteq> []"
  shows "tlsKept L cfg (viewT s) (viewT s') \<and> (tlsSettled L cfg (viewT s) \<longrightarrow> viewT s' = viewT s) \<and>
    (q = Inr u \<longrightarrow> (cfg_TLSSecretName cfg \<noteq> [] \<longrightarrow> viewT s' ''Certificate'' (certificateAt cfg) = None) \<longrightarrow> tlsSettled L cfg (viewT s'))"
proof -
  obtain p w where p: "ensureTLSSource r cfg s = (p, w)" by fastforce
  note one = source_step [OF p r(1,2), of u]
  show ?thesis
  proof (cases p)
    case (Inl e)
    with run p r set_up have "s' = w" "q = Inl e" by (simp_all add: ReconcileTLS_def bindE_def)
    with one show ?thesis by (simp add: tlsSettled_def)
  next
    case (Inr x)
    obtain p2 w2 where p2: "ensureGrants r cfg (distinctGatewayNamespaces cfg) w = (p2, w2)" by fastforce
    note two = grants_step [OF r(1,2) p2 subset_refl, of u, folded grantNamespaces_def]
    note kept = tlsKept_trans [of L cfg "viewT s" "viewT w" "viewT w2"]
    show ?thesis
    proof (cases p2)
      case (Inl e)
      with run p p2 Inr r set_up have "s' = w2" "q = Inl e" by (simp_all add: ReconcileTLS_def bindE_def)
      with one two kept show ?thesis by (auto simp: tlsSettled_def)
    next
      case (Inr y)
      show ?thesis
      proof (cases "cfg_ManageSharedListeners cfg")
        case False
        with run p p2 Inr \<open>p = Inr x\<close> r set_up have "s' = w2" "q = Inr ()"
          by (simp_all add: ReconcileTLS_def bindE_def returnE_def)
        with one two kept False Inr \<open>p = Inr x\<close> source_frame [of w2 w cfg] show ?thesis
          by (auto simp: tlsSettled_def sourceStored_def split: if_splits)
      next
        case True
        with run p p2 Inr \<open>p = Inr x\<close> r set_up have p3: "bindE (patchExternal r cfg) (\<lambda>u. patchInternal r cfg) w2 = (q, s')"
          by (simp add: ReconcileTLS_def bindE_def [of "ensureTLSSource r cfg"] bindE_def [of "ensureGrants r cfg _"])
        note three = listeners_step [OF p3 r(1,2) True, of u]
        have k: "viewT s' k = viewT w2 k" if "k \<noteq> ''Gateway''" for k using three that by blast
        have own: "sourceStored L cfg (viewT s')" if "cfg_TLSSecretName cfg = []"
          using one two \<open>p = Inr x\<close> that source_frame [of s' w cfg] k by auto
        have user: "sourceStored L cfg (viewT s')"
          if "cfg_TLSSecretName cfg \<noteq> []" "viewT s' ''Certificate'' (certificateAt cfg) = None"
          using that by (simp add: sourceStored_def)
        have grants: "grantsStored L cfg (grantNamespaces cfg) (viewT s')"
          using two Inr grants_frame [of s' w2 cfg] k by auto
        have "tlsKept L cfg (viewT s) (viewT w)" "tlsKept L cfg (viewT w) (viewT w2)" "tlsKept L cfg (viewT w2) (viewT s')"
          using one two three by blast+
        from tlsKept_trans [OF tlsKept_trans [OF this(1,2)] this(3)] have "tlsKept L cfg (viewT s) (viewT s')" .
        moreover have "viewT s' = viewT s" if "tlsSettled L cfg (viewT s)"
        proof -
          have 1: "viewT w = viewT s" using one that unfolding tlsSettled_def by blast
          then have 2: "viewT w2 = viewT s" using two that unfolding tlsSettled_def by simp
          then show ?thesis using three that True unfolding tlsSettled_def by simp
        qed
        moreover have "tlsSettled L cfg (viewT s')"
          if "q = Inr u" "cfg_TLSSecretName cfg \<noteq> [] \<longrightarrow> viewT s' ''Certificate'' (certificateAt cfg) = None"
        proof -
          have "sourceStored L cfg (viewT s')" using own user that by (cases "cfg_TLSSecretName cfg = []") simp_all
          then show ?thesis using grants three that(1) by (simp add: tlsSettled_def)
        qed
        ultimately show ?thesis by simp
      qed
    qed
  qed
qed

lemma pass_kept:
  assumes run: "ReconcileTLS r s = (q, s')" and r: "ts_Client r = T" "ts_library r = L"
  shows "case ts_Config r of None \<Rightarrow> viewT s' = viewT s | Some cfg \<Rightarrow> tlsKept L cfg (viewT s) (viewT s')"
proof (cases "ts_Config r")
  case None
  with run show ?thesis by (simp add: ReconcileTLS_def throwE_eq)
next
  case (Some cfg)
  show ?thesis
  proof (cases "cfg_BaseDomain cfg = [] \<or> cfg_OperatorNamespace cfg = []")
    case True
    with run Some have "s' = s" by (auto simp: ReconcileTLS_def returnE_eq split: if_splits)
    with Some show ?thesis by (simp add: tlsKept_refl)
  next
    case False
    with pass_effect [OF run r Some] Some show ?thesis by simp
  qed
qed

lemma start_kept:
  assumes r: "ts_Client r = T" "ts_library r = L"
  shows "startTLS r n s = (q, s') \<Longrightarrow> q = Inr () \<and>
    (case ts_Config r of None \<Rightarrow> viewT s' = viewT s | Some cfg \<Rightarrow> tlsKept L cfg (viewT s) (viewT s'))"
proof (induction n arbitrary: q s')
  case 0
  then obtain p where "ReconcileTLS r s = (p, s')" and "q = Inr ()" by (auto simp: ignoreE_eq)
  with pass_kept [OF _ r] show ?case by blast
next
  case (Suc n)
  obtain p w where p: "startTLS r n s = (p, w)" by fastforce
  with Suc.IH have ih: "p = Inr ()" "case ts_Config r of None \<Rightarrow> viewT w = viewT s | Some cfg \<Rightarrow> tlsKept L cfg (viewT s) (viewT w)"
    by blast+
  with Suc.prems p obtain x where x: "ReconcileTLS r w = (x, s')" and "q = Inr ()"
    by (auto simp: bindE_def ignoreE_eq)
  with pass_kept [OF x r] ih(2) show ?case by (auto split: option.splits intro: tlsKept_trans)
qed

end

section \<open>On the reference server\<close>

definition treeNestedSpec :: "json \<Rightarrow> (string \<times> json) list" where
  "treeNestedSpec t = (case specOf t of Some (JObj m) \<Rightarrow> m | _ \<Rightarrow> [])"

definition treeSetSpec :: "(string \<times> json) list \<Rightarrow> json \<Rightarrow> gerror + json" where
  "treeSetSpec m t = (case t of JObj f \<Rightarrow> Inr (JObj (AList.update ''spec'' (JObj m) f))
     | _ \<Rightarrow> Inl (errorf ''value cannot be set''))"

definition treeLibrary :: tls_library where
  "treeLibrary = \<lparr>tl_getListeners = treeGetListeners, tl_setListeners = treeSetListeners,
     tl_nestedSpec = treeNestedSpec, tl_setSpec = treeSetSpec,
     tl_isNoMatch = (\<lambda>e. contains ''no matches for kind'' (errText e))\<rparr>"

interpretation tls: tls_cluster treeClient treeLibrary treesAt
proof (intro tls_cluster.intro tls_cluster_axioms.intro)
  show "tree_cluster treeClient treesAt"
    using cluster_trees.tree_cluster_axioms by simp
  show "nested_slice (tl_getListeners treeLibrary) (tl_setListeners treeLibrary)"
    using tree.nested_slice_axioms by (simp add: treeLibrary_def)
  show "tl_getListeners treeLibrary g = tl_getListeners treeLibrary g'" if "specOf g = specOf g'" for g g'
    using that by (simp add: treeLibrary_def treeGetListeners_def specOf_def)
  show "tl_nestedSpec treeLibrary t = (case specOf t of Some (JObj m) \<Rightarrow> m | _ \<Rightarrow> [])" for t
    by (simp add: treeLibrary_def treeNestedSpec_def)
  show "treeContent t' = (treeKind t, treeName t, treeNamespace t, Some (JObj m))"
    if "tl_setSpec treeLibrary m t = Inr t'" for m t t'
    using that by (cases t) (auto simp: treeLibrary_def treeSetSpec_def treeContent_def treeKind_def treeName_def
        treeNamespace_def specOf_def update_conv)
  show "(\<forall>k. k \<noteq> n \<longrightarrow> treesAt s' kind k = treesAt s kind k) \<and>
      (treesAt s kind n = None \<longrightarrow> treesAt s' kind = treesAt s kind)"
    if "tc_delete (treeClient kind) n s = (q, s')" for kind n s q s'
  proof -
    have "treesAt s' kind = treesAt s kind \<or> gone treeMeta (treesAt s kind) n (treesAt s' kind)"
      using tree_store.delete_cases [of kind n s q s'] that by (simp add: treeClient_def treesAt_def [abs_def])
    then show ?thesis
      by (auto simp: gone_def fun_eq_iff simp del: split_paired_All split: option.splits) metis
  qed
qed

section \<open>Properties\<close>

text \<open>C19: however many passes the resync loop makes and however they end, it returns no error, and of the
  objects without a Go type it changes only the shared certificate, the grants for the namespaces
  of the Gateways, and, unless told to leave them alone, the two Gateways; nothing is deleted but
  the certificate, and that only when the user brings a Secret; a Gateway keeps every listener
  that is not the operator's, in its place, and every other field of its spec.\<close>

theorem resync_touches_only_its_objects:
  assumes "tls_cluster (ts_Client r) (ts_library r) viewT" and "startTLS r ticks s = (q, s')"
  shows "q = Inr () \<and>
    (case ts_Config r of
       None \<Rightarrow> viewT s' = viewT s
     | Some cfg \<Rightarrow>
         (\<forall>kind n. (kind, n) \<notin> tlsObjects cfg \<longrightarrow> viewT s' kind n = viewT s kind n) \<and>
         (\<forall>kind n. kind \<noteq> ''Certificate'' \<or> cfg_TLSSecretName cfg = [] \<longrightarrow>
            viewT s kind n \<noteq> None \<longrightarrow> viewT s' kind n \<noteq> None) \<and>
         (\<forall>n. rel_option (gatewayKept (ts_library r)) (viewT s ''Gateway'' n) (viewT s' ''Gateway'' n)))"
  using tls_cluster.start_kept [OF assms(1) refl refl assms(2)]
  by (auto simp: tlsKept_def simp del: split_paired_All split: option.splits)

definition resyncStart :: cluster where
  "resyncStart = emptyCluster\<lparr>cl_trees := (\<lambda>k. if k = ''Gateway''
     then [((''egs'', ''gw''), JObj [(''kind'', JStr ''Gateway''),
       (''metadata'', JObj [(''name'', JStr ''gw''), (''namespace'', JStr ''egs'')]),
       (''spec'', JObj [(''gatewayClassName'', JStr ''eg''),
          (''listeners'', JArr [JObj [(''name'', JStr ''https''), (''port'', JInt 443)]])])])] else [])\<rparr>"

definition resyncer :: "cluster ClusterTLSSingleton" where
  "resyncer = \<lparr>ts_Client = treeClient, ts_library = treeLibrary, ts_Config = Some sampleConfig, ts_Interval = 0\<rparr>"

lemma resyncer_cluster: "tls_cluster (ts_Client resyncer) (ts_library resyncer) treesAt"
  using tls.tls_cluster_axioms by (simp add: resyncer_def)

lemma resyncStart_gateway: "treesAt resyncStart ''Gateway'' (''egs'', ''gw'') \<noteq> None"
  by code_simp

theorem resync_touches_only_its_objects_witness:
  "\<exists>g g'. treesAt resyncStart ''Gateway'' (''egs'', ''gw'') = Some g \<and>
     treesAt (snd (startTLS resyncer 3 resyncStart)) ''Gateway'' (''egs'', ''gw'') = Some g' \<and>
     gatewayKept treeLibrary g g'"
proof -
  have "rel_option (gatewayKept treeLibrary) (treesAt resyncStart ''Gateway'' (''egs'', ''gw''))
      (treesAt (snd (startTLS resyncer 3 resyncStart)) ''Gateway'' (''egs'', ''gw''))"
    using resync_touches_only_its_objects [OF resyncer_cluster prod.collapse [symmetric]]
    by (simp add: resyncer_def)
  with resyncStart_gateway show ?thesis by (auto elim!: option.rel_cases)
qed

text \<open>C20: the pass is idempotent. When it ends without an error, certificate, grants and listeners are as
  wanted, by the comparisons the code makes, and a further pass, with nothing else writing in between, changes nothing, however it
  ends. In the mode where the user brings the Secret this holds once the old certificate is gone.\<close>

theorem resync_settles:
  assumes "tls_cluster (ts_Client r) (ts_library r) viewT" and "ts_Config r = Some cfg"
    and "ReconcileTLS r s = (Inr (), s1)"
    and "cfg_TLSSecretName cfg \<noteq> [] \<longrightarrow> viewT s1 ''Certificate'' (certificateAt cfg) = None"
    and "viewT t = viewT s1" and "ReconcileTLS r t = (q, t')"
  shows "viewT t' = viewT s1 \<and>
    (cfg_BaseDomain cfg \<noteq> [] \<and> cfg_OperatorNamespace cfg \<noteq> [] \<longrightarrow> tlsSettled (ts_library r) cfg (viewT s1))"
proof (cases "cfg_BaseDomain cfg = [] \<or> cfg_OperatorNamespace cfg = []")
  case True
  with assms(2,6) have "t' = t" by (auto simp: ReconcileTLS_def returnE_eq split: if_splits)
  with True assms(5) show ?thesis by auto
next
  case False
  then have set_up: "cfg_BaseDomain cfg \<noteq> []" "cfg_OperatorNamespace cfg \<noteq> []" by simp_all
  have "tlsSettled (ts_library r) cfg (viewT s1)"
    using tls_cluster.pass_effect [OF assms(1,3) refl refl assms(2) set_up, of "()"] assms(4) by blast
  moreover from this have "viewT t' = viewT t"
    using tls_cluster.pass_effect [OF assms(1,6) refl refl assms(2) set_up, of "()"] assms(5) by simp
  ultimately show ?thesis using assms(5) by simp
qed

lemma resyncOnce_value: "fst (ReconcileTLS resyncer resyncStart) = Inr ()"
  by code_simp

theorem resync_settles_witness:
  "treesAt (snd (ReconcileTLS resyncer (snd (ReconcileTLS resyncer resyncStart)))) =
     treesAt (snd (ReconcileTLS resyncer resyncStart))"
proof -
  have cfg: "ts_Config resyncer = Some sampleConfig" and own: "cfg_TLSSecretName sampleConfig = []"
    by (simp_all add: resyncer_def sampleConfig_def)
  have run: "ReconcileTLS resyncer resyncStart = (Inr (), snd (ReconcileTLS resyncer resyncStart))"
    using resyncOnce_value by (metis prod.collapse)
  show ?thesis
    using resync_settles [OF resyncer_cluster cfg run _ refl prod.collapse [symmetric]] own by simp
qed

end
