(* ===== verification/Isolation.thy ===== *)
theory Isolation
  imports Auditing ApiKeys Watcher Middleware Routing
begin

text \<open>
  What the key-manager and the operator give together: the key-manager names the credentials of a
  model in its API-key Secret, the operator turns those names into the allow-list of the model's
  external route, and both decide by the groups of a token who may use a model.
\<close>

section \<open>Where a credential comes from\<close>

text \<open>A client ID as minting builds it for some user of the model.\<close>

definition mintedFor :: "keyEnv \<Rightarrow> string \<Rightarrow> string \<Rightarrow> string \<Rightarrow> bool" where
  "mintedFor env u mn c \<longleftrightarrow> (\<exists>i. c = userPrefixFor (env_sha env) u mn @ itoa i)"

text \<open>\<open>P\<close> is the set of pairs of a user and a model for which keys have been minted.\<close>

definition provenance :: "keyEnv \<Rightarrow> (string \<times> string) set \<Rightarrow> string \<Rightarrow> (nsname \<Rightarrow> secret option) \<Rightarrow> bool" where
  "provenance env P ns v \<longleftrightarrow>
     (\<forall>mn x c. v (ns, secretName mn) = Some x \<longrightarrow> c \<in> dom (map_of (sec_data x)) \<longrightarrow>
        (\<exists>u. (u, mn) \<in> P \<and> mintedFor env u mn c))"

lemma provenance_mono: "provenance env P ns v \<Longrightarrow> P \<subseteq> Q \<Longrightarrow> provenance env Q ns v"
  unfolding provenance_def by blast

lemma nextClientID_minted: "mintedFor env u mn (nextClientID env u mn sec cm)"
  by (auto simp: mintedFor_def nextClientID_def Let_def)

lemma mintedFor_hash:
  "mintedFor env u mn c \<Longrightarrow> mintedFor env u' mn' c \<Longrightarrow>
     userPrefixFor (env_sha env) u mn = userPrefixFor (env_sha env) u' mn' \<and>
     shortHash (env_sha env) [u, mn] = shortHash (env_sha env) [u', mn']"
  by (auto simp: mintedFor_def clientID_eq) (simp add: userPrefixFor_def)

lemma secretName_inj [simp]: "secretName a = secretName b \<longleftrightarrow> a = b"
  by (simp add: secretName_def)

lemma secretName_operator: "APIKeySecretName = secretName"
  by (simp add: fun_eq_iff APIKeySecretName_def APIKeySecretSuffix_def secretName_def)

text \<open>
  The steps that change the credentials: minting and revoking, whatever they report, and any
  other writer that adds none (the operator creates the Secrets empty, keeps their data when it
  relabels them, and deletes them with the model). A mint is labelled with its user and model; a
  run collects the labels.
\<close>

inductive credential_step ::
  "keyEnv \<Rightarrow> 'k Manager \<Rightarrow> ('k \<Rightarrow> nsname \<Rightarrow> secret option) \<Rightarrow> 'k \<Rightarrow> (string \<times> string) list \<Rightarrow> 'k \<Rightarrow> bool"
  for env m vS where
  mint: "createKey env m draws mn u d s = (r, t) \<Longrightarrow> credential_step env m vS s [(u, mn)] t"
| revoke: "revokeKey m mn cid s = (q, t) \<Longrightarrow> credential_step env m vS s [] t"
| other: "(\<And>n x c. vS t n = Some x \<Longrightarrow> c \<in> dom (map_of (sec_data x)) \<Longrightarrow>
      \<exists>x0. vS s n = Some x0 \<and> c \<in> dom (map_of (sec_data x0))) \<Longrightarrow> credential_step env m vS s [] t"

inductive_cases credential_stepE: "credential_step env m vS s l t"

inductive credential_run ::
  "keyEnv \<Rightarrow> 'k Manager \<Rightarrow> ('k \<Rightarrow> nsname \<Rightarrow> secret option) \<Rightarrow> 'k \<Rightarrow> (string \<times> string) list \<Rightarrow> 'k \<Rightarrow> bool"
  for env m vS where
  still: "credential_run env m vS s [] s"
| moves: "credential_step env m vS s l t \<Longrightarrow> credential_run env m vS t ls u \<Longrightarrow>
    credential_run env m vS s (l @ ls) u"

context key_stores
begin

lemma createKeyOnce_provenance:
  assumes "createKeyOnce env m dr mn u d s = (r, t)" and "provenance env P (mgr_namespace m) (viewS s)"
  shows "provenance env (insert (u, mn) P) (mgr_namespace m) (viewS t) \<and>
    (\<forall>res. r = Inr res \<longrightarrow> mintedFor env u mn (ckr_clientID res))"
proof -
  have keep: "provenance env (insert (u, mn) P) (mgr_namespace m) ((viewS s)(secAt mn \<mapsto> y))"
    if "viewS s (secAt mn) = Some sec" "sec_data y = AList.update (nextClientID env u mn sec cm) key (sec_data sec)"
    for sec cm key y
    using assms(2) that nextClientID_minted [of env u mn sec cm]
    by (auto simp: provenance_def) (metis domI)
  show ?thesis
    using createKeyOnce_effect [OF assms(1)]
  proof (elim disjE exE conjE, goal_cases)
    case (1 e)
    with provenance_mono [OF assms(2), of "insert (u, mn) P"] show ?case by auto
  next
    case C: (2 sec cm key y e)
    show ?case using keep [OF C(1,4)] C by simp
  next
    case C: (3 sec cm key y js z e)
    show ?case using keep [OF C(1,4)] C by simp
  next
    case C: (4 sec cm key y js z)
    show ?case using keep [OF C(1,4)] C nextClientID_minted by simp
  qed
qed

lemma createKeyAttempts_provenance:
  "createKeyAttempts env m draws mn u d n s = (r, t) \<Longrightarrow> provenance env P (mgr_namespace m) (viewS s) \<Longrightarrow>
     provenance env (insert (u, mn) P) (mgr_namespace m) (viewS t) \<and>
     (\<forall>res. r = Inr res \<longrightarrow> mintedFor env u mn (ckr_clientID res))"
proof (induction n arbitrary: s P)
  case 0
  with provenance_mono [OF 0(2), of "insert (u, mn) P"] show ?case by auto
next
  case (Suc n)
  obtain r1 s1 where once: "createKeyOnce env m (draws n) mn u d s = (r1, s1)" by fastforce
  note one = createKeyOnce_provenance [OF once Suc.prems(2)]
  show ?case
  proof (cases "\<exists>e. r1 = Inl e \<and> isConflict e")
    case True
    with Suc.prems once have "createKeyAttempts env m draws mn u d n s1 = (r, t)" by auto
    from Suc.IH [OF this] one show ?thesis by fastforce
  next
    case False
    with Suc.prems(1) once have "r = r1" "t = s1" by (cases r1; auto)+
    with one show ?thesis by simp
  qed
qed

lemma createKey_provenance:
  assumes "createKey env m draws mn u d s = (r, t)" and "provenance env P (mgr_namespace m) (viewS s)"
  shows "provenance env (insert (u, mn) P) (mgr_namespace m) (viewS t) \<and>
    (\<forall>res. r = Inr res \<longrightarrow> mintedFor env u mn (ckr_clientID res))"
  using assms createKeyAttempts_provenance [OF _ assms(2)] provenance_mono [OF assms(2), of "insert (u, mn) P"]
  by (auto simp: createKey_def split: if_splits)

lemma minted_key_stored:
  assumes "createKey env m draws mn u d s = (Inr res, t)"
  shows "\<exists>x. viewS t (secAt mn) = Some x \<and> ckr_clientID res \<in> dom (map_of (sec_data x))"
  using createKey_spec [OF assms] by (auto simp: stored_def)

lemma provenance_no_new:
  assumes "provenance env P ns (viewS s)"
    and "\<And>n x c. viewS t n = Some x \<Longrightarrow> c \<in> dom (map_of (sec_data x)) \<Longrightarrow>
      \<exists>x0. viewS s n = Some x0 \<and> c \<in> dom (map_of (sec_data x0))"
  shows "provenance env P ns (viewS t)"
  using assms unfolding provenance_def by metis

lemma revokeKey_no_new:
  assumes "revokeKey m mn cid s = (q, t)" and "viewS t n = Some x" and "c \<in> dom (map_of (sec_data x))"
  shows "\<exists>x0. viewS s n = Some x0 \<and> c \<in> dom (map_of (sec_data x0))"
proof -
  have "shrinks viewS viewM s t"
    using revokeKeyAttempts_shrinks assms(1) by (simp add: revokeKey_def)
  then have "rel_option (\<lambda>x x'. map_of (sec_data x') \<subseteq>\<^sub>m map_of (sec_data x)) (viewS s n) (viewS t n)"
    by (simp add: shrinks_def del: split_paired_All)
  with assms(2,3) show ?thesis by (cases "viewS s n") (auto simp: map_le_def dom_def)
qed

lemma credential_step_provenance:
  assumes "credential_step env m viewS s l t" and "provenance env P (mgr_namespace m) (viewS s)"
  shows "provenance env (P \<union> set l) (mgr_namespace m) (viewS t)"
  using assms(1)
proof (rule credential_stepE)
  fix draws mn u d r
  assume "l = [(u, mn)]" "createKey env m draws mn u d s = (r, t)"
  then show ?thesis using createKey_provenance assms(2) by fastforce
next
  fix mn cid q
  assume "l = []" "revokeKey m mn cid s = (q, t)"
  then show ?thesis using provenance_no_new [OF assms(2)] revokeKey_no_new by auto
qed (use provenance_no_new [OF assms(2)] in simp)

lemma credential_run_provenance:
  "credential_run env m viewS s l t \<Longrightarrow> provenance env P (mgr_namespace m) (viewS s) \<Longrightarrow>
     provenance env (P \<union> set l) (mgr_namespace m) (viewS t)"
proof (induction arbitrary: P rule: credential_run.induct)
  case (moves s l t ls u)
  from moves.IH [OF credential_step_provenance [OF moves.hyps(1) moves.prems]] show ?case by (simp add: Un_assoc)
qed simp

end

section \<open>Groups\<close>


lemma external_policy:
  assumes "BuildAuthResources A cfg ids pool = Inr ar" and "ar_ExternalSecurityPolicy ar = Some p"
  shows "p = buildExternalSecurityPolicy A ids pool"
  using assms by (auto simp: BuildAuthResources_def Let_def split: if_splits)


section \<open>Properties\<close>

text \<open>The run of the closed instance.\<close>

definition isoRun :: "(gerror + CreateKeyResult) \<times> cluster" where
  "isoRun = createKey sampleKeyEnv serverManager sampleDraws ''m'' ''alice'' ''d'' (sampleCluster [] [] [])"

definition isoKey :: CreateKeyResult where
  "isoKey = \<lparr>ckr_clientID = ''user-alice-m-616c696365006d000000000000000000-1'',
     ckr_apiKey = ''sk-YWJjZGVmZ2hpamtsbW5vcHFyc3R1dnd4''\<rparr>"

lemma isoRun_value: "fst isoRun = Inr isoKey"
  by code_simp

definition isoRequest :: gateway_request where
  "isoRequest = \<lparr>gr_headers = [(apiKeyClientIDHeader, ckr_clientID isoKey)], gr_claims = []\<rparr>"

definition isoModel :: "string \<Rightarrow> LLMModel" where
  "isoModel n = sampleModel n ''llm'' (groupAccess [''ml''])"

lemma isoModel_name [simp]: "lm_name (isoModel n) = n"
  by (simp add: lm_name_def isoModel_def sampleModel_def newMeta_def)

lemma isoModel_builds:
  "\<exists>ar p. BuildAuthResources (isoModel n) sampleConfig ids pool = Inr ar \<and> ar_ExternalSecurityPolicy ar = Some p"
  "\<exists>ar p. BuildAuthResources (isoModel n) sampleConfig ids pool = Inr ar \<and> ar_InternalSecurityPolicy ar = Some p"
  by (simp_all add: BuildAuthResources_def Let_def isoModel_def sampleModel_def)

lemma isoStart_empty:
  "secretsAt (sampleCluster [] [] []) n = Some x \<Longrightarrow> sec_data x = []"
  by (auto simp: secretsAt_def visible_def sampleCluster_def sampleSecret_def split: if_splits)

text \<open>C1: a key is admitted on the external route of a model only if it was minted for this very model,
  and right after minting it is admitted there; the only other way in is a real collision, of the
  client-ID prefix and with it of the 128-bit digest, between the pair of user and model it was
  minted for and a pair of some user and the other model for which a key was minted, too. The
  Secrets may have been changed before and after by any mints, failed or not, revocations, and
  writers that add no credential.\<close>

theorem key_admitted_only_at_its_model:
  assumes "key_stores m vS vM" and "envoy_gateway allows"
    and "provenance env P (mgr_namespace m) (vS s0)" and "credential_run env m vS s0 before s"
    and "createKey env m draws mn u d s = (Inr res, s1)" and "credential_run env m vS s1 after s2"
    and "BuildAuthResources A cfg
      (ClientIDsFromSecret (vS s2 (mgr_namespace m, APIKeySecretName (lm_name A)))) pool = Inr ar"
    and "ar_ExternalSecurityPolicy ar = Some p"
    and "map_of (gr_headers r) apiKeyClientIDHeader = Some (ckr_clientID res)"
  shows "(allows (authorizationOf p) r \<longrightarrow> lm_name A = mn \<or>
      (\<exists>u'. (u', lm_name A) \<in> P \<union> set before \<union> set after \<and>
         userPrefixFor (env_sha env) u' (lm_name A) = userPrefixFor (env_sha env) u mn \<and>
         shortHash (env_sha env) [u', lm_name A] = shortHash (env_sha env) [u, mn])) \<and>
    (s2 = s1 \<and> lm_name A = mn \<longrightarrow> allows (authorizationOf p) r)"
proof -
  let ?ids = "ClientIDsFromSecret (vS s2 (mgr_namespace m, secretName (lm_name A)))"
  let ?Q = "insert (u, mn) (P \<union> set before) \<union> set after"
  note new = key_stores.createKey_provenance [OF assms(1,5)
      key_stores.credential_run_provenance [OF assms(1,4,3)]]
  have prov: "provenance env ?Q (mgr_namespace m) (vS s2)"
    using key_stores.credential_run_provenance [OF assms(1,6)] new by blast
  have allowed: "allows (authorizationOf p) r \<longleftrightarrow> ckr_clientID res \<in> set ?ids"
    using external_policy [OF assms(7,8)] assms(9)
    by (simp add: buildExternalSecurityPolicy_def envoy_gateway.external_allows_iff [OF assms(2)]
        secretName_operator)
  show ?thesis
  proof (intro conjI impI)
    assume "allows (authorizationOf p) r"
    with allowed obtain x where "vS s2 (mgr_namespace m, secretName (lm_name A)) = Some x"
      "ckr_clientID res \<in> dom (map_of (sec_data x))"
      by (cases "vS s2 (mgr_namespace m, secretName (lm_name A))")
        (simp_all add: set_ClientIDs, simp add: ClientIDsFromSecret_def)
    with prov obtain u' where "(u', lm_name A) \<in> ?Q" "mintedFor env u' (lm_name A) (ckr_clientID res)"
      unfolding provenance_def by blast
    with new mintedFor_hash show "lm_name A = mn \<or> (\<exists>u'. (u', lm_name A) \<in> P \<union> set before \<union> set after \<and>
         userPrefixFor (env_sha env) u' (lm_name A) = userPrefixFor (env_sha env) u mn \<and>
         shortHash (env_sha env) [u', lm_name A] = shortHash (env_sha env) [u, mn])"
      by blast
  next
    assume "s2 = s1 \<and> lm_name A = mn"
    then show "allows (authorizationOf p) r"
      using key_stores.minted_key_stored [OF assms(1,5)] allowed by (auto simp: set_ClientIDs)
  qed
qed

theorem key_admitted_only_at_its_model_witness:
  "\<exists>s1 ar p ar' p'. createKey sampleKeyEnv serverManager sampleDraws ''m'' ''alice'' ''d'' (sampleCluster [] [] []) =
       (Inr isoKey, s1) \<and>
     BuildAuthResources (isoModel ''m'') sampleConfig
       (ClientIDsFromSecret (secretsAt s1 (''llm'', APIKeySecretName ''m''))) [] = Inr ar \<and>
     ar_ExternalSecurityPolicy ar = Some p \<and> evalAuthorization (authorizationOf p) isoRequest \<and>
     BuildAuthResources (isoModel ''x'') sampleConfig
       (ClientIDsFromSecret (secretsAt s1 (''llm'', APIKeySecretName ''x''))) [] = Inr ar' \<and>
     ar_ExternalSecurityPolicy ar' = Some p' \<and> \<not> evalAuthorization (authorizationOf p') isoRequest"
proof -
  define s0 where "s0 = sampleCluster [] [] []"
  obtain s1 where run: "createKey sampleKeyEnv serverManager sampleDraws ''m'' ''alice'' ''d'' s0 = (Inr isoKey, s1)"
    using isoRun_value by (metis isoRun_def s0_def prod.collapse)
  have prov: "provenance sampleKeyEnv {} (mgr_namespace serverManager) (secretsAt s0)"
    by (auto simp: provenance_def s0_def dest!: isoStart_empty)
  have hdr: "map_of (gr_headers isoRequest) apiKeyClientIDHeader = Some (ckr_clientID isoKey)"
    by (simp add: isoRequest_def)
  note claim = key_admitted_only_at_its_model [OF server.key_stores_axioms envoy.envoy_gateway_axioms prov
      credential_run.still run credential_run.still _ _ hdr]
  have ns: "mgr_namespace serverManager = ''llm''" by (simp add: serverManager_def)
  obtain ar p where ar: "BuildAuthResources (isoModel ''m'') sampleConfig
      (ClientIDsFromSecret (secretsAt s1 (''llm'', APIKeySecretName ''m''))) [] = Inr ar"
    "ar_ExternalSecurityPolicy ar = Some p" using isoModel_builds by metis
  obtain ar' p' where ar': "BuildAuthResources (isoModel ''x'') sampleConfig
      (ClientIDsFromSecret (secretsAt s1 (''llm'', APIKeySecretName ''x''))) [] = Inr ar'"
    "ar_ExternalSecurityPolicy ar' = Some p'" using isoModel_builds by metis
  have "evalAuthorization (authorizationOf p) isoRequest"
    using claim [of "isoModel ''m''" sampleConfig "[]" ar p] ar ns by simp
  moreover have "\<not> evalAuthorization (authorizationOf p') isoRequest"
    using claim [of "isoModel ''x''" sampleConfig "[]" ar' p'] ar' ns by auto
  ultimately show ?thesis using run ar ar' unfolding s0_def by blast
qed




end
