(* ===== verification/LLMController.thy ===== *)
theory LLMController
  imports Controllers
begin

text \<open>
  \<open>operator/internal/controller/llmmodel_controller.go\<close>: the reconciler of \<open>LLMModel\<close>. A pass is
  an action that returns the delay after which the object is queued again, in milliseconds, or
  none. Errors the code only logs go through \<open>ignoreE\<close>.
\<close>

definition modelConfigHashAnno :: string where
  "modelConfigHashAnno = ''llm.nebari.dev/model-config-hash''"

section \<open>Create or update\<close>

definition createOrUpdatePVC :: "'k clients \<Rightarrow> PersistentVolumeClaim \<Rightarrow> ('k, unit) action" where
  "createOrUpdatePVC K pvc = createOrUpdate (kc_pvc K) (metaKey (pvc_meta pvc))
     (pvc_meta_update (relabel (pvc_meta pvc))) pvc"

definition createOrUpdateConfigMap :: "'k clients \<Rightarrow> configmap \<Rightarrow> ('k, unit) action" where
  "createOrUpdateConfigMap K cm = createOrUpdate (kc_configmap K) (metaKey (cm_meta cm))
     (\<lambda>existing. existing\<lparr>cm_meta := relabel (cm_meta cm) (cm_meta existing), cm_data := cm_data cm\<rparr>) cm"

definition createOrUpdateNetworkPolicy :: "'k clients \<Rightarrow> NetworkPolicy \<Rightarrow> ('k, unit) action" where
  "createOrUpdateNetworkPolicy K np = createOrUpdate (kc_networkpolicy K) (metaKey (npo_meta np))
     (\<lambda>existing. existing\<lparr>npo_podSelector := npo_podSelector np, npo_policyTypes := npo_policyTypes np,
        npo_ingress := npo_ingress np, npo_meta := relabel (npo_meta np) (npo_meta existing)\<rparr>) np"

definition createOrUpdateServiceAccount :: "'k clients \<Rightarrow> ServiceAccount \<Rightarrow> ('k, unit) action" where
  "createOrUpdateServiceAccount K sa = createOrUpdate (kc_serviceaccount K) (metaKey (sac_meta sa))
     (sac_meta_update (relabel (sac_meta sa))) sa"

text \<open>The cluster address assigned by the API server is kept.\<close>

definition createOrUpdateService :: "'k clients \<Rightarrow> Service \<Rightarrow> ('k, unit) action" where
  "createOrUpdateService K svc = createOrUpdate (kc_service K) (metaKey (svc_meta svc))
     (\<lambda>existing. svc\<lparr>svc_clusterIP := svc_clusterIP existing,
        svc_meta := relabel (svc_meta svc) (svc_meta existing)\<rparr>) svc"

definition createOrUpdateDeployment :: "'k clients \<Rightarrow> Deployment \<Rightarrow> ('k, unit) action" where
  "createOrUpdateDeployment K dep = createOrUpdate (kc_deployment K) (metaKey (dep_meta dep))
     (\<lambda>existing. existing\<lparr>dep_spec := dep_spec dep, dep_meta := relabel (dep_meta dep) (dep_meta existing)\<rparr>) dep"

definition createOrUpdateRole :: "'k clients \<Rightarrow> Role \<Rightarrow> ('k, unit) action" where
  "createOrUpdateRole K role = createOrUpdate (kc_role K) (metaKey (rol_meta role))
     (\<lambda>existing. existing\<lparr>rol_rules := rol_rules role, rol_meta := relabel (rol_meta role) (rol_meta existing)\<rparr>) role"

definition createOrUpdateRoleBinding :: "'k clients \<Rightarrow> RoleBinding \<Rightarrow> ('k, unit) action" where
  "createOrUpdateRoleBinding K rb = createOrUpdate (kc_rolebinding K) (metaKey (rlb_meta rb))
     (\<lambda>existing. existing\<lparr>rlb_roleRef := rlb_roleRef rb, rlb_subjects := rlb_subjects rb,
        rlb_meta := relabel (rlb_meta rb) (rlb_meta existing)\<rparr>) rb"

text \<open>
  An object of the model: put into its namespace, given to it as owner, then created or updated.
\<close>

definition SetOwnerReference :: "library \<Rightarrow> LLMModel \<Rightarrow> objmeta \<Rightarrow> gerror + objmeta" where
  "SetOwnerReference L model m = lib_setOwner L ''LLMModel'' (lm_meta model) m"

definition inModelNamespace :: "LLMModel \<Rightarrow> objmeta \<Rightarrow> objmeta" where
  "inModelNamespace model m = m\<lparr>om_namespace := lm_namespace model\<rparr>"

definition applyOwned ::
  "library \<Rightarrow> LLMModel \<Rightarrow> string \<Rightarrow> ('o \<Rightarrow> objmeta) \<Rightarrow> ((objmeta \<Rightarrow> objmeta) \<Rightarrow> 'o \<Rightarrow> 'o) \<Rightarrow>
   ('o \<Rightarrow> ('k, unit) action) \<Rightarrow> 'o \<Rightarrow> ('k, unit) action" where
  "applyOwned L model what metaOf setMeta apply' obj =
     bindE (wrapE (''setting owner on '' @ what)
         (liftE (SetOwnerReference L model (inModelNamespace model (metaOf obj)))))
       (\<lambda>m. wrapE (''reconciling '' @ what) (apply' (setMeta (\<lambda>old. m) obj)))"

section \<open>Storage and credentials\<close>

definition reconcileStorage :: "'k Reconciler \<Rightarrow> LLMModel \<Rightarrow> ('k, StorageResult) action" where
  "reconcileStorage r model =
     bindE (wrapE ''building storage spec'' (liftE (BuildStorageSpec (lib_parseQuantity (rc_library r))
         (rc_environ r) model (cfg_DefaultStorageClassName (rc_Config r)))))
       (\<lambda>storage. bindE
         (case str_PVC storage of
            None \<Rightarrow> returnE ()
          | Some pvc \<Rightarrow> applyOwned (rc_library r) model ''PVC'' pvc_meta pvc_meta_update
              (createOrUpdatePVC (rc_client r)) pvc)
         (\<lambda>u. returnE storage))"

definition reconcileAuthSecretAndConfigMap :: "'k clients \<Rightarrow> AuthResources \<Rightarrow> ('k, unit) action" where
  "reconcileAuthSecretAndConfigMap K auth =
     bindE (wrapE ''reconciling api key secret'' (createOrUpdateSecret K (ar_APIKeySecret auth)))
       (\<lambda>u. wrapE ''reconciling api key metadata configmap''
         (createOrUpdateConfigMapPreserveData K (ar_APIKeyMetadataCM auth)))"

definition reconcileAuth :: "'k Reconciler \<Rightarrow> LLMModel \<Rightarrow> ('k, AuthResources) action" where
  "reconcileAuth r model =
     bindE (wrapE ''reading api key client ids''
         (apiKeyClientIDs (kc_secret (rc_client r)) (lm_name model) (lm_namespace model)))
       (\<lambda>clientIDs. bindE (wrapE ''listing api key secrets''
           (apiKeySecretNamesWith (kc_secret (rc_client r)) (lm_namespace model) (APIKeySecretName (lm_name model))))
         (\<lambda>names. bindE (wrapE ''building auth resources''
             (liftE (BuildAuthResources model (rc_Config r) clientIDs names)))
           (\<lambda>auth. bindE (reconcileAuthSecretAndConfigMap (rc_client r) auth) (\<lambda>u. returnE auth))))"

section \<open>The serving workload\<close>

definition modelConfigHash :: "library \<Rightarrow> LLMModel \<Rightarrow> string" where
  "modelConfigHash L model =
     (let m = spec_model (lm_spec model)
      in hexEncode (take 8 (lib_sum256 L (lm_name model @ mod_source m @ sto_type (mod_storage m) @
           mod_image m @ mod_revision m @ mod_name m))))"

definition annotateHash :: "string \<Rightarrow> objmeta \<Rightarrow> objmeta" where
  "annotateHash h m = m\<lparr>om_annotations := AList.update modelConfigHashAnno h (om_annotations m)\<rparr>"

definition storedHash :: "Deployment \<Rightarrow> string" where
  "storedHash d = (case map_of (om_annotations (dep_meta d)) modelConfigHashAnno of None \<Rightarrow> [] | Some h \<Rightarrow> h)"

text \<open>
  The Deployment of the model. One made for another configuration is deleted, and the result
  \<open>False\<close> ends the step; otherwise it is updated in place or created.
\<close>

definition applyDeployment :: "'k clients \<Rightarrow> string \<Rightarrow> Deployment \<Rightarrow> ('k, bool) action" where
  "applyDeployment K hash dep s =
     (let c = kc_deployment K; n = metaKey (dep_meta dep)
      in case tc_get c n s of
           (Inl e, s') \<Rightarrow>
             if \<not> isNotFound e then (Inl (wrapErr ''getting existing Deployment'' e), s')
             else (case tc_create c dep s' of
                 (Inl e', s'') \<Rightarrow> if isAlreadyExists e' then (Inr True, s'')
                   else (Inl (wrapErr ''creating Deployment'' e'), s'')
               | (Inr x, s'') \<Rightarrow> (Inr True, s''))
         | (Inr existing, s') \<Rightarrow>
             if storedHash existing \<noteq> [] \<and> storedHash existing \<noteq> hash
             then (case tc_delete c n s' of
                 (Inl e, s'') \<Rightarrow> if isNotFound e then (Inr False, s'')
                   else (Inl (wrapErr ''deleting stale Deployment'' e), s'')
               | (Inr u, s'') \<Rightarrow> (Inr False, s''))
             else (case tc_update c (existing\<lparr>dep_spec := dep_spec dep,
                     dep_meta := annotateHash hash (dep_meta existing)\<rparr>) s' of
                 (Inl e, s'') \<Rightarrow> (Inl (wrapErr ''updating Deployment'' e), s'')
               | (Inr x, s'') \<Rightarrow> (Inr True, s'')))"

definition applyTree :: "'k Reconciler \<Rightarrow> LLMModel \<Rightarrow> json \<Rightarrow> ('k, unit) action" where
  "applyTree r model t = ignoreE (createOrUpdateUnstructured (rc_client r) (rc_library r)
     (lib_setTreeNamespace (rc_library r) (lm_namespace model) t))"

definition reconcileModelServiceResources ::
  "'k Reconciler \<Rightarrow> LLMModel \<Rightarrow> ModelServiceResources \<Rightarrow> ('k, unit) action" where
  "reconcileModelServiceResources r model res =
     (let K = rc_client r; L = rc_library r; hash = modelConfigHash L model
      in bindE (applyOwned L model ''ServiceAccount'' sac_meta sac_meta_update
             (createOrUpdateServiceAccount K) (ms_ServiceAccount res))
         (\<lambda>u. bindE (applyOwned L model ''Service'' svc_meta svc_meta_update
             (createOrUpdateService K) (ms_Service res))
         (\<lambda>u. bindE (wrapE ''setting owner on Deployment''
             (liftE (SetOwnerReference L model (inModelNamespace model (dep_meta (ms_Deployment res))))))
         (\<lambda>m. bindE (applyDeployment K hash ((ms_Deployment res)\<lparr>dep_meta := annotateHash hash m\<rparr>))
         (\<lambda>go. if \<not> go then returnE ()
            else case ms_PodMonitor res of None \<Rightarrow> returnE () | Some t \<Rightarrow> applyTree r model t)))))"

section \<open>What follows a served model\<close>

definition reconcileInferencePoolResources ::
  "'k Reconciler \<Rightarrow> LLMModel \<Rightarrow> InferencePoolResources \<Rightarrow> ('k, unit) action" where
  "reconcileInferencePoolResources r model pool =
     (let K = rc_client r; L = rc_library r
      in bindE (applyTree r model (ip_InferencePool pool))
         (\<lambda>u. bindE (applyOwned L model ''EPP ServiceAccount'' sac_meta sac_meta_update
             (createOrUpdateServiceAccount K) (ip_EPPServiceAccount pool))
         (\<lambda>u. bindE (applyOwned L model ''EPP Role'' rol_meta rol_meta_update
             (createOrUpdateRole K) (ip_EPPRole pool))
         (\<lambda>u. bindE (applyOwned L model ''EPP RoleBinding'' rlb_meta rlb_meta_update
             (createOrUpdateRoleBinding K) (ip_EPPRoleBinding pool))
         (\<lambda>u. bindE (applyOwned L model ''EPP Service'' svc_meta svc_meta_update
             (createOrUpdateService K) (ip_EPPService pool))
         (\<lambda>u. bindE (applyOwned L model ''EPP ConfigMap'' cm_meta cm_meta_update
             (createOrUpdateConfigMap K) (ip_EPPConfigMap pool))
         (\<lambda>u. applyOwned L model ''EPP Deployment'' dep_meta dep_meta_update
             (createOrUpdateDeployment K) (ip_EPPDeployment pool))))))))"

definition whenSome :: "('a \<Rightarrow> ('k, unit) action) \<Rightarrow> 'a option \<Rightarrow> ('k, unit) action" where
  "whenSome f x = (case x of None \<Rightarrow> returnE () | Some a \<Rightarrow> f a)"

definition reconcileRoutingResources ::
  "'k Reconciler \<Rightarrow> LLMModel \<Rightarrow> RoutingResources \<Rightarrow> ('k, unit) action" where
  "reconcileRoutingResources r model routing =
     bindE (whenSome (applyTree r model) (rr_ExternalRoute routing))
       (\<lambda>u. whenSome (applyTree r model) (rr_InternalRoute routing))"

definition reconcileSecurityPolicies :: "'k Reconciler \<Rightarrow> AuthResources \<Rightarrow> ('k, unit) action" where
  "reconcileSecurityPolicies r auth =
     (let put = (\<lambda>t. ignoreE (createOrUpdateUnstructured (rc_client r) (rc_library r) t))
      in bindE (whenSome put (ar_ExternalSecurityPolicy auth))
           (\<lambda>u. whenSome put (ar_InternalSecurityPolicy auth)))"

definition reconcileDownstream :: "'k Reconciler \<Rightarrow> LLMModel \<Rightarrow> AuthResources \<Rightarrow> ('k, unit) action" where
  "reconcileDownstream r model auth =
     bindE (wrapE ''building inference pool resources''
         (liftE (BuildInferencePoolResources (lib_jsonToYAML (rc_library r)) model (rc_Config r))))
       (\<lambda>pool. bindE (reconcileInferencePoolResources r model pool)
       (\<lambda>u. bindE (wrapE ''building routing resources'' (liftE (BuildRoutingResources model (rc_Config r))))
       (\<lambda>routing. bindE (reconcileRoutingResources r model routing)
       (\<lambda>u. reconcileSecurityPolicies r auth))))"

section \<open>Phase and status\<close>

definition desiredReplicas :: "Deployment \<Rightarrow> int" where
  "desiredReplicas d = (case dps_replicas (dep_spec d) of None \<Rightarrow> 1 | Some n \<Rightarrow> n)"

definition phaseOf :: "Deployment \<Rightarrow> Pod list \<Rightarrow> LLMModelPhase" where
  "phaseOf dep pods =
     (if list_ex (\<lambda>pod. list_ex id (pd_initRunning pod)) pods then PhaseDownloading
      else if dep_readyReplicas dep = 0 then PhaseStarting
      else if dep_readyReplicas dep \<ge> desiredReplicas dep then PhaseReady else PhaseDegraded)"

definition determinePhase :: "'k clients \<Rightarrow> LLMModel \<Rightarrow> ('k, LLMModelPhase) action" where
  "determinePhase K model s =
     (case tc_get (kc_deployment K) (lm_namespace model, lm_name model) s of
        (Inl e, s') \<Rightarrow> (Inr (if isNotFound e then PhasePending else PhaseError), s')
      | (Inr dep, s') \<Rightarrow>
          (case tc_list (kc_pod K) (lm_namespace model) [(instanceLabel, lm_name model)] s' of
             (Inl e, s'') \<Rightarrow> (Inr PhaseError, s'')
           | (Inr pods, s'') \<Rightarrow> (Inr (phaseOf dep pods), s'')))"

definition servedEndpoints :: "OperatorConfig \<Rightarrow> EndpointStatus \<Rightarrow> EndpointStatus" where
  "servedEndpoints cfg e =
     \<lparr>eps_external = (if cfg_ExternalGatewayName cfg \<noteq> []
        then ''https://'' @ SharedExternalHostname (cfg_BaseDomain cfg) else eps_external e),
      eps_internal = (if cfg_InternalGatewayName cfg \<noteq> []
        then ''https://'' @ SharedInternalHostname (cfg_BaseDomain cfg) else eps_internal e)\<rparr>"

definition updateStatusLLM ::
  "'k clients \<Rightarrow> OperatorConfig \<Rightarrow> LLMModel \<Rightarrow> LLMModelPhase \<Rightarrow> ('k, unit) action" where
  "updateStatusLLM K cfg model phase s =
     (let n = (lm_namespace model, lm_name model)
      in case tc_get (kc_llmmodel K) n s of
           (Inl e, s') \<Rightarrow> ((if isNotFound e then Inr () else Inl e), s')
         | (Inr fresh, s') \<Rightarrow>
             (case tc_get (kc_deployment K) n s' of
                (q, s'') \<Rightarrow>
                  let old = lm_status fresh;
                      reps = (case q of Inl e \<Rightarrow> lst_replicas old
                        | Inr dep \<Rightarrow> \<lparr>rs_ready = dep_readyReplicas dep, rs_desired = desiredReplicas dep\<rparr>)
                  in voidE (tc_status_update (kc_llmmodel K) (fresh\<lparr>lm_status := old
                       \<lparr>lst_phase := phase, lst_observedGeneration := om_generation (lm_meta fresh),
                        lst_replicas := reps, lst_endpoints := servedEndpoints cfg (lst_endpoints old)\<rparr>\<rparr>)) s''))"

section \<open>Reconciling\<close>

definition deleteLegacyGrant :: "'k Reconciler \<Rightarrow> LLMModel \<Rightarrow> ('k, unit) action" where
  "deleteLegacyGrant r model =
     (let ns = cfg_APIKeysNamespace (rc_Config r)
      in if ns \<noteq> [] \<and> ns \<noteq> lm_namespace model
         then ignoreE (deleteIfPresent (kc_tree (rc_client r) ''ReferenceGrant'')
           (ns, lm_name model @ ''-'' @ lm_namespace model @ ''-ref-grant''))
         else returnE ())"

definition reconcileDeleteLLM :: "'k Reconciler \<Rightarrow> LLMModel \<Rightarrow> ('k, int option) action" where
  "reconcileDeleteLLM r model =
     (if \<not> lib_hasFinalizer (rc_library r) (lm_meta model) finalizerName then returnE None
      else bindE (deleteKeyObjects (rc_client r) (lm_namespace model) (lm_name model))
        (\<lambda>u. bindE (deleteLegacyGrant r model)
        (\<lambda>u. bindE (wrapE ''removing finalizer'' (tc_update (kc_llmmodel (rc_client r))
            (model\<lparr>lm_meta := lib_removeFinalizer (rc_library r) (lm_meta model) finalizerName\<rparr>)))
        (\<lambda>x. returnE None))))"

text \<open>The steps from the storage on.\<close>

definition reconcileServing :: "'k Reconciler \<Rightarrow> LLMModel \<Rightarrow> ('k, int option) action" where
  "reconcileServing r model =
     (let K = rc_client r; cfg = rc_Config r
      in bindE (reconcileStorage r model)
         (\<lambda>storage. bindE (reconcileAuth r model)
         (\<lambda>auth. bindE (applyOwned (rc_library r) model ''NetworkPolicy'' npo_meta npo_meta_update
             (createOrUpdateNetworkPolicy K) (BuildNetworkPolicy model cfg))
         (\<lambda>u. bindE (wrapE ''building model service resources''
             (liftE (BuildModelServiceResources model storage cfg)))
         (\<lambda>res. bindE (reconcileModelServiceResources r model res)
         (\<lambda>u. bindE (determinePhase K model)
         (\<lambda>phase. if phase = PhaseDownloading \<or> phase = PhaseStarting
            then bindE (ignoreE (updateStatusLLM K cfg model phase)) (\<lambda>u. returnE (Some 15000))
            else bindE (reconcileDownstream r model auth)
              (\<lambda>u. bindE (updateStatusLLM K cfg model phase) (\<lambda>u. returnE None)))))))))"

definition ReconcileLLM :: "'k Reconciler \<Rightarrow> nsname \<Rightarrow> ('k, int option) action" where
  "ReconcileLLM r req s =
     (let K = rc_client r; L = rc_library r
      in case tc_get (kc_llmmodel K) req s of
           (Inl e, s') \<Rightarrow> ((if isNotFound e then Inr None else Inl e), s')
         | (Inr model, s') \<Rightarrow>
             if om_deleting (lm_meta model) then reconcileDeleteLLM r model s'
             else if \<not> lib_hasFinalizer L (lm_meta model) finalizerName
             then bindE (wrapE ''adding finalizer'' (tc_update (kc_llmmodel K)
                 (model\<lparr>lm_meta := lib_addFinalizer L (lm_meta model) finalizerName\<rparr>)))
               (\<lambda>x. returnE (Some 100)) s'
             else if lst_phase (lm_status model) = PhaseNone
             then (case tc_status_update (kc_llmmodel K) (model\<lparr>lm_status := (lm_status model)\<lparr>lst_phase := PhasePending\<rparr>\<rparr>) s' of
                 (Inl e, s'') \<Rightarrow> (Inr (Some 100), s'')
               | (Inr model', s'') \<Rightarrow> reconcileServing r model' s'')
             else reconcileServing r model s')"

section \<open>What a pass keeps\<close>

text \<open>
  The cluster of the LLMModel controller: what the API server promises for the models
  themselves, besides the promises shared by both controllers.
\<close>

locale llm_cluster =
  controller_cluster "rc_client r" "rc_library r" viewS viewM +
  N: kube_deletes "kc_llmmodel (rc_client r)" viewL lm_meta llmmodelContent
  for r :: "'k Reconciler" and viewS viewM viewL +
  assumes secret_quiet_models: "unaffected viewL (kc_secret (rc_client r))"
    and configmap_quiet_models: "unaffected viewL (kc_configmap (rc_client r))"
    and tree_quiet_models: "unaffected viewL (kc_tree (rc_client r) kind)"
begin

abbreviation kept :: "nsname set \<Rightarrow> 'k \<Rightarrow> 'k \<Rightarrow> bool" where
  "kept \<equiv> keysKept viewS viewM"

lemma keeps_tree [keeps_rules]:
  "keeps (kept E) (createOrUpdateUnstructured (rc_client r) (rc_library r) t)"
  unfolding createOrUpdateUnstructured_def by (intro keeps_rules)

lemma keeps_applyTree [keeps_rules]: "keeps (kept E) (applyTree r model t)"
  unfolding applyTree_def by (intro keeps_rules)

lemma keeps_applyOwned [keeps_rules]:
  "(\<And>m. keeps (kept E) (ap (setMeta (\<lambda>old. m) obj))) \<Longrightarrow>
     keeps (kept E) (applyOwned (rc_library r) model what metaOf setMeta ap obj)"
  unfolding applyOwned_def by (intro keeps_rules)

lemma keeps_helpers [keeps_rules]:
  "keeps (kept E) (createOrUpdatePVC (rc_client r) x1)"
  "keeps (kept E) (createOrUpdateNetworkPolicy (rc_client r) x2)"
  "keeps (kept E) (createOrUpdateServiceAccount (rc_client r) x3)"
  "keeps (kept E) (createOrUpdateService (rc_client r) x4)"
  "keeps (kept E) (createOrUpdateDeployment (rc_client r) x5)"
  "keeps (kept E) (createOrUpdateRole (rc_client r) x6)"
  "keeps (kept E) (createOrUpdateRoleBinding (rc_client r) x7)"
  unfolding createOrUpdatePVC_def createOrUpdateNetworkPolicy_def createOrUpdateServiceAccount_def
    createOrUpdateService_def createOrUpdateDeployment_def createOrUpdateRole_def
    createOrUpdateRoleBinding_def
  by (intro keeps_rules)+

lemma keeps_storage [keeps_rules]: "keeps (kept E) (reconcileStorage r model)"
  unfolding reconcileStorage_def by (intro keeps_rules)

lemma keeps_auth [keeps_rules]: "keeps (kept E) (reconcileAuth r model)"
proof -
  have "keeps (kept E) (reconcileAuthSecretAndConfigMap (rc_client r) auth)"
    if "BuildAuthResources model cfg ids names = Inr auth" for cfg ids names auth
    using that unfolding reconcileAuthSecretAndConfigMap_def
    by (intro keys.keeps_bind keys.keeps_wrap keeps_createOrUpdateSecret
        keeps_createOrUpdateConfigMapPreserveData)
      (auto simp: BuildAuthResources_def Let_def buildAPIKeySecret_def buildAPIKeyMetadataConfigMap_def
        newMeta_def alive_def)
  then have last: "keeps (kept E) (bindE (wrapE p (liftE (BuildAuthResources model cfg ids names)))
      (\<lambda>auth. bindE (reconcileAuthSecretAndConfigMap (rc_client r) auth) (\<lambda>u. returnE auth)))"
    for p cfg ids names
    by (intro keys.keeps_bind_result keys.keeps_bind keeps_rules) (auto simp: wrapE_Inr liftE_eq)
  show ?thesis unfolding reconcileAuth_def
  proof (rule keys.keeps_bind, goal_cases)
    case (2 ids)
    show ?case by (rule keys.keeps_bind [OF _ last]) (intro keeps_rules)
  qed (intro keeps_rules)
qed

lemma keeps_applyDeployment [keeps_rules]: "keeps (kept E) (applyDeployment (rc_client r) hash dep)"
proof (rule keepsI)
  fix s q s' assume run: "applyDeployment (rc_client r) hash dep s = (q, s')"
  let ?c = "kc_deployment (rc_client r)" and ?n = "metaKey (dep_meta dep)"
  have get: "keeps (kept E) (tc_get ?c ?n)" and create: "keeps (kept E) (tc_create ?c dep)"
    and delete: "keeps (kept E) (tc_delete ?c ?n)" and update: "\<And>y. keeps (kept E) (tc_update ?c y)"
    by (intro keeps_rules)+
  obtain g t where g: "tc_get ?c ?n s = (g, t)" by fastforce
  have "s' = t \<or> kept E t s'"
    using run g by (auto simp: applyDeployment_def Let_def split: sum.splits prod.splits if_splits
        dest: keepsD [OF create] keepsD [OF delete] keepsD [OF update])
  with keepsD [OF get g] keys.trans show "kept E s s'" by blast
qed

lemma keeps_modelService [keeps_rules]: "keeps (kept E) (reconcileModelServiceResources r model res)"
  unfolding reconcileModelServiceResources_def Let_def by (intro keeps_rules)

text \<open>The only ConfigMap whose data the controller writes is the endpoint picker's.\<close>

lemma epp_config_name: "\<not> isKeyMetadata (ns, x @ ''-epp-config'')"
proof
  assume "isKeyMetadata (ns, x @ ''-epp-config'')"
  then obtain y where "x @ ''-epp-config'' = y @ ''-api-key-metadata''"
    by (auto simp: isKeyMetadata_def hasSuffix_iff suffix_def)
  then have "last (x @ ''-epp-config'') = last (y @ ''-api-key-metadata'')" by (rule arg_cong)
  then show False by simp
qed

lemma keeps_eppConfigMap:
  assumes "cm_meta cm = newMeta (x @ ''-epp-config'') [] labels"
  shows "keeps (kept E) (applyOwned (rc_library r) model what cm_meta cm_meta_update
    (createOrUpdateConfigMap (rc_client r)) cm)"
  unfolding applyOwned_def
proof (rule keys.keeps_bind_result)
  fix s :: 'k and m t
  assume "wrapE (''setting owner on '' @ what) (liftE (SetOwnerReference (rc_library r) model
    (inModelNamespace model (cm_meta cm)))) s = (Inr m, t)"
  then have "lib_setOwner (rc_library r) ''LLMModel'' (lm_meta model) (inModelNamespace model (cm_meta cm)) = Inr m"
    by (simp add: wrapE_Inr liftE_eq SetOwnerReference_def)
  from set_ownerD [OF this] assms have m: "metaKey m = (lm_namespace model, x @ ''-epp-config'')" "alive m"
    by (simp_all add: inModelNamespace_def metaKey_def alive_def newMeta_def)
  have "keeps (kept E) (createOrUpdateConfigMap (rc_client r) (cm_meta_update (\<lambda>old. m) cm))"
    unfolding createOrUpdateConfigMap_def
    by (rule keeps_other_configmap) (use m epp_config_name in \<open>auto simp: relabel_def metaKey_def alive_def\<close>)
  then show "keeps (kept E) (wrapE (''reconciling '' @ what)
      (createOrUpdateConfigMap (rc_client r) (cm_meta_update (\<lambda>old. m) cm)))" by (rule keys.keeps_wrap)
qed (intro keeps_rules)

lemma keeps_pool:
  assumes "BuildInferencePoolResources js model cfg = Inr pool"
  shows "keeps (kept E) (reconcileInferencePoolResources r model pool)"
proof -
  have "cm_meta (ip_EPPConfigMap pool) = newMeta ((lm_name model @ ''-epp'') @ ''-config'') [] (StandardLabels model)"
    using assms by (auto simp: BuildInferencePoolResources_def Let_def buildEPPConfigMap_def
        eppConfigMapName_def split: sum.splits)
  then have "cm_meta (ip_EPPConfigMap pool) = newMeta (lm_name model @ ''-epp-config'') [] (StandardLabels model)"
    by simp
  then show ?thesis unfolding reconcileInferencePoolResources_def Let_def
    by (intro keys.keeps_bind keeps_eppConfigMap) (assumption | intro keeps_rules)+
qed

lemma keeps_routing [keeps_rules]: "keeps (kept E) (reconcileRoutingResources r model routing)"
  unfolding reconcileRoutingResources_def whenSome_def by (intro keeps_rules)

lemma keeps_policies [keeps_rules]: "keeps (kept E) (reconcileSecurityPolicies r auth)"
  unfolding reconcileSecurityPolicies_def whenSome_def Let_def by (intro keeps_rules)

lemma keeps_downstream [keeps_rules]: "keeps (kept E) (reconcileDownstream r model auth)"
  unfolding reconcileDownstream_def
proof (rule keys.keeps_bind_result, goal_cases)
  case (2 s pool t)
  then have "BuildInferencePoolResources (lib_jsonToYAML (rc_library r)) model (rc_Config r) = Inr pool"
    by (simp add: wrapE_Inr liftE_eq)
  from keeps_pool [OF this] show ?case
    by (rule keys.keeps_bind) (intro keeps_rules)
qed (intro keeps_rules)

lemma keeps_phase [keeps_rules]: "keeps (kept E) (determinePhase (rc_client r) model)"
proof (rule keepsI)
  fix s q s' assume run: "determinePhase (rc_client r) model s = (q, s')"
  let ?n = "(lm_namespace model, lm_name model)"
  have get: "keeps (kept E) (tc_get (kc_deployment (rc_client r)) ?n)"
    and ls: "\<And>ns sel. keeps (kept E) (tc_list (kc_pod (rc_client r)) ns sel)"
    by (intro keeps_rules)+
  obtain g t where g: "tc_get (kc_deployment (rc_client r)) ?n s = (g, t)" by fastforce
  have "s' = t \<or> kept E t s'"
    using run g by (auto simp: determinePhase_def split: sum.splits prod.splits if_splits dest: keepsD [OF ls])
  with keepsD [OF get g] keys.trans show "kept E s s'" by blast
qed

lemma keeps_status [keeps_rules]: "keeps (kept E) (updateStatusLLM (rc_client r) cfg model phase)"
proof (rule keepsI)
  fix s q s' assume run: "updateStatusLLM (rc_client r) cfg model phase s = (q, s')"
  let ?n = "(lm_namespace model, lm_name model)"
  have get: "keeps (kept E) (tc_get (kc_llmmodel (rc_client r)) ?n)"
    and dep: "keeps (kept E) (tc_get (kc_deployment (rc_client r)) ?n)"
    and put: "\<And>x. keeps (kept E) (voidE (tc_status_update (kc_llmmodel (rc_client r)) x))"
    by (intro keeps_rules)+
  obtain g t where g: "tc_get (kc_llmmodel (rc_client r)) ?n s = (g, t)" by fastforce
  obtain d u where d: "tc_get (kc_deployment (rc_client r)) ?n t = (d, u)" by fastforce
  have "s' = t \<or> kept E u s'"
    using run g d by (auto simp: updateStatusLLM_def Let_def split: sum.splits dest: keepsD [OF put])
  with keepsD [OF get g] keepsD [OF dep d] keys.trans show "kept E s s'" by blast
qed

lemma keeps_serving: "keeps (kept E) (reconcileServing r model)"
  unfolding reconcileServing_def Let_def by (intro keeps_rules)

lemma keeps_delete:
  assumes "lm_namespace model = fst req" and "lm_name model = snd req"
  shows "keeps (kept (keyObjects req)) (reconcileDeleteLLM r model)"
proof -
  have "keeps (kept (keyObjects req)) (deleteKeyObjects (rc_client r) (lm_namespace model) (lm_name model))"
    using keeps_deleteKeyObjects [of "fst req" "snd req"] assms by simp
  then show ?thesis unfolding reconcileDeleteLLM_def deleteLegacyGrant_def Let_def
    by (intro keys.keeps_bind keys.keeps_if) (assumption | intro keeps_rules)+
qed

text \<open>The keys a pass may touch: those of its own model, and only once that is being deleted.\<close>

lemma reconcile_keeps:
  assumes run: "ReconcileLLM r req s = (res, s')"
  shows "kept (case viewL s req of Some m \<Rightarrow> if om_deleting (lm_meta m) then keyObjects req else {}
    | None \<Rightarrow> {}) s s'"
proof -
  obtain g t where g: "tc_get (kc_llmmodel (rc_client r)) req s = (g, t)" by fastforce
  have get: "keeps (kept E) (tc_get (kc_llmmodel (rc_client r)) req)"
    and upd: "\<And>x. keeps (kept E) (tc_update (kc_llmmodel (rc_client r)) x)"
    and st: "\<And>x. keeps (kept E) (tc_status_update (kc_llmmodel (rc_client r)) x)" for E
    by (intro keeps_rules)+
  have st': "kept E s t" for E by (rule keepsD [OF get g])
  show ?thesis
  proof (cases g)
    case (Inl e)
    with run g have "s' = t" by (simp add: ReconcileLLM_def Let_def)
    with st' show ?thesis by simp
  next
    case (Inr m)
    from N.get_ok [OF g [unfolded Inr]] have m: "viewL s req = Some m" by blast
    from N.view_key [OF this] have key: "lm_namespace m = fst req" "lm_name m = snd req"
      by (auto simp: metaKey_def lm_namespace_def lm_name_def)
    show ?thesis
    proof (cases "om_deleting (lm_meta m)")
      case True
      with run g Inr have "reconcileDeleteLLM r m t = (res, s')" by (simp add: ReconcileLLM_def Let_def)
      from keepsD [OF keeps_delete [OF key] this] st' [of "keyObjects req"] keys.trans
      show ?thesis using m True by auto
    next
      case False
      have "keeps (kept {}) (bindE (wrapE p (tc_update (kc_llmmodel (rc_client r)) x)) (\<lambda>x. returnE v))"
        for p x and v :: "int option" by (intro keeps_rules)
      then have "kept {} t s'"
        using run g Inr False
        by (auto simp: ReconcileLLM_def Let_def split: prod.splits sum.splits if_splits
            dest!: keepsD [OF st] keepsD [OF keeps_serving] keepsD intro: keys.trans)
      with st' [of "{}"] keys.trans m False show ?thesis by auto
    qed
  qed
qed

text \<open>The end of a model.\<close>

lemma models_deleteIfPresent:
  "keeps (same viewL) (deleteIfPresent (kc_secret (rc_client r)) n)"
  "keeps (same viewL) (deleteIfPresent (kc_configmap (rc_client r)) n)"
  "keeps (same viewL) (deleteIfPresent (kc_tree (rc_client r) kind) n)"
  by (rule frame.keeps_deleteIfPresent;
      auto intro!: frame.intro simp: same_def
        intro: clientKeepsD [OF iffD1 [OF unaffected_def secret_quiet_models]]
          clientKeepsD [OF iffD1 [OF unaffected_def configmap_quiet_models]]
          clientKeepsD [OF iffD1 [OF unaffected_def tree_quiet_models]])+

lemma models_deleteKeyObjects: "deleteKeyObjects (rc_client r) ns mn s = (Inr u, s') \<Longrightarrow> viewL s' = viewL s"
  by (auto simp: deleteKeyObjects_def bindE_Inr wrapE_Inr dest!: keeps_sameD [OF models_deleteIfPresent(1)]
      keeps_sameD [OF models_deleteIfPresent(2)])

lemma legacy_grant_effect:
  assumes "deleteLegacyGrant r model s = (q, s')"
  shows "viewL s' = viewL s \<and> viewS s' = viewS s \<and> viewM s' = viewM s"
proof -
  have "keeps (same (\<lambda>s. (viewS s, viewM s))) (deleteIfPresent (kc_tree (rc_client r) kind) n)" for kind n
    by (rule frame.keeps_deleteIfPresent;
        auto intro!: frame.intro simp: same_def intro: clientKeepsD [OF iffD1 [OF unaffected_def quiet_tree]])
  note pair = keeps_sameD [OF this]
  show ?thesis using assms keeps_sameD [OF models_deleteIfPresent(3)]
    by (fastforce simp: deleteLegacyGrant_def Let_def ignoreE_eq returnE_eq split: if_splits dest: pair)
qed

lemma delete_effect:
  assumes run: "reconcileDeleteLLM r m s = (Inr x, s')" and m: "viewL s req = Some m"
    and del: "om_deleting (lm_meta m)" and has: "finalizerName \<in> set (om_finalizers (lm_meta m))"
  shows "gone sec_meta (viewS s) (fst req, APIKeySecretName (snd req)) (viewS s') \<or>
      (viewS s' = viewS s \<and> unreadable (kc_secret (rc_client r)) (fst req, APIKeySecretName (snd req)) s)"
    and "gone cm_meta (viewM s) (fst req, APIKeyMetadataConfigMapName (snd req)) (viewM s') \<or>
      (viewM s' = viewM s \<and> unreadable (kc_configmap (rc_client r)) (fst req, APIKeyMetadataConfigMapName (snd req))
        (snd (deleteIfPresent (kc_secret (rc_client r)) (fst req, APIKeySecretName (snd req)) s)))"
    and "case viewL s' req of None \<Rightarrow> set (om_finalizers (lm_meta m)) = {finalizerName}
     | Some y \<Rightarrow> set (om_finalizers (lm_meta y)) = set (om_finalizers (lm_meta m)) - {finalizerName}"
proof -
  let ?m = "m\<lparr>lm_meta := lib_removeFinalizer (rc_library r) (lm_meta m) finalizerName\<rparr>"
  have key: "lm_namespace m = fst req" "lm_name m = snd req" "metaKey (lm_meta m) = req"
    using N.view_key [OF m] by (auto simp: metaKey_def lm_namespace_def lm_name_def)
  from run has obtain u v t1 t2 y where 1: "deleteKeyObjects (rc_client r) (fst req) (snd req) s = (Inr u, t1)"
    and 2: "deleteLegacyGrant r m t1 = (Inr v, t2)"
    and 3: "tc_update (kc_llmmodel (rc_client r)) ?m t2 = (Inr y, s')"
    by (auto simp: reconcileDeleteLLM_def has_finalizer bindE_Inr wrapE_Inr returnE_eq key)
  note t2 = legacy_grant_effect [OF 2]
  have s': "viewS s' = viewS t2" "viewM s' = viewM t2"
    using quietD(4) [OF quiet_llmmodel 3] by auto
  have m2: "viewL t2 req = Some m" using t2 models_deleteKeyObjects [OF 1] m by simp
  have meta: "lm_meta ?m = (lm_meta m)\<lparr>om_finalizers := removeAll finalizerName (om_finalizers (lm_meta m))\<rparr>"
    by (simp add: remove_finalizer)
  then have key': "metaKey (lm_meta ?m) = req" using key(3) by (simp add: metaKey_def)
  show "case viewL s' req of None \<Rightarrow> set (om_finalizers (lm_meta m)) = {finalizerName}
     | Some y \<Rightarrow> set (om_finalizers (lm_meta y)) = set (om_finalizers (lm_meta m)) - {finalizerName}"
  proof (cases "alive (lm_meta ?m)")
    case True
    from N.update_ok [OF 3 True] key' have "viewL s' req = Some y" "llmmodelContent y = llmmodelContent ?m" by auto
    then show ?thesis by (auto simp: llmmodelContent_def written_def meta dest: arg_cong [where f = om_finalizers])
  next
    case False
    then have "removeAll finalizerName (om_finalizers (lm_meta m)) = []" by (simp add: alive_def meta)
    then have "set (om_finalizers (lm_meta m)) = {finalizerName}"
      using has by (metis Diff_eq_empty_iff empty_set insert_absorb insert_not_empty set_removeAll subset_singletonD)
    with N.release_ok [OF 3 False] key' show ?thesis by simp
  qed
  show "gone sec_meta (viewS s) (fst req, APIKeySecretName (snd req)) (viewS s') \<or>
      (viewS s' = viewS s \<and> unreadable (kc_secret (rc_client r)) (fst req, APIKeySecretName (snd req)) s)"
    using deleteKeyObjects_effect(1) [OF 1] t2 s' by simp
  show "gone cm_meta (viewM s) (fst req, APIKeyMetadataConfigMapName (snd req)) (viewM s') \<or>
      (viewM s' = viewM s \<and> unreadable (kc_configmap (rc_client r)) (fst req, APIKeyMetadataConfigMapName (snd req))
        (snd (deleteIfPresent (kc_secret (rc_client r)) (fst req, APIKeySecretName (snd req)) s)))"
    using deleteKeyObjects_effect(2) [OF 1] t2 s' by simp
qed

lemma pass_releases:
  assumes run: "ReconcileLLM r req s = (Inr x, s')" and m: "viewL s req = Some m"
    and del: "om_deleting (lm_meta m)" and has: "finalizerName \<in> set (om_finalizers (lm_meta m))"
    and t: "t = snd (tc_get (kc_llmmodel (rc_client r)) req s)"
  shows "(gone sec_meta (viewS s) (fst req, APIKeySecretName (snd req)) (viewS s') \<or>
      (viewS s' = viewS s \<and> unreadable (kc_secret (rc_client r)) (fst req, APIKeySecretName (snd req)) t)) \<and>
    (gone cm_meta (viewM s) (fst req, APIKeyMetadataConfigMapName (snd req)) (viewM s') \<or>
      (viewM s' = viewM s \<and> unreadable (kc_configmap (rc_client r)) (fst req, APIKeyMetadataConfigMapName (snd req))
        (snd (deleteIfPresent (kc_secret (rc_client r)) (fst req, APIKeySecretName (snd req)) t)))) \<and>
    (case viewL s' req of None \<Rightarrow> set (om_finalizers (lm_meta m)) = {finalizerName}
     | Some y \<Rightarrow> set (om_finalizers (lm_meta y)) = set (om_finalizers (lm_meta m)) - {finalizerName})"
proof -
  let ?c = "kc_llmmodel (rc_client r)"
  obtain g u where g: "tc_get ?c req s = (g, u)" by fastforce
  then have u: "u = t" using t by simp
  have "\<exists>y. g = Inr y"
    using run g m N.get_err [of req s _ u] by (cases g) (auto simp: ReconcileLLM_def Let_def split: if_splits)
  then have g: "tc_get ?c req s = (Inr m, t)" using g u N.get_ok [of req s _ t] m by auto
  with run del have run': "reconcileDeleteLLM r m t = (Inr x, s')" by (simp add: ReconcileLLM_def Let_def)
  have v: "viewS t = viewS s" "viewM t = viewM s" "viewL t = viewL s"
    using quietD(1) [OF quiet_llmmodel g] N.get_ok [OF g] by auto
  show ?thesis
    using delete_effect [OF run' _ del has, of req] m unfolding v by simp
qed

end

section \<open>The workload\<close>

locale deployment_kind =
  kube_deletes "kc_deployment K" viewD dep_meta deploymentContent for K :: "'k clients" and viewD
begin

lemma applyDeployment_effect:
  assumes run: "applyDeployment K hash dep s = (Inr go, s')" and live: "alive (dep_meta dep)"
    and n: "n = metaKey (dep_meta dep)"
  shows "case viewD s n of
      None \<Rightarrow> go \<and> (\<exists>y. viewD s' = (viewD s)(n \<mapsto> y) \<and> dep_spec y = dep_spec dep \<and> storedHash y = storedHash dep)
    | Some d \<Rightarrow>
        if storedHash d \<noteq> [] \<and> storedHash d \<noteq> hash then \<not> go \<and> gone dep_meta (viewD s) n (viewD s')
        else go \<and> (\<exists>y. viewD s' = (viewD s)(n \<mapsto> y) \<and> dep_spec y = dep_spec dep \<and> storedHash y = hash)"
proof -
  let ?c = "kc_deployment K"
  obtain g t where g: "tc_get ?c n s = (g, t)" by fastforce
  show ?thesis
  proof (cases g)
    case (Inl e)
    note t = get_err [OF g [unfolded Inl]]
    obtain w u where w: "tc_create ?c dep t = (w, u)" by fastforce
    from run g Inl w n have nf: "isNotFound e" and go: "go" and u: "s' = u"
      and ok: "\<forall>x. w = Inl x \<longrightarrow> isAlreadyExists x"
      by (auto simp: applyDeployment_def Let_def split: if_splits sum.splits)
    from t nf have none: "viewD s n = None" and vt: "viewD t = viewD s" by auto
    then obtain y where y: "w = Inr y"
      using w ok create_exists [of dep t _ u] n by (cases w) auto
    from create_ok [OF w [unfolded y] live] none go u vt n show ?thesis
      by (auto simp: deploymentContent_def written_def storedHash_def intro!: exI [of _ y]
          dest: arg_cong [where f = om_annotations])
  next
    case (Inr d)
    from get_ok [OF g [unfolded Inr]] have d: "viewD s n = Some d" and vt: "viewD t = viewD s" by auto
    show ?thesis
    proof (cases "storedHash d \<noteq> [] \<and> storedHash d \<noteq> hash")
      case True
      obtain w u where w: "tc_delete ?c n t = (w, u)" by fastforce
      from run g Inr True w n have "\<not> go" "s' = u" and nf: "\<forall>e. w = Inl e \<longrightarrow> isNotFound e"
        by (auto simp: applyDeployment_def Let_def split: if_splits sum.splits)
      moreover have "gone dep_meta (viewD s) n (viewD u)"
        using w nf delete_ok [of n t _ u] delete_err [of n t _ u] d vt by (cases w) auto
      ultimately show ?thesis using d True by simp
    next
      case False
      let ?x = "d\<lparr>dep_spec := dep_spec dep, dep_meta := annotateHash hash (dep_meta d)\<rparr>"
      from run g Inr False n obtain y where w: "tc_update ?c ?x t = (Inr y, s')" and "go"
        by (auto simp: applyDeployment_def Let_def split: if_splits sum.splits prod.splits)
      moreover have key: "metaKey (dep_meta ?x) = n" "alive (dep_meta ?x)"
        using view_key [OF d] by (auto simp: annotateHash_def metaKey_def alive_def)
      ultimately have "viewD s' = (viewD s)(n \<mapsto> y)" "deploymentContent y = deploymentContent ?x" "go"
        using update_ok [OF w key(2)] vt by auto
      with False d show ?thesis
        by (auto simp: deploymentContent_def written_def storedHash_def annotateHash_def intro!: exI [of _ y]
            dest: arg_cong [where f = om_annotations])
    qed
  qed
qed

text \<open>Two passes are enough, with nothing else writing the Deployment in between.\<close>

lemma two_passes:
  assumes run1: "applyDeployment K hash dep s = (Inr g1, s1)"
    and run2: "applyDeployment K hash dep t1 = (Inr g2, t2)" and between: "viewD t1 = viewD s1"
    and live: "alive (dep_meta dep)" and hash: "storedHash dep = hash"
    and free: "\<And>d. viewD s (metaKey (dep_meta dep)) = Some d \<Longrightarrow> om_finalizers (dep_meta d) = []"
  shows "g2 \<and> (\<exists>y. viewD t2 (metaKey (dep_meta dep)) = Some y \<and> dep_spec y = dep_spec dep \<and> storedHash y = hash)"
proof -
  let ?n = "metaKey (dep_meta dep)"
  note one = applyDeployment_effect [OF run1 live refl]
  note two = applyDeployment_effect [OF run2 live refl]
  have "viewD t1 ?n = None \<or> (\<exists>d. viewD t1 ?n = Some d \<and> \<not> (storedHash d \<noteq> [] \<and> storedHash d \<noteq> hash))"
    using one free hash between by (auto simp: gone_def split: option.splits if_splits)
  with two hash show ?thesis by (auto split: if_splits)
qed

end

text \<open>The fields whose change replaces the workload.\<close>

definition configFields :: "LLMModel \<Rightarrow> string list" where
  "configFields model = (let m = spec_model (lm_spec model)
     in [lm_name model, mod_source m, sto_type (mod_storage m), mod_image m, mod_revision m, mod_name m])"

lemma modelConfigHash_fields:
  "modelConfigHash L model = hexEncode (take 8 (lib_sum256 L (concat (configFields model))))"
  by (simp add: modelConfigHash_def configFields_def Let_def)

section \<open>On the reference server\<close>

interpretation llmc: llm_cluster "clusterReconciler cfg" secretsAt configmapsAt llmmodelsAt for cfg
proof (intro llm_cluster.intro llm_cluster_axioms.intro; unfold clusterReconciler_simps)
  show "controller_cluster clusterClients sampleLibrary secretsAt configmapsAt"
    by (rule ctl.controller_cluster_axioms)
  show "kube_deletes (kc_llmmodel clusterClients) llmmodelsAt lm_meta llmmodelContent"
    using llmmodel_store.kube_deletes_axioms by (simp add: llmmodelClient_def llmmodelsAt_def [abs_def])
qed (unfold clusterClients_simps, (rule unaffected_rules; simp add: at_defs tick_def fun_eq_iff)+)

interpretation served: deployment_kind clusterClients deploymentsAt
  using deployment_store.kube_deletes_axioms
  by (simp add: deployment_kind_def deploymentClient_def deploymentsAt_def [abs_def])

end
