(* ===== verification/PassthroughController.thy ===== *)
theory PassthroughController
  imports Controllers
begin

text \<open>
  \<open>operator/internal/controller/passthroughmodel_controller.go\<close>: the reconciler of
  \<open>PassthroughModel\<close>. A pass returns the delay after which the object is queued again, in
  milliseconds, or none.
\<close>

definition CondBackendConfigured :: string where "CondBackendConfigured = ''BackendConfigured''"
definition CondExternalEndpointReady :: string where
  "CondExternalEndpointReady = ''ExternalEndpointReady''"
definition CondInternalEndpointReady :: string where
  "CondInternalEndpointReady = ''InternalEndpointReady''"

section \<open>Applying objects\<close>

definition pmCreateOrUpdateUnstructured :: "'k clients \<Rightarrow> library \<Rightarrow> json \<Rightarrow> ('k, unit) action" where
  "pmCreateOrUpdateUnstructured K L obj = createOrUpdate (kc_tree K (treeKind obj)) (treeNamespace obj, treeName obj)
     (\<lambda>existing. lib_setTreeVersion L (lib_treeVersion L existing) obj) obj"

lemma pm_createOrUpdateUnstructured_eq [simp]:
  "pmCreateOrUpdateUnstructured = createOrUpdateUnstructured"
  by (simp add: fun_eq_iff pmCreateOrUpdateUnstructured_def createOrUpdateUnstructured_def)

text \<open>
  The loop of \<open>applyAll\<close>: absent objects are skipped, a failed owner reference ends it, any other
  error is kept when it is the first and the loop goes on. The result is the error, if any.
\<close>

fun applyLoop ::
  "'k Reconciler \<Rightarrow> PassthroughModel \<Rightarrow> gerror option \<Rightarrow> json option list \<Rightarrow> 'k \<Rightarrow> gerror option \<times> 'k" where
  "applyLoop r owner firstErr [] s = (firstErr, s)"
| "applyLoop r owner firstErr (None # objs) s = applyLoop r owner firstErr objs s"
| "applyLoop r owner firstErr (Some obj # objs) s =
     (case lib_setTreeOwner (rc_library r) ''PassthroughModel'' (pm_meta owner) obj of
        Inl e \<Rightarrow> (Some (wrapErr (''setting owner on '' @ treeKind obj @ ''/'' @ treeName obj) e), s)
      | Inr t \<Rightarrow>
          (case pmCreateOrUpdateUnstructured (rc_client r) (rc_library r) t s of
             (Inl e, s') \<Rightarrow> applyLoop r owner (case firstErr of None \<Rightarrow> Some e | Some f \<Rightarrow> Some f) objs s'
           | (Inr u, s') \<Rightarrow> applyLoop r owner firstErr objs s'))"

definition applyAll ::
  "'k Reconciler \<Rightarrow> PassthroughModel \<Rightarrow> json option list \<Rightarrow> 'k \<Rightarrow> gerror option \<times> 'k" where
  "applyAll r owner objs = applyLoop r owner None objs"

definition pmCreateOrUpdateSecret :: "'k clients \<Rightarrow> secret \<Rightarrow> ('k, unit) action" where
  "pmCreateOrUpdateSecret K secret = createOrUpdate (kc_secret K) (metaKey (sec_meta secret))
     (sec_meta_update (relabel (sec_meta secret))) secret"

definition pmCreateOrUpdateConfigMap :: "'k clients \<Rightarrow> configmap \<Rightarrow> ('k, unit) action" where
  "pmCreateOrUpdateConfigMap K cm = createOrUpdate (kc_configmap K) (metaKey (cm_meta cm))
     (cm_meta_update (relabel (cm_meta cm))) cm"

lemma pm_createOrUpdate_eq:
  "pmCreateOrUpdateSecret = createOrUpdateSecret"
  "pmCreateOrUpdateConfigMap = createOrUpdateConfigMapPreserveData"
  by (simp_all add: fun_eq_iff pmCreateOrUpdateSecret_def createOrUpdateSecret_def
      pmCreateOrUpdateConfigMap_def createOrUpdateConfigMapPreserveData_def)

section \<open>Conditions and status\<close>

definition conditionFor :: "string \<Rightarrow> gerror option \<Rightarrow> string \<Rightarrow> Condition" where
  "conditionFor condType err okMessage =
     (case err of
        Some e \<Rightarrow> \<lparr>cond_type = condType, cond_status = False, cond_reason = ''ApplyFailed'',
          cond_message = errText e, cond_observedGeneration = 0\<rparr>
      | None \<Rightarrow> \<lparr>cond_type = condType, cond_status = True, cond_reason = ''Applied'',
          cond_message = okMessage, cond_observedGeneration = 0\<rparr>)"

definition disabledCondition :: "string \<Rightarrow> Condition" where
  "disabledCondition condType =
     \<lparr>cond_type = condType, cond_status = False, cond_reason = ''EndpointDisabled'',
      cond_message = ''endpoint disabled in spec'', cond_observedGeneration = 0\<rparr>"

definition boolOrDefaultStatus :: "bool option \<Rightarrow> bool" where
  "boolOrDefaultStatus b = (case b of None \<Rightarrow> True | Some v \<Rightarrow> v)"

definition passthroughEndpointURLs ::
  "OperatorConfig \<Rightarrow> PassthroughEndpoints \<Rightarrow> EndpointStatus \<Rightarrow> EndpointStatus" where
  "passthroughEndpointURLs cfg e old =
     \<lparr>eps_external = (if boolOrDefaultStatus (tog_enabled (pep_external e))
        then ''https://'' @ SharedExternalHostname (cfg_BaseDomain cfg) else eps_external old),
      eps_internal = (if boolOrDefaultStatus (tog_enabled (pep_internal e))
        then ''https://'' @ SharedInternalHostname (cfg_BaseDomain cfg) else eps_internal old)\<rparr>"

definition updateStatusPassthrough ::
  "'k Reconciler \<Rightarrow> PassthroughModel \<Rightarrow> PassthroughModelPhase \<Rightarrow> Condition list \<Rightarrow> ('k, unit) action" where
  "updateStatusPassthrough r pm phase conditions s =
     (let c = kc_passthrough (rc_client r)
      in case tc_get c (pm_namespace pm, pm_name pm) s of
           (Inl e, s') \<Rightarrow> ((if isNotFound e then Inr () else Inl e), s')
         | (Inr fresh, s') \<Rightarrow>
             let g = om_generation (pm_meta fresh); old = pm_status fresh;
                 conds = fold (\<lambda>c cs. lib_setCondition (rc_library r) (c\<lparr>cond_observedGeneration := g\<rparr>) cs)
                   conditions (pst_conditions old)
             in voidE (tc_status_update c (fresh\<lparr>pm_status :=
                  \<lparr>pst_phase = phase, pst_conditions = conds, pst_observedGeneration = g,
                   pst_endpoints = passthroughEndpointURLs (rc_Config r)
                     (pspec_endpoints (pm_spec fresh)) (pst_endpoints old)\<rparr>\<rparr>)) s')"

section \<open>Reconciling\<close>

definition reconcileDeletePassthrough :: "'k Reconciler \<Rightarrow> PassthroughModel \<Rightarrow> ('k, int option) action" where
  "reconcileDeletePassthrough r pm =
     (if \<not> lib_hasFinalizer (rc_library r) (pm_meta pm) finalizerName then returnE None
      else bindE (deleteKeyObjects (rc_client r) (pm_namespace pm) (pm_name pm))
        (\<lambda>u. bindE (wrapE ''removing finalizer'' (tc_update (kc_passthrough (rc_client r))
            (pm\<lparr>pm_meta := lib_removeFinalizer (rc_library r) (pm_meta pm) finalizerName\<rparr>)))
        (\<lambda>x. returnE None)))"

definition gatherPassthrough :: "'k Reconciler \<Rightarrow> PassthroughModel \<Rightarrow> ('k, string list \<times> string list) action" where
  "gatherPassthrough r pm =
     bindE (wrapE ''reading api key client ids''
         (apiKeyClientIDs (kc_secret (rc_client r)) (pm_name pm) (pm_namespace pm)))
       (\<lambda>clientIDs. bindE (wrapE ''listing api key secrets''
           (apiKeySecretNamesWith (kc_secret (rc_client r)) (pm_namespace pm) (APIKeySecretName (pm_name pm))))
         (\<lambda>names. returnE (clientIDs, names)))"

text \<open>The gateway objects: the provider's, then each endpoint's route with its policy.\<close>

definition providerObjects :: "PassthroughResources \<Rightarrow> json option list" where
  "providerObjects res = [Some (pr_Backend res), Some (pr_BackendTLSPolicy res),
     Some (pr_AIServiceBackend res), Some (pr_BackendSecurityPolicy res)]"

definition applyEndpoint ::
  "'k Reconciler \<Rightarrow> PassthroughModel \<Rightarrow> string \<Rightarrow> string \<Rightarrow> json option \<Rightarrow> json option \<Rightarrow> 'k \<Rightarrow> Condition \<times> 'k" where
  "applyEndpoint r pm cond okMessage route policy s =
     (if route \<noteq> None
      then (case applyAll r pm [route, policy] s of (e, s') \<Rightarrow> (conditionFor cond e okMessage, s'))
      else (disabledCondition cond, s))"

definition applyGateway ::
  "'k Reconciler \<Rightarrow> PassthroughModel \<Rightarrow> PassthroughResources \<Rightarrow> 'k \<Rightarrow> Condition list \<times> 'k" where
  "applyGateway r pm res s =
     (case applyAll r pm (providerObjects res) s of
        (backendErr, s1) \<Rightarrow>
          (case applyEndpoint r pm CondExternalEndpointReady ''external route and apiKeyAuth policy applied''
              (pr_ExternalRoute res) (pr_ExternalSecurityPolicy res) s1 of
             (external, s2) \<Rightarrow>
               (case applyEndpoint r pm CondInternalEndpointReady ''internal route and JWT policy applied''
                   (pr_InternalRoute res) (pr_InternalSecurityPolicy res) s2 of
                  (internal, s3) \<Rightarrow>
                    ([conditionFor CondBackendConfigured backendErr ''provider backend resources applied'',
                      external, internal], s3))))"

definition phaseOfConditions :: "Condition list \<Rightarrow> PassthroughModelPhase" where
  "phaseOfConditions conds =
     fold (\<lambda>c phase. if \<not> cond_status c \<and> cond_reason c = ''ApplyFailed'' then PassthroughPhaseError else phase)
       conds PassthroughPhaseReady"

definition reconcileGateway :: "'k Reconciler \<Rightarrow> PassthroughModel \<Rightarrow> PassthroughResources \<Rightarrow> ('k, int option) action" where
  "reconcileGateway r pm res s =
     (case applyGateway r pm res s of
        (conds, s') \<Rightarrow>
          let phase = phaseOfConditions conds
          in bindE (updateStatusPassthrough r pm phase conds)
               (\<lambda>u. returnE (if phase = PassthroughPhaseError then Some 60000 else None)) s')"

definition applyPassthrough :: "'k Reconciler \<Rightarrow> PassthroughModel \<Rightarrow> PassthroughResources \<Rightarrow> ('k, int option) action" where
  "applyPassthrough r pm res =
     bindE (wrapE ''reconciling api key secret'' (pmCreateOrUpdateSecret (rc_client r) (pr_APIKeySecret res)))
       (\<lambda>u. bindE (wrapE ''reconciling api key metadata configmap''
           (pmCreateOrUpdateConfigMap (rc_client r) (pr_APIKeyMetadataCM res)))
       (\<lambda>u. reconcileGateway r pm res))"

definition buildFailedCondition :: "gerror \<Rightarrow> Condition" where
  "buildFailedCondition e =
     \<lparr>cond_type = CondBackendConfigured, cond_status = False, cond_reason = ''BuildFailed'',
      cond_message = errText e, cond_observedGeneration = 0\<rparr>"

definition reconcileEndpoints :: "'k Reconciler \<Rightarrow> PassthroughModel \<Rightarrow> ('k, int option) action" where
  "reconcileEndpoints r pm =
     bindE (gatherPassthrough r pm)
       (\<lambda>(clientIDs, names).
          case BuildPassthroughResources pm (rc_Config r) clientIDs names of
            Inl e \<Rightarrow> bindE (ignoreE (updateStatusPassthrough r pm PassthroughPhaseError [buildFailedCondition e]))
              (\<lambda>u. throwE (wrapErr ''building passthrough resources'' e))
          | Inr res \<Rightarrow> applyPassthrough r pm res)"

definition ReconcilePassthrough :: "'k Reconciler \<Rightarrow> nsname \<Rightarrow> ('k, int option) action" where
  "ReconcilePassthrough r req s =
     (let c = kc_passthrough (rc_client r); L = rc_library r
      in case tc_get c req s of
           (Inl e, s') \<Rightarrow> ((if isNotFound e then Inr None else Inl e), s')
         | (Inr pm, s') \<Rightarrow>
             if om_deleting (pm_meta pm) then reconcileDeletePassthrough r pm s'
             else if \<not> lib_hasFinalizer L (pm_meta pm) finalizerName
             then bindE (wrapE ''adding finalizer'' (tc_update c
                 (pm\<lparr>pm_meta := lib_addFinalizer L (pm_meta pm) finalizerName\<rparr>)))
               (\<lambda>pm'. reconcileEndpoints r pm') s'
             else reconcileEndpoints r pm s')"

definition gatewayObjects :: "PassthroughResources \<Rightarrow> json option list" where
  "gatewayObjects res = providerObjects res @
     [pr_ExternalRoute res, pr_ExternalSecurityPolicy res, pr_InternalRoute res, pr_InternalSecurityPolicy res]"

lemma phase_cases:
  "phaseOfConditions cs = PassthroughPhaseError \<or> phaseOfConditions cs = PassthroughPhaseReady"
  by (induction cs rule: rev_induct) (simp_all add: phaseOfConditions_def)

section \<open>What a pass keeps\<close>

fun present :: "'a option list \<Rightarrow> 'a list" where
  "present [] = []"
| "present (None # xs) = present xs"
| "present (Some x # xs) = x # present xs"

locale passthrough_cluster =
  controller_cluster "rc_client r" "rc_library r" viewS viewM +
  tree_controller "rc_client r" "rc_library r" viewT +
  P: kube_deletes "kc_passthrough (rc_client r)" viewP pm_meta passthroughContent
  for r :: "'k Reconciler" and viewS viewM viewT viewP +
  assumes passthrough_quiet: "unaffected viewT (kc_passthrough (rc_client r))"
    and secret_quiet_trees: "unaffected viewT (kc_secret (rc_client r))"
    and configmap_quiet_trees: "unaffected viewT (kc_configmap (rc_client r))"
begin

abbreviation kept :: "nsname set \<Rightarrow> 'k \<Rightarrow> 'k \<Rightarrow> bool" where
  "kept \<equiv> keysKept viewS viewM"

lemma keeps_tree [keeps_rules]:
  "keeps (kept E) (createOrUpdateUnstructured (rc_client r) (rc_library r) t)"
  unfolding createOrUpdateUnstructured_def by (intro keeps_rules)

text \<open>The loop, over any relation that its single step keeps.\<close>

lemma applyLoop_keeps:
  assumes "frame R" and "\<And>t. keeps R (createOrUpdateUnstructured (rc_client r) (rc_library r) t)"
  shows "applyLoop r owner err objs s = (e, s') \<Longrightarrow> R s s'"
proof (induction objs arbitrary: err s)
  case Nil
  then show ?case using frame.refl [OF assms(1)] by simp
next
  case (Cons o' objs)
  show ?case
  proof (cases o')
    case None
    with Cons show ?thesis by simp
  next
    case (Some obj)
    show ?thesis
    proof (cases "lib_setTreeOwner (rc_library r) ''PassthroughModel'' (pm_meta owner) obj")
      case (Inl x)
      with Cons.prems Some frame.refl [OF assms(1)] show ?thesis by simp
    next
      case (Inr t)
      obtain q u where q: "createOrUpdateUnstructured (rc_client r) (rc_library r) t s = (q, u)" by fastforce
      have "R u s'" using Cons.prems Cons.IH Some Inr q by (auto split: sum.splits)
      with keepsD [OF assms(2) q] show ?thesis by (rule frame.trans [OF assms(1)])
    qed
  qed
qed

lemma applyAll_kept: "applyAll r owner objs s = (e, s') \<Longrightarrow> kept E s s'"
  unfolding applyAll_def by (rule applyLoop_keeps [OF keys.frame_axioms]) (rule keeps_tree)

lemma applyGateway_kept:
  assumes "applyGateway r pm res s = (conds, s')"
  shows "kept E s s'"
proof -
  have ep: "kept E s s'" if "applyEndpoint r pm c m a b s = (x, s')" for c m a b s x s'
    using that applyAll_kept keys.refl by (auto simp: applyEndpoint_def split: if_splits prod.splits)
  from assms show ?thesis
    by (auto simp: applyGateway_def split: prod.splits dest!: applyAll_kept [where E = E] ep intro: keys.trans)
qed

lemma keeps_status [keeps_rules]: "keeps (kept E) (updateStatusPassthrough r pm phase conds)"
proof (rule keepsI)
  fix s q s' assume run: "updateStatusPassthrough r pm phase conds s = (q, s')"
  let ?c = "kc_passthrough (rc_client r)" and ?n = "(pm_namespace pm, pm_name pm)"
  have get: "keeps (kept E) (tc_get ?c ?n)" and put: "\<And>x. keeps (kept E) (voidE (tc_status_update ?c x))"
    by (intro keeps_rules)+
  obtain g t where g: "tc_get ?c ?n s = (g, t)" by fastforce
  have "s' = t \<or> kept E t s'"
    using run g by (auto simp: updateStatusPassthrough_def Let_def split: sum.splits dest: keepsD [OF put])
  with keepsD [OF get g] keys.trans show "kept E s s'" by blast
qed

lemma keeps_gather [keeps_rules]: "keeps (kept E) (gatherPassthrough r pm)"
  unfolding gatherPassthrough_def by (intro keeps_rules)

lemma keeps_applyPassthrough:
  assumes "BuildPassthroughResources pm cfg ids names = Inr res"
  shows "keeps (kept E) (applyPassthrough r pm res)"
proof -
  have "keeps (kept E) (pmCreateOrUpdateSecret (rc_client r) (pr_APIKeySecret res))"
    and "keeps (kept E) (pmCreateOrUpdateConfigMap (rc_client r) (pr_APIKeyMetadataCM res))"
    unfolding pm_createOrUpdate_eq using assms
    by (intro keeps_createOrUpdateSecret keeps_createOrUpdateConfigMapPreserveData;
        auto simp: BuildPassthroughResources_def Let_def newMeta_def alive_def)+
  moreover have "keeps (kept E) (reconcileGateway r pm res)"
  proof (rule keepsI)
    fix s q s' assume run: "reconcileGateway r pm res s = (q, s')"
    obtain conds t where a: "applyGateway r pm res s = (conds, t)" by fastforce
    have upd: "keeps (kept E) (bindE (updateStatusPassthrough r pm p conds) (\<lambda>u. returnE x))"
      for p and x :: "int option" by (intro keeps_rules)
    from run a have "kept E t s'" by (auto simp: reconcileGateway_def Let_def dest: keepsD [OF upd])
    with applyGateway_kept [OF a] show "kept E s s'" by (rule keys.trans)
  qed
  ultimately show ?thesis unfolding applyPassthrough_def
    by (intro keys.keeps_bind keys.keeps_wrap)
qed

lemma keeps_endpoints: "keeps (kept E) (reconcileEndpoints r pm)"
proof -
  have "keeps (kept E) (case x of (clientIDs, names) \<Rightarrow>
      case BuildPassthroughResources pm (rc_Config r) clientIDs names of
        Inl e \<Rightarrow> bindE (ignoreE (updateStatusPassthrough r pm PassthroughPhaseError [buildFailedCondition e]))
          (\<lambda>u. throwE (wrapErr ''building passthrough resources'' e))
      | Inr res \<Rightarrow> applyPassthrough r pm res)" for x
  proof (cases x)
    case (Pair ids names)
    show ?thesis
      by (cases "BuildPassthroughResources pm (rc_Config r) ids names")
        (simp_all add: Pair keeps_applyPassthrough, intro keeps_rules)
  qed
  then show ?thesis unfolding reconcileEndpoints_def
    by (rule keys.keeps_bind [OF keeps_gather])
qed

lemma keeps_delete:
  assumes "pm_namespace pm = fst req" and "pm_name pm = snd req"
  shows "keeps (kept (keyObjects req)) (reconcileDeletePassthrough r pm)"
proof -
  have "keeps (kept (keyObjects req)) (deleteKeyObjects (rc_client r) (pm_namespace pm) (pm_name pm))"
    using keeps_deleteKeyObjects [of "fst req" "snd req"] assms by simp
  then show ?thesis unfolding reconcileDeletePassthrough_def
    by (intro keys.keeps_bind keys.keeps_if) (assumption | intro keeps_rules)+
qed

lemma reconcile_keeps:
  assumes run: "ReconcilePassthrough r req s = (res, s')"
  shows "kept (case viewP s req of Some m \<Rightarrow> if om_deleting (pm_meta m) then keyObjects req else {}
    | None \<Rightarrow> {}) s s'"
proof -
  obtain g t where g: "tc_get (kc_passthrough (rc_client r)) req s = (g, t)" by fastforce
  have get: "keeps (kept E) (tc_get (kc_passthrough (rc_client r)) req)" for E by (intro keeps_rules)
  have st: "kept E s t" for E by (rule keepsD [OF get g])
  show ?thesis
  proof (cases g)
    case (Inl e)
    with run g have "s' = t" by (simp add: ReconcilePassthrough_def Let_def)
    with st show ?thesis by simp
  next
    case (Inr m)
    from P.get_ok [OF g [unfolded Inr]] have m: "viewP s req = Some m" by blast
    from P.view_key [OF this] have key: "pm_namespace m = fst req" "pm_name m = snd req"
      by (auto simp: metaKey_def pm_namespace_def pm_name_def)
    show ?thesis
    proof (cases "om_deleting (pm_meta m)")
      case True
      with run g Inr have "reconcileDeletePassthrough r m t = (res, s')"
        by (simp add: ReconcilePassthrough_def Let_def)
      from keepsD [OF keeps_delete [OF key] this] st [of "keyObjects req"] keys.trans
      show ?thesis using m True by auto
    next
      case False
      have "keeps (kept {}) (bindE (wrapE p (tc_update (kc_passthrough (rc_client r)) x))
          (\<lambda>pm'. reconcileEndpoints r pm'))" for p x
        by (intro keys.keeps_bind keys.keeps_wrap keeps_endpoints keeps_rules)
      then have "kept {} t s'"
        using run g Inr False
        by (auto simp: ReconcilePassthrough_def Let_def split: if_splits
            dest!: keepsD [OF keeps_endpoints] keepsD)
      with st [of "{}"] keys.trans m False show ?thesis by auto
    qed
  qed
qed

section \<open>What a ready pass has applied\<close>

lemma applyLoop_effect:
  "applyLoop r owner err objs s = (e, s') \<Longrightarrow>
     (\<forall>kind n. (kind, n) \<notin> treeIdent ` set (present objs) \<longrightarrow> viewT s' kind n = viewT s kind n) \<and>
     (e = None \<longrightarrow> err = None \<and>
       (distinct (map treeIdent (present objs)) \<longrightarrow> (\<forall>t \<in> set (present objs). applied viewT s' t)))"
proof (induction objs arbitrary: err s)
  case Nil
  then show ?case by simp
next
  case (Cons o' objs)
  show ?case
  proof (cases o')
    case None
    with Cons.IH [of err s] Cons.prems show ?thesis by simp
  next
    case (Some obj)
    note pres = Some
    show ?thesis
    proof (cases "lib_setTreeOwner (rc_library r) ''PassthroughModel'' (pm_meta owner) obj")
      case (Inl x)
      with Cons.prems Some show ?thesis by auto
    next
      case (Inr t)
      from set_tree_owner [OF Inr] have c: "treeContent t = treeContent obj" .
      then have i: "treeIdent t = treeIdent obj" and ap: "applied viewT u t = applied viewT u obj" for u
        by (simp_all add: treeIdent_def treeContent_def applied_def)
      obtain q u where q: "createOrUpdateUnstructured (rc_client r) (rc_library r) t s = (q, u)" by fastforce
      note eff = createOrUpdateUnstructured_effect [OF q, of "()"]
      obtain err' where rest: "applyLoop r owner err' objs u = (e, s')"
        and err': "err' = (case q of Inr v \<Rightarrow> err | Inl x \<Rightarrow> (case err of None \<Rightarrow> Some x | Some f \<Rightarrow> Some f))"
        using Cons.prems Some Inr q by (auto split: sum.splits)
      note IH = Cons.IH [OF rest]
      have frame: "\<forall>kind n. (kind, n) \<notin> treeIdent ` set (present (o' # objs)) \<longrightarrow>
          viewT s' kind n = viewT s kind n"
        using IH eff i by (auto simp: pres)
      moreover have "err = None \<and> applied viewT u obj" if "e = None"
        using that IH err' eff ap by (auto split: sum.splits option.splits)
      moreover have "applied viewT s' obj" if "e = None" "distinct (map treeIdent (present (o' # objs)))"
      proof -
        have "treeIdent obj \<notin> treeIdent ` set (present objs)" using that(2) by (auto simp: pres)
        with IH have "viewT s' (treeKind obj) (treeNamespace obj, treeName obj) =
            viewT u (treeKind obj) (treeNamespace obj, treeName obj)"
          by (simp add: treeIdent_def del: split_paired_All)
        with calculation(2) [OF that(1)] show ?thesis by (auto intro: applied_frame)
      qed
      ultimately show ?thesis using IH by (auto simp: pres)
    qed
  qed
qed

lemma applyLoop_append:
  "applyLoop r owner None xs s = (None, t) \<Longrightarrow>
     applyLoop r owner None (xs @ ys) s = applyLoop r owner None ys t"
proof (induction xs arbitrary: s)
  case (Cons o' xs)
  have none: "err = None" if "applyLoop r owner err xs u = (None, t)" for err u
    using applyLoop_effect [OF that] by simp
  from Cons show ?case
    by (cases o') (auto split: sum.splits prod.splits dest: none)
qed simp

lemma applyEndpoint_ready:
  assumes "applyEndpoint r pm c m route policy s = (cond, t)" and "\<not> (\<not> cond_status cond \<and> cond_reason cond = ''ApplyFailed'')"
    and "route = None \<Longrightarrow> policy = None"
  shows "applyLoop r pm None [route, policy] s = (None, t)"
  using assms by (cases route)
    (auto simp: applyEndpoint_def applyAll_def conditionFor_def split: prod.splits option.splits)

lemma applyGateway_ready:
  assumes run: "applyGateway r pm res s = (conds, s')" and ready: "phaseOfConditions conds = PassthroughPhaseReady"
    and ext: "pr_ExternalRoute res = None \<Longrightarrow> pr_ExternalSecurityPolicy res = None"
    and int: "pr_InternalRoute res = None \<Longrightarrow> pr_InternalSecurityPolicy res = None"
  shows "applyLoop r pm None (gatewayObjects res) s = (None, s')"
proof -
  obtain e s1 where 1: "applyAll r pm (providerObjects res) s = (e, s1)" by fastforce
  obtain c2 s2 where 2: "applyEndpoint r pm CondExternalEndpointReady
    ''external route and apiKeyAuth policy applied'' (pr_ExternalRoute res) (pr_ExternalSecurityPolicy res) s1 = (c2, s2)"
    by fastforce
  obtain c3 s3 where 3: "applyEndpoint r pm CondInternalEndpointReady
    ''internal route and JWT policy applied'' (pr_InternalRoute res) (pr_InternalSecurityPolicy res) s2 = (c3, s3)"
    by fastforce
  from run 1 2 3 have c: "conds = [conditionFor CondBackendConfigured e ''provider backend resources applied'', c2, c3]"
    and s3: "s' = s3" by (simp_all add: applyGateway_def)
  with ready have ok: "\<not> (\<not> cond_status c2 \<and> cond_reason c2 = ''ApplyFailed'')"
    "\<not> (\<not> cond_status c3 \<and> cond_reason c3 = ''ApplyFailed'')" "e = None"
    by (auto simp: phaseOfConditions_def conditionFor_def split: if_splits option.splits)
  note provider = 1 [unfolded ok(3) applyAll_def]
  note external = applyEndpoint_ready [OF 2 ok(1) ext]
  note internal = applyEndpoint_ready [OF 3 ok(2) int]
  show ?thesis
    using applyLoop_append [OF provider, of "[pr_ExternalRoute res, pr_ExternalSecurityPolicy res] @
        [pr_InternalRoute res, pr_InternalSecurityPolicy res]"] applyLoop_append [OF external] internal s3
    by (simp add: gatewayObjects_def)
qed

text \<open>What the controller builds depends on the name, the namespace and the spec only.\<close>

lemma build_cong:
  assumes "pm_name p = pm_name q" "pm_namespace p = pm_namespace q" "pm_spec p = pm_spec q"
  shows "BuildPassthroughResources p cfg ids names = BuildPassthroughResources q cfg ids names"
  unfolding BuildPassthroughResources_def PassthroughStandardLabels_def buildProviderBackend_def
    buildProviderBackendTLSPolicy_def buildProviderAIServiceBackend_def buildProviderBackendSecurityPolicy_def
    providerBackendName_def buildPassthroughRoute_def passthroughBackendRefs_def assms
  by (rule refl)

lemma built_idents:
  "treeIdent (buildProviderBackend pm l) = (''Backend'', pm_namespace pm, pm_name pm @ ''-backend'')"
  "treeIdent (buildProviderBackendTLSPolicy pm l) = (''BackendTLSPolicy'', pm_namespace pm, pm_name pm @ ''-backend-tls'')"
  "treeIdent (buildProviderAIServiceBackend pm l) = (''AIServiceBackend'', pm_namespace pm, pm_name pm)"
  "treeIdent (buildProviderBackendSecurityPolicy pm l) =
     (''BackendSecurityPolicy'', pm_namespace pm, pm_name pm @ ''-upstream-auth'')"
  "treeIdent (buildPassthroughRoute n pm l g gns sec h d) = (''AIGatewayRoute'', pm_namespace pm, n)"
  "treeIdent (buildAPIKeyAuthSecurityPolicy n ns j rt secrets ids) = (''SecurityPolicy'', ns, n)"
  "treeIdent (buildJWTSecurityPolicy n ns j rt cfg pub gs) = (''SecurityPolicy'', ns, n)"
  by (simp_all add: treeIdent_def buildProviderBackend_def buildProviderBackendTLSPolicy_def Let_def
      buildProviderAIServiceBackend_def buildProviderBackendSecurityPolicy_def buildPassthroughRoute_def
      buildAPIKeyAuthSecurityPolicy_def buildJWTSecurityPolicy_def providerBackendName_def)

lemma build_shape:
  assumes "BuildPassthroughResources pm cfg ids names = Inr res"
  shows "distinct (map treeIdent (present (gatewayObjects res)))"
    and "pr_ExternalRoute res = None \<Longrightarrow> pr_ExternalSecurityPolicy res = None"
    and "pr_InternalRoute res = None \<Longrightarrow> pr_InternalSecurityPolicy res = None"
    and "endpointGuarded (tog_enabled (pep_external (pspec_endpoints (pm_spec pm))) \<noteq> Some False) (pr_ExternalRoute res) (pr_ExternalSecurityPolicy res)"
    and "endpointGuarded (tog_enabled (pep_internal (pspec_endpoints (pm_spec pm))) \<noteq> Some False) (pr_InternalRoute res) (pr_InternalSecurityPolicy res)"
proof -
  let ?e = "pspec_endpoints (pm_spec pm)"
  have "distinct (map treeIdent (present (gatewayObjects res))) \<and>
    (pr_ExternalRoute res = None \<longrightarrow> pr_ExternalSecurityPolicy res = None) \<and>
    (pr_InternalRoute res = None \<longrightarrow> pr_InternalSecurityPolicy res = None) \<and>
    endpointGuarded (tog_enabled (pep_external (pspec_endpoints (pm_spec pm))) \<noteq> Some False) (pr_ExternalRoute res) (pr_ExternalSecurityPolicy res) \<and>
    endpointGuarded (tog_enabled (pep_internal (pspec_endpoints (pm_spec pm))) \<noteq> Some False) (pr_InternalRoute res) (pr_InternalSecurityPolicy res)"
    using assms
    by (cases "boolOrDefault (tog_enabled (pep_external ?e)) True";
        cases "boolOrDefault (tog_enabled (pep_internal ?e)) True")
      (auto simp: BuildPassthroughResources_def Let_def gatewayObjects_def providerObjects_def built_idents
        endpointGuarded_def policy_targets route_name toggle_on)
  then show "distinct (map treeIdent (present (gatewayObjects res)))"
    and "pr_ExternalRoute res = None \<Longrightarrow> pr_ExternalSecurityPolicy res = None"
    and "pr_InternalRoute res = None \<Longrightarrow> pr_InternalSecurityPolicy res = None"
    and "endpointGuarded (tog_enabled (pep_external (pspec_endpoints (pm_spec pm))) \<noteq> Some False) (pr_ExternalRoute res) (pr_ExternalSecurityPolicy res)"
    and "endpointGuarded (tog_enabled (pep_internal (pspec_endpoints (pm_spec pm))) \<noteq> Some False) (pr_InternalRoute res) (pr_InternalSecurityPolicy res)"
    by blast+
qed

lemma trees_secret: "keeps (same viewT) (createOrUpdateSecret (rc_client r) x)"
  and trees_configmap: "keeps (same viewT) (createOrUpdateConfigMapPreserveData (rc_client r) y)"
  unfolding createOrUpdateSecret_def createOrUpdateConfigMapPreserveData_def
  by (rule frame.keeps_createOrUpdate;
      auto intro!: frame.intro simp: same_def
        intro: clientKeepsD [OF iffD1 [OF unaffected_def secret_quiet_trees]]
          clientKeepsD [OF iffD1 [OF unaffected_def configmap_quiet_trees]])+

lemma trees_status:
  assumes "updateStatusPassthrough r pm phase conds s = (q, s')"
  shows "viewT s' = viewT s"
  using assms quietD(1) [OF passthrough_quiet] quietD(5) [OF passthrough_quiet]
  by (fastforce simp: updateStatusPassthrough_def Let_def voidE_def split: sum.splits prod.splits)

lemma gather_spec:
  assumes "gatherPassthrough r pm s = (Inr (ids, names), s')"
  shows "viewT s' = viewT s \<and> viewS s' = viewS s \<and> sorted ids \<and>
    set ids = dom (map_of (dataOf (viewS s) (pm_namespace pm, APIKeySecretName (pm_name pm)))) \<and>
    names = sorted_list_of_set (insert (APIKeySecretName (pm_name pm)) (managedSecretNames (viewS s) (pm_namespace pm)))"
proof -
  let ?c = "kc_secret (rc_client r)"
  from assms obtain t where 1: "apiKeyClientIDs ?c (pm_name pm) (pm_namespace pm) s = (Inr ids, t)"
    and 2: "apiKeySecretNamesWith ?c (pm_namespace pm) (APIKeySecretName (pm_name pm)) t = (Inr names, s')"
    by (auto simp: gatherPassthrough_def bindE_Inr wrapE_Inr returnE_eq)
  have reader: "secret_reader ?c viewS" by (rule secret_reader.intro) (rule S.kube_kind_axioms)
  have "viewT t = viewT s" using 1 quietD(1) [OF secret_quiet_trees]
    by (auto simp: apiKeyClientIDs_def split: prod.splits sum.splits if_splits)
  moreover have "viewT s' = viewT t" using 2 quietD(2) [OF secret_quiet_trees]
    by (auto simp: apiKeySecretNamesWith_def split: prod.splits sum.splits)
  ultimately show ?thesis
    using secret_reader.clientIDs_spec [OF reader 1] secret_reader.secretNames_spec [OF reader 2]
    by (auto simp: dataOf_def split: option.splits)
qed

lemma endpoints_ready:
  assumes run: "reconcileEndpoints r pm s = (Inr None, s')"
  shows "\<exists>ids names res. BuildPassthroughResources pm (rc_Config r) ids names = Inr res \<and> sorted ids \<and>
    set ids = dom (map_of (dataOf (viewS s) (pm_namespace pm, APIKeySecretName (pm_name pm)))) \<and>
    names = sorted_list_of_set (insert (APIKeySecretName (pm_name pm)) (managedSecretNames (viewS s) (pm_namespace pm))) \<and>
    (\<forall>t \<in> set (present (gatewayObjects res)). applied viewT s' t) \<and>
    (\<forall>kind n. (kind, n) \<notin> treeIdent ` set (present (gatewayObjects res)) \<longrightarrow> viewT s' kind n = viewT s kind n)"
proof -
  from run obtain ids names t where g: "gatherPassthrough r pm s = (Inr (ids, names), t)"
    and rest: "(case BuildPassthroughResources pm (rc_Config r) ids names of
        Inl e \<Rightarrow> bindE (ignoreE (updateStatusPassthrough r pm PassthroughPhaseError [buildFailedCondition e]))
          (\<lambda>u. throwE (wrapErr ''building passthrough resources'' e))
      | Inr res \<Rightarrow> applyPassthrough r pm res) t = (Inr None, s')"
    by (auto simp: reconcileEndpoints_def bindE_Inr)
  from rest obtain res where res: "BuildPassthroughResources pm (rc_Config r) ids names = Inr res"
    and ap: "applyPassthrough r pm res t = (Inr None, s')"
    by (auto simp: bindE_Inr throwE_eq split: sum.splits)
  from ap obtain t1 t2 where sec: "createOrUpdateSecret (rc_client r) (pr_APIKeySecret res) t = (Inr (), t1)"
    and cm: "createOrUpdateConfigMapPreserveData (rc_client r) (pr_APIKeyMetadataCM res) t1 = (Inr (), t2)"
    and gw: "reconcileGateway r pm res t2 = (Inr None, s')"
    by (auto simp: applyPassthrough_def bindE_Inr wrapE_Inr pm_createOrUpdate_eq)
  obtain conds t3 where a: "applyGateway r pm res t2 = (conds, t3)" by fastforce
  with gw have st: "updateStatusPassthrough r pm (phaseOfConditions conds) conds t3 = (Inr (), s')"
    and ready: "phaseOfConditions conds = PassthroughPhaseReady"
    using phase_cases [of conds]
    by (auto simp: reconcileGateway_def Let_def bindE_Inr returnE_eq split: if_splits)
  have t2: "viewT t2 = viewT s"
    using keeps_sameD [OF trees_secret sec] keeps_sameD [OF trees_configmap cm] gather_spec [OF g] by simp
  note shape = build_shape [OF res]
  note eff = applyLoop_effect [OF applyGateway_ready [OF a ready shape(2,3)]]
  have "applied viewT s' x = applied viewT t3 x" for x
    using trees_status [OF st] by (simp add: applied_def)
  then show ?thesis
    using res gather_spec [OF g] eff shape(1) t2 trees_status [OF st]
    by (intro exI [of _ ids] exI [of _ names] exI [of _ res]) auto
qed

text \<open>From the stored model to the stored gateway objects.\<close>

lemma reconcile_ready:
  assumes run: "ReconcilePassthrough r req s = (Inr None, s')" and pm: "viewP s req = Some pm"
    and live: "\<not> om_deleting (pm_meta pm)"
  shows "\<exists>ids names res. BuildPassthroughResources pm (rc_Config r) ids names = Inr res \<and> sorted ids \<and>
    set ids = dom (map_of (dataOf (viewS s) (fst req, APIKeySecretName (snd req)))) \<and>
    names = sorted_list_of_set (insert (APIKeySecretName (snd req)) (managedSecretNames (viewS s) (fst req))) \<and>
    (\<forall>t \<in> set (present (gatewayObjects res)). applied viewT s' t) \<and>
    (\<forall>kind n. (kind, n) \<notin> treeIdent ` set (present (gatewayObjects res)) \<longrightarrow> viewT s' kind n = viewT s kind n)"
proof -
  let ?c = "kc_passthrough (rc_client r)"
  obtain g t where g: "tc_get ?c req s = (g, t)" by fastforce
  have "\<exists>q. g = Inr q"
    using run g pm P.get_err [of req s _ t]
    by (cases g) (auto simp: ReconcilePassthrough_def Let_def split: if_splits)
  then have g: "tc_get ?c req s = (Inr pm, t)" using g P.get_ok [of req s _ t] pm by auto
  have vt: "viewT t = viewT s" "viewS t = viewS s"
    using quietD(1) [OF passthrough_quiet g] quietD(1) [OF quiet_passthrough g] by auto
  have key: "pm_namespace pm = fst req" "pm_name pm = snd req"
    using P.view_key [OF pm] by (auto simp: metaKey_def pm_namespace_def pm_name_def)
  show ?thesis
  proof (cases "lib_hasFinalizer (rc_library r) (pm_meta pm) finalizerName")
    case True
    with run g live have "reconcileEndpoints r pm t = (Inr None, s')"
      by (simp add: ReconcilePassthrough_def Let_def)
    from endpoints_ready [OF this] show ?thesis unfolding key vt .
  next
    case False
    let ?pm = "pm\<lparr>pm_meta := lib_addFinalizer (rc_library r) (pm_meta pm) finalizerName\<rparr>"
    from run g live False obtain pm' u where u: "tc_update ?c ?pm t = (Inr pm', u)"
      and rest: "reconcileEndpoints r pm' u = (Inr None, s')"
      by (auto simp: ReconcilePassthrough_def Let_def bindE_Inr wrapE_Inr)
    have add: "metaKey (pm_meta ?pm) = metaKey (pm_meta pm)" "alive (pm_meta ?pm)"
      using add_finalizer [of finalizerName "pm_meta pm"] False has_finalizer live
      by (auto simp: metaKey_def alive_def)
    from P.update_ok [OF u add(2)] add(1) have "metaKey (pm_meta pm') = metaKey (pm_meta pm)"
      "passthroughContent pm' = passthroughContent ?pm" by auto
    then have same: "pm_name pm' = pm_name pm" "pm_namespace pm' = pm_namespace pm" "pm_spec pm' = pm_spec pm"
      by (auto simp: metaKey_def pm_name_def pm_namespace_def passthroughContent_def)
    have vu: "viewT u = viewT s" "viewS u = viewS s"
      using quietD(4) [OF passthrough_quiet u] quietD(4) [OF quiet_passthrough u] vt by auto
    from endpoints_ready [OF rest] show ?thesis
      unfolding build_cong [OF same] same(1,2) key vu .
  qed
qed

end

section \<open>On the reference server\<close>

interpretation pmc: passthrough_cluster "clusterReconciler cfg" secretsAt configmapsAt treesAt passthroughsAt
  for cfg
proof (intro passthrough_cluster.intro passthrough_cluster_axioms.intro; unfold clusterReconciler_simps)
  show "controller_cluster clusterClients sampleLibrary secretsAt configmapsAt"
    by (rule ctl.controller_cluster_axioms)
  show "tree_controller clusterClients sampleLibrary treesAt"
    by (rule cluster_trees.tree_controller_axioms)
  show "kube_deletes (kc_passthrough clusterClients) passthroughsAt pm_meta passthroughContent"
    using passthrough_store.kube_deletes_axioms by (simp add: passthroughClient_def passthroughsAt_def [abs_def])
qed (unfold clusterClients_simps, (rule unaffected_rules; simp add: at_defs tick_def fun_eq_iff)+)

section \<open>Properties\<close>

text \<open>C7: when a pass over a stored PassthroughModel ends without asking to be repeated, the API server
  holds, with the contents the builders give, every gateway object of the model: the provider's
  objects and, for each endpoint that is not switched off, the route together with a policy on
  exactly that route;
  the allow-list and the credential pool of the external policy are those of the Secrets stored
  when the pass began. Every other gateway object is as it was, also the route of an endpoint that
  has been disabled.\<close>

theorem passthrough_ready_is_guarded:
  assumes "passthrough_cluster r viewS viewM viewT viewP"
    and "ReconcilePassthrough r req s = (Inr None, s')" and "viewP s req = Some pm"
    and "\<not> om_deleting (pm_meta pm)"
  shows "\<exists>ids names res. BuildPassthroughResources pm (rc_Config r) ids names = Inr res \<and> sorted ids \<and>
    set ids = dom (map_of (dataOf (viewS s) (fst req, APIKeySecretName (snd req)))) \<and>
    names = sorted_list_of_set (insert (APIKeySecretName (snd req)) (managedSecretNames (viewS s) (fst req))) \<and>
    endpointGuarded (tog_enabled (pep_external (pspec_endpoints (pm_spec pm))) \<noteq> Some False) (pr_ExternalRoute res) (pr_ExternalSecurityPolicy res) \<and>
    endpointGuarded (tog_enabled (pep_internal (pspec_endpoints (pm_spec pm))) \<noteq> Some False) (pr_InternalRoute res) (pr_InternalSecurityPolicy res) \<and>
    (\<forall>t \<in> set (present (gatewayObjects res)). applied viewT s' t) \<and>
    (\<forall>kind n. (kind, n) \<notin> treeIdent ` set (present (gatewayObjects res)) \<longrightarrow> viewT s' kind n = viewT s kind n)"
  using passthrough_cluster.reconcile_ready [OF assms] passthrough_cluster.build_shape(4,5) [OF assms(1)]
  by metis

definition readyPassthrough :: PassthroughModel where
  "readyPassthrough = (samplePassthrough ''or'' ''llm'' (groupAccess [''ml'']))
     \<lparr>pm_meta := (newMeta ''or'' ''llm'' [])\<lparr>om_finalizers := [finalizerName]\<rparr>\<rparr>"

definition readyCluster :: cluster where
  "readyCluster = emptyCluster\<lparr>cl_passthroughs := [((''llm'', ''or''), readyPassthrough)]\<rparr>"

lemma readyRun_value:
  "fst (ReconcilePassthrough (clusterReconciler sampleConfig) (''llm'', ''or'') readyCluster) = Inr None"
  by code_simp

lemma readyCluster_model: "passthroughsAt readyCluster (''llm'', ''or'') = Some readyPassthrough"
  "\<not> om_deleting (pm_meta readyPassthrough)"
  by code_simp+

theorem passthrough_ready_is_guarded_witness:
  "\<exists>res. (\<forall>t \<in> set (present (gatewayObjects res)). applied treesAt
      (snd (ReconcilePassthrough (clusterReconciler sampleConfig) (''llm'', ''or'') readyCluster)) t) \<and>
    endpointGuarded True (pr_ExternalRoute res) (pr_ExternalSecurityPolicy res)"
proof -
  have run: "ReconcilePassthrough (clusterReconciler sampleConfig) (''llm'', ''or'') readyCluster = (Inr None,
      snd (ReconcilePassthrough (clusterReconciler sampleConfig) (''llm'', ''or'') readyCluster))"
    using readyRun_value by (metis prod.collapse)
  have on: "(tog_enabled (pep_external (pspec_endpoints (pm_spec readyPassthrough))) \<noteq> Some False) = True" by code_simp
  show ?thesis
    using passthrough_ready_is_guarded [where viewP = passthroughsAt and s = readyCluster,
        OF pmc.passthrough_cluster_axioms run readyCluster_model, unfolded on]
    by blast
qed

end
