(* ===== verification/System.thy ===== *)
theory System
  imports Isolation LLMController PassthroughController
begin

text \<open>
  The two programs on one cluster: the key-manager mints and revokes, the operator's two
  controllers pass over the models, in any order. An issued key outlives everything but its own
  revocation and the deletion of its model, and a clean pass brings the gateway in line with it.
\<close>

section \<open>Steps\<close>

datatype system_event = Minted string | Revoked string string | Reconciled nsname | Released nsname

text \<open>A pass counts as a release when the model it reads is being deleted.\<close>

definition passEvent :: "('o \<Rightarrow> objmeta) \<Rightarrow> (nsname \<Rightarrow> 'o option) \<Rightarrow> nsname \<Rightarrow> system_event" where
  "passEvent metaOf v req =
     (case v req of
        None \<Rightarrow> Reconciled req
      | Some x \<Rightarrow> if om_deleting (metaOf x) then Released req else Reconciled req)"

inductive system_step ::
  "keyEnv \<Rightarrow> 'k Manager \<Rightarrow> 'k Reconciler \<Rightarrow> ('k \<Rightarrow> nsname \<Rightarrow> LLMModel option) \<Rightarrow>
   ('k \<Rightarrow> nsname \<Rightarrow> PassthroughModel option) \<Rightarrow> 'k \<Rightarrow> system_event \<Rightarrow> 'k \<Rightarrow> bool"
  for env m r viewL viewP where
  mint: "createKey env m draws mn u d s = (q, t) \<Longrightarrow> system_step env m r viewL viewP s (Minted mn) t"
| revoke: "revokeKey m mn cid s = (p, t) \<Longrightarrow> system_step env m r viewL viewP s (Revoked mn cid) t"
| llm_pass: "ReconcileLLM r req s = (x, t) \<Longrightarrow>
    system_step env m r viewL viewP s (passEvent lm_meta (viewL s) req) t"
| passthrough_pass: "ReconcilePassthrough r req s = (x, t) \<Longrightarrow>
    system_step env m r viewL viewP s (passEvent pm_meta (viewP s) req) t"

inductive_cases system_stepE: "system_step env m r viewL viewP s e t"

inductive system_run ::
  "keyEnv \<Rightarrow> 'k Manager \<Rightarrow> 'k Reconciler \<Rightarrow> ('k \<Rightarrow> nsname \<Rightarrow> LLMModel option) \<Rightarrow>
   ('k \<Rightarrow> nsname \<Rightarrow> PassthroughModel option) \<Rightarrow> 'k \<Rightarrow> system_event list \<Rightarrow> 'k \<Rightarrow> bool"
  for env m r viewL viewP where
  still: "system_run env m r viewL viewP s [] s"
| step: "system_step env m r viewL viewP s e t \<Longrightarrow> system_run env m r viewL viewP t es u \<Longrightarrow>
    system_run env m r viewL viewP s (e # es) u"

section \<open>Entries\<close>

text \<open>The entry of a client ID in the Secret and in the ConfigMap at two names.\<close>

definition entries ::
  "(nsname \<Rightarrow> secret option) \<Rightarrow> (nsname \<Rightarrow> configmap option) \<Rightarrow> nsname \<Rightarrow> nsname \<Rightarrow> string \<Rightarrow>
   bytes option \<times> string option" where
  "entries v w sn mn cid = (map_of (dataOf v sn) cid, map_of (metadataOf w mn) cid)"

lemma entries_grow:
  assumes "grows vS vM s t" and "entries (vS s) (vM s) sn mn cid = (Some k, Some j)"
  shows "entries (vS t) (vM t) sn mn cid = (Some k, Some j)"
proof -
  from assms(1) have "rel_option (\<lambda>x x'. map_of (sec_data x) \<subseteq>\<^sub>m map_of (sec_data x')) (vS s sn) (vS t sn)"
    and "rel_option (\<lambda>y y'. map_of (cm_data y) \<subseteq>\<^sub>m map_of (cm_data y')) (vM s mn) (vM t mn)"
    by (simp_all add: grows_def del: split_paired_All)
  with assms(2) show ?thesis
    by (cases "vS s sn"; cases "vS t sn"; cases "vM s mn"; cases "vM t mn")
      (auto simp: entries_def dataOf_def metadataOf_def map_le_def dom_def)
qed

lemma entries_agree:
  assumes "agreeS v v' n c" and "agreeM w w' n' c" and "sn \<noteq> n \<or> cid \<noteq> c" and "mn \<noteq> n' \<or> cid \<noteq> c"
  shows "entries v' w' sn mn cid = entries v w sn mn cid"
proof -
  have "map_option (\<lambda>x. map_of (sec_data x) cid) (v' sn) = map_option (\<lambda>x. map_of (sec_data x) cid) (v sn)"
    and "map_option (\<lambda>x. map_of (cm_data x) cid) (w' mn) = map_option (\<lambda>x. map_of (cm_data x) cid) (w mn)"
    using assms by (simp_all add: agreeS_def agreeM_def del: split_paired_All)
  then show ?thesis
    by (cases "v sn"; cases "v' sn"; cases "w mn"; cases "w' mn")
      (auto simp: entries_def dataOf_def metadataOf_def)
qed

lemma entries_kept:
  assumes "keysKept vS vM E s t" and "sn \<notin> E" and "mn \<notin> E" and "isKeyMetadata mn"
  shows "entries (vS t) (vM t) sn mn cid = entries (vS s) (vM s) sn mn cid"
  using assms by (simp add: keysKept_def entries_def del: split_paired_All)

text \<open>The objects of two models do not meet.\<close>

lemma configMapName_operator: "APIKeyMetadataConfigMapName = configMapName"
  by (simp add: fun_eq_iff APIKeyMetadataConfigMapName_def configMapName_def)

lemma key_metadata [simp]: "isKeyMetadata (ns, configMapName mn)"
  by (simp add: isKeyMetadata_def hasSuffix_iff suffix_def configMapName_def)

lemma secret_not_metadata: "secretName a \<noteq> configMapName b"
proof
  assume "secretName a = configMapName b"
  then have "last (secretName a) = last (configMapName b)" by (rule arg_cong)
  then show False by (simp add: secretName_def configMapName_def)
qed

lemma configMapName_inj: "configMapName a = configMapName b \<longleftrightarrow> a = b"
  by (simp add: configMapName_def)

lemma keyObjects_apart:
  "(ns, secretName mn) \<in> keyObjects req \<longleftrightarrow> req = (ns, mn)"
  "(ns, configMapName mn) \<in> keyObjects req \<longleftrightarrow> req = (ns, mn)"
  using secret_not_metadata secret_not_metadata [symmetric]
  by (cases req; auto simp: keyObjects_def secretName_operator configMapName_operator configMapName_inj)+

section \<open>Issued keys\<close>

locale system =
  keys: key_stores m viewS viewM +
  llm: llm_cluster r viewS viewM viewL +
  pass: passthrough_cluster r viewS viewM viewT viewP
  for m :: "'k Manager" and r :: "'k Reconciler" and viewS viewM viewL viewT viewP
begin

abbreviation entry :: "string \<Rightarrow> string \<Rightarrow> 'k \<Rightarrow> bytes option \<times> string option" where
  "entry mn cid s \<equiv> entries (viewS s) (viewM s) (mgr_namespace m, secretName mn)
     (mgr_namespace m, configMapName mn) cid"

lemma pass_keeps_entry:
  assumes "keysKept viewS viewM (case v req of Some x \<Rightarrow> if om_deleting (metaOf x) then keyObjects req else {}
      | None \<Rightarrow> {}) s t" and "passEvent metaOf v req \<noteq> Released (mgr_namespace m, mn)"
  shows "entry mn cid t = entry mn cid s"
  using assms
  by (intro entries_kept) (auto simp: passEvent_def keyObjects_apart split: option.splits if_splits)

lemma step_keeps_entry:
  assumes "system_step env m r viewL viewP s e t" and "entry mn cid s = (Some k, Some j)"
    and "e \<noteq> Revoked mn cid" and "e \<noteq> Released (mgr_namespace m, mn)"
  shows "entry mn cid t = (Some k, Some j)"
  using assms(1)
proof (rule system_stepE)
  fix draws mn' u d q
  assume "createKey env m draws mn' u d s = (q, t)"
  then have "grows viewS viewM s t" using keys.createKey_spec by blast
  then show ?thesis using assms(2) by (rule entries_grow)
next
  fix mn' cid' p
  assume e: "e = Revoked mn' cid'" and run: "revokeKey m mn' cid' s = (p, t)"
  have "agreeS (viewS s) (viewS t) (mgr_namespace m, secretName mn') cid' \<and>
      agreeM (viewM s) (viewM t) (mgr_namespace m, configMapName mn') cid'"
    using keys.revokeKeyAttempts_spec run by (simp add: revokeKey_def)
  with assms(2,3) e show ?thesis
    using entries_agree [of "viewS s" "viewS t" _ cid' "viewM s" "viewM t"]
    by (metis configMapName_inj prod.inject secretName_inj)
next
  fix req x
  assume e: "e = passEvent lm_meta (viewL s) req" and run: "ReconcileLLM r req s = (x, t)"
  have "entry mn cid t = entry mn cid s"
    by (rule pass_keeps_entry [where v = "viewL s", OF llm.reconcile_keeps [OF run]]) (use assms(4) e in simp)
  with assms(2) show ?thesis by simp
next
  fix req x
  assume e: "e = passEvent pm_meta (viewP s) req" and run: "ReconcilePassthrough r req s = (x, t)"
  have "entry mn cid t = entry mn cid s"
    by (rule pass_keeps_entry [where v = "viewP s", OF pass.reconcile_keeps [OF run]]) (use assms(4) e in simp)
  with assms(2) show ?thesis by simp
qed

lemma run_keeps_entry:
  assumes "system_run env m r viewL viewP s evs t" and "entry mn cid s = (Some k, Some j)"
    and "Revoked mn cid \<notin> set evs" and "Released (mgr_namespace m, mn) \<notin> set evs"
  shows "entry mn cid t = (Some k, Some j)"
  using assms
proof (induction rule: system_run.induct)
  case (step s e t es u)
  have "entry mn cid t = (Some k, Some j)"
    using step.prems by (intro step_keeps_entry [OF step.hyps(1)]) auto
  with step.IH step.prems show ?case by simp
qed

lemma minted_entry:
  assumes "createKey env m draws mn u d s = (Inr res, t)"
  shows "\<exists>js. entry mn (ckr_clientID res) t = (Some (ckr_apiKey res), Some js)"
  using keys.createKey_spec [OF assms]
  by (auto simp: keys.stored_def entries_def dataOf_def metadataOf_def)

lemma revoked_entry:
  assumes "revokeKey m mn cid s = (Inr (), t)"
  shows "entry mn cid t = (None, None)"
  using keys.revokeKeyAttempts_spec [OF assms [unfolded revokeKey_def]]
  by (auto simp: keys.gone_def entries_def dataOf_def metadataOf_def)

text \<open>The policy a clean pass leaves in the cluster.\<close>

lemma pass_follows_keys:
  assumes gw: "envoy_gateway allows" and run: "ReconcilePassthrough r (ns, mn) s = (Inr None, t)"
    and pm: "viewP s (ns, mn) = Some pm" and live: "\<not> om_deleting (pm_meta pm)"
    and on: "boolOrDefault (tog_enabled (pep_external (pspec_endpoints (pm_spec pm)))) True"
  shows "\<exists>route policy. viewT t ''AIGatewayRoute'' (ns, mn @ ''-external'') = Some route \<and>
    viewT t ''SecurityPolicy'' (ns, mn @ ''-external-auth'') = Some policy \<and>
    (\<forall>rq c. map_of (gr_headers rq) apiKeyClientIDHeader = Some c \<longrightarrow>
      (allows (authorizationOf policy) rq \<longleftrightarrow> c \<in> dom (map_of (dataOf (viewS s) (ns, secretName mn)))))"
proof -
  have name: "pm_name pm = mn" "pm_namespace pm = ns"
    using pass.P.view_key [OF pm] by (auto simp: metaKey_def pm_name_def pm_namespace_def)
  from pass.reconcile_ready [OF run pm live, unfolded fst_conv snd_conv secretName_operator]
  obtain ids pool res where res: "BuildPassthroughResources pm (rc_Config r) ids pool = Inr res"
    and ids: "set ids = dom (map_of (dataOf (viewS s) (ns, secretName mn)))"
    and ap: "\<forall>x \<in> set (present (gatewayObjects res)). applied viewT t x" by blast
  define p where "p = buildAPIKeyAuthSecurityPolicy (mn @ ''-external-auth'') ns
      (labelsToInterface (PassthroughStandardLabels pm)) (mn @ ''-external'') pool ids"
  define q where "q = buildPassthroughRoute (mn @ ''-external'') pm (PassthroughStandardLabels pm)
      (cfg_ExternalGatewayName (rc_Config r)) (cfg_ExternalGatewayNS (rc_Config r)) ExternalHTTPSListenerName
      (SharedExternalHostname (cfg_BaseDomain (rc_Config r))) True"
  have "pr_ExternalSecurityPolicy res = Some p" "pr_ExternalRoute res = Some q"
    using res on unfolding p_def q_def by (auto simp: BuildPassthroughResources_def Let_def name)
  then have "applied viewT t p" "applied viewT t q"
    using ap by (simp_all add: gatewayObjects_def providerObjects_def)
  moreover have "treeIdent p = (''SecurityPolicy'', ns, mn @ ''-external-auth'')"
    "treeIdent q = (''AIGatewayRoute'', ns, mn @ ''-external'')"
    unfolding p_def q_def pass.built_idents name by simp_all
  ultimately obtain policy route where policy: "viewT t ''SecurityPolicy'' (ns, mn @ ''-external-auth'') = Some policy"
    and same: "treeContent policy = treeContent p"
    and route: "viewT t ''AIGatewayRoute'' (ns, mn @ ''-external'') = Some route"
    unfolding applied_def treeIdent_def by force
  have "authorizationOf policy = authorizationOf p"
    using same by (simp add: treeContent_def authorizationOf_def)
  then have "allows (authorizationOf policy) rq \<longleftrightarrow> (\<exists>i \<in> set ids. map_of (gr_headers rq) apiKeyClientIDHeader = Some i)" for rq
    unfolding p_def by (simp add: envoy_gateway.external_allows_iff [OF gw])
  then show ?thesis using policy route ids by auto
qed

end

interpretation sys: system serverManager "clusterReconciler cfg" secretsAt configmapsAt llmmodelsAt treesAt
  passthroughsAt for cfg
  by (rule system.intro [OF server.key_stores_axioms llmc.llm_cluster_axioms pmc.passthrough_cluster_axioms])

section \<open>A run\<close>

text \<open>A key is issued for a passthrough model, a pass follows, and another key is issued.\<close>

definition issuingStart :: cluster where
  "issuingStart = readyCluster\<lparr>
     cl_secrets := [((''llm'', ''or-api-keys''),
       \<lparr>sec_meta = newMeta ''or-api-keys'' ''llm'' [], sec_type = ''Opaque'', sec_data = []\<rparr>)],
     cl_configmaps := [((''llm'', ''or-api-key-metadata''),
       \<lparr>cm_meta = newMeta ''or-api-key-metadata'' ''llm'' [], cm_data = []\<rparr>)]\<rparr>"

definition issuedRun :: "(gerror + CreateKeyResult) \<times> cluster" where
  "issuedRun = createKey sampleKeyEnv serverManager sampleDraws ''or'' ''alice'' ''d'' issuingStart"

definition followedRun :: "(gerror + int option) \<times> cluster" where
  "followedRun = ReconcilePassthrough (clusterReconciler sampleConfig) (''llm'', ''or'') (snd issuedRun)"

definition issuedAgain :: "(gerror + CreateKeyResult) \<times> cluster" where
  "issuedAgain = createKey sampleKeyEnv serverManager sampleDraws ''or'' ''bob'' ''d'' (snd followedRun)"

definition issuedKey :: CreateKeyResult where
  "issuedKey = \<lparr>ckr_clientID = ''user-alice-or-616c696365006f720000000000000000-1'',
     ckr_apiKey = ''sk-YWJjZGVmZ2hpamtsbW5vcHFyc3R1dnd4''\<rparr>"

lemma issuedRun_value:
  "fst issuedRun = Inr issuedKey" "passthroughsAt (snd issuedRun) (''llm'', ''or'') = Some readyPassthrough"
  by code_simp+

lemma followedRun_value: "fst followedRun = Inr None"
  by code_simp

lemma readyPassthrough_values:
  "\<not> om_deleting (pm_meta readyPassthrough)"
  "boolOrDefault (tog_enabled (pep_external (pspec_endpoints (pm_spec readyPassthrough)))) True"
  "mgr_namespace serverManager = ''llm''"
  by code_simp+

lemma issuedRun_eq:
  "createKey sampleKeyEnv serverManager sampleDraws ''or'' ''alice'' ''d'' issuingStart = (Inr issuedKey, snd issuedRun)"
  using issuedRun_value(1) by (metis issuedRun_def prod.collapse)

lemma sample_steps:
  "system_run sampleKeyEnv serverManager (clusterReconciler sampleConfig) llmmodelsAt passthroughsAt
     (snd issuedRun) [Reconciled (''llm'', ''or''), Minted ''or''] (snd issuedAgain)"
proof (rule system_run.step)
  have "system_step sampleKeyEnv serverManager (clusterReconciler sampleConfig) llmmodelsAt passthroughsAt
      (snd issuedRun) (passEvent pm_meta (passthroughsAt (snd issuedRun)) (''llm'', ''or'')) (snd followedRun)"
    by (rule passthrough_pass [of _ _ _ "fst followedRun"]) (simp add: followedRun_def)
  then show "system_step sampleKeyEnv serverManager (clusterReconciler sampleConfig) llmmodelsAt passthroughsAt
      (snd issuedRun) (Reconciled (''llm'', ''or'')) (snd followedRun)"
    by (simp add: issuedRun_value(2) passEvent_def readyPassthrough_values(1))
  show "system_run sampleKeyEnv serverManager (clusterReconciler sampleConfig) llmmodelsAt passthroughsAt
      (snd followedRun) [Minted ''or''] (snd issuedAgain)"
    by (rule system_run.step [OF mint [of _ _ _ _ _ _ _ "fst issuedAgain"] still]) (simp add: issuedAgain_def)
qed

section \<open>Properties\<close>

text \<open>C2: an issued key stays: after any sequence of mints, revocations and passes of both controllers,
  however they end, its credential and its metadata are in the cluster as they were issued, unless
  the key itself was revoked or a pass found its model marked for deletion.\<close>

theorem issued_key_survives:
  assumes "system m r viewS viewM viewL viewT viewP"
    and "createKey env m draws mn u d s0 = (Inr res, s1)" and "system_run env m r viewL viewP s1 evs s2"
    and "Revoked mn (ckr_clientID res) \<notin> set evs" and "Released (mgr_namespace m, mn) \<notin> set evs"
    and "sn = (mgr_namespace m, secretName mn)" and "cn = (mgr_namespace m, configMapName mn)"
  shows "\<exists>js. entries (viewS s1) (viewM s1) sn cn (ckr_clientID res) = (Some (ckr_apiKey res), Some js) \<and>
    entries (viewS s2) (viewM s2) sn cn (ckr_clientID res) = (Some (ckr_apiKey res), Some js)"
  using system.minted_entry [OF assms(1,2)] system.run_keeps_entry [OF assms(1,3) _ assms(4,5)]
  unfolding assms(6,7) by blast

theorem issued_key_survives_witness:
  "\<exists>js. entries (secretsAt (snd issuedAgain)) (configmapsAt (snd issuedAgain)) (''llm'', ''or-api-keys'')
     (''llm'', ''or-api-key-metadata'') (ckr_clientID issuedKey) = (Some (ckr_apiKey issuedKey), Some js)"
  using issued_key_survives [OF sys.system_axioms issuedRun_eq sample_steps _ _ refl refl]
  by (auto simp: readyPassthrough_values(3) secretName_def configMapName_def)

text \<open>C3: the gateway follows the keys. When a pass over a passthrough model whose external endpoint is
  on ends without asking to be repeated, the API server holds the external route and a policy that
  admits a request exactly when its client ID was in the model's Secret when the pass began: a key
  issued before, and since then neither revoked nor released with its model, is admitted, and a
  key whose revocation came last is not. The reads of the pass are taken to be up to date; the
  operator makes them through the manager's cache, which may lag behind (\<open>get_ok\<close> of \<open>kube_kind\<close>).\<close>

theorem gateway_follows_keys:
  assumes "system m r viewS viewM viewL viewT viewP" and "envoy_gateway allows"
    and "ReconcilePassthrough r (mgr_namespace m, mn) s2 = (Inr None, s3)"
    and "viewP s2 (mgr_namespace m, mn) = Some pm" and "\<not> om_deleting (pm_meta pm)"
    and "boolOrDefault (tog_enabled (pep_external (pspec_endpoints (pm_spec pm)))) True"
    and "map_of (gr_headers rq) apiKeyClientIDHeader = Some c"
  shows "\<exists>route policy. viewT s3 ''AIGatewayRoute'' (mgr_namespace m, mn @ ''-external'') = Some route \<and>
    viewT s3 ''SecurityPolicy'' (mgr_namespace m, mn @ ''-external-auth'') = Some policy \<and>
    (allows (authorizationOf policy) rq \<longleftrightarrow>
      c \<in> dom (map_of (dataOf (viewS s2) (mgr_namespace m, secretName mn)))) \<and>
    (\<forall>env draws u d s0 k s1 evs. createKey env m draws mn u d s0 = (Inr \<lparr>ckr_clientID = c, ckr_apiKey = k\<rparr>, s1) \<and>
       system_run env m r viewL viewP s1 evs s2 \<and> Revoked mn c \<notin> set evs \<and>
       Released (mgr_namespace m, mn) \<notin> set evs \<longrightarrow> allows (authorizationOf policy) rq) \<and>
    (\<forall>s1. revokeKey m mn c s1 = (Inr (), s2) \<longrightarrow> \<not> allows (authorizationOf policy) rq)"
proof -
  let ?in = "c \<in> dom (map_of (dataOf (viewS s2) (mgr_namespace m, secretName mn)))"
  have "?in" if "createKey env m draws mn u d s0 = (Inr \<lparr>ckr_clientID = c, ckr_apiKey = k\<rparr>, s1)"
      "system_run env m r viewL viewP s1 evs s2" "Revoked mn c \<notin> set evs"
      "Released (mgr_namespace m, mn) \<notin> set evs" for env draws u d s0 k s1 evs
    using system.minted_entry [OF assms(1) that(1)] system.run_keeps_entry [OF assms(1) that(2) _ that(3,4)]
    by (auto simp: entries_def)
  moreover have "\<not> ?in" if "revokeKey m mn c s1 = (Inr (), s2)" for s1
    using system.revoked_entry [OF assms(1) that] by (simp add: entries_def domIff)
  ultimately show ?thesis
    using system.pass_follows_keys [OF assms(1-6)] assms(7) by blast
qed

theorem gateway_follows_keys_witness:
  "\<exists>policy. treesAt (snd followedRun) ''SecurityPolicy'' (''llm'', ''or-external-auth'') = Some policy \<and>
     evalAuthorization (authorizationOf policy)
       \<lparr>gr_headers = [(apiKeyClientIDHeader, ckr_clientID issuedKey)], gr_claims = []\<rparr>"
proof -
  let ?rq = "\<lparr>gr_headers = [(apiKeyClientIDHeader, ckr_clientID issuedKey)], gr_claims = []\<rparr>"
  have ns: "mgr_namespace serverManager = ''llm''" by (rule readyPassthrough_values(3))
  have run: "ReconcilePassthrough (clusterReconciler sampleConfig) (mgr_namespace serverManager, ''or'')
      (snd issuedRun) = (Inr None, snd followedRun)"
    using followedRun_value unfolding ns by (metis followedRun_def prod.collapse)
  have pm: "passthroughsAt (snd issuedRun) (mgr_namespace serverManager, ''or'') = Some readyPassthrough"
    unfolding ns by (rule issuedRun_value(2))
  have key: "createKey sampleKeyEnv serverManager sampleDraws ''or'' ''alice'' ''d'' issuingStart =
      (Inr \<lparr>ckr_clientID = ckr_clientID issuedKey, ckr_apiKey = ckr_apiKey issuedKey\<rparr>, snd issuedRun)"
    using issuedRun_eq by simp
  show ?thesis
    using gateway_follows_keys [OF sys.system_axioms envoy.envoy_gateway_axioms run pm readyPassthrough_values(1,2),
        of ?rq "ckr_clientID issuedKey"] key still [of sampleKeyEnv serverManager "clusterReconciler sampleConfig"
        llmmodelsAt passthroughsAt "snd issuedRun"]
    unfolding ns by fastforce
qed

end
