(* ===== verification/Watches.thy ===== *)
theory Watches
  imports System
begin

text \<open>
  How changes in the cluster reach the reconcilers: \<open>SetupWithManager\<close> of the two controllers, and
  the events and the work queue behind it. Whatever the order in which keys are minted and
  revoked, models come and go, events arrive and passes run, the policy of a passthrough model is
  in line with its keys or something is under way that will bring it there.
\<close>

section \<open>Registered controllers\<close>

text \<open>
  What a controller is built from: the kind it is for, the kinds it owns, and the kinds it watches
  through a map function behind a predicate.
\<close>

record 'k controllerSpec =
  cs_Named :: string
  cs_For :: string
  cs_Owns :: "string list"
  cs_Watches :: "(string \<times> (objmeta \<Rightarrow> 'k \<Rightarrow> nsname list \<times> 'k) \<times> (objmeta \<Rightarrow> bool)) list"
  cs_Reconcile :: "nsname \<Rightarrow> ('k, int option) action"

definition SetupLLMController :: "'k Reconciler \<Rightarrow> 'k controllerSpec" where
  "SetupLLMController r =
     \<lparr>cs_Named = ''llmmodel'', cs_For = ''LLMModel'',
      cs_Owns = [''Deployment'', ''Service'', ''PersistentVolumeClaim''],
      cs_Watches = [(''Secret'', enqueueAllModelsForAPIKeySecret (kc_llmmodel (rc_client r)) lm_meta,
        managedByOperatorPredicate)],
      cs_Reconcile = ReconcileLLM r\<rparr>"

definition SetupPassthroughController :: "'k Reconciler \<Rightarrow> 'k controllerSpec" where
  "SetupPassthroughController r =
     \<lparr>cs_Named = ''passthroughmodel'', cs_For = ''PassthroughModel'', cs_Owns = [],
      cs_Watches = [(''Secret'', enqueueAllModelsForAPIKeySecret (kc_passthrough (rc_client r)) pm_meta,
        managedByOperatorPredicate)],
      cs_Reconcile = ReconcilePassthrough r\<rparr>"

section \<open>Events\<close>

text \<open>
  The documented behaviour of the handlers: an event carries the kind and the metadata of the new
  object (the last one, after a deletion); \<open>For\<close> enqueues the object, \<open>Owns\<close> its controller owner
  of the right kind, \<open>Watches\<close> what the map function returns for an object the predicate lets
  through.
\<close>

type_synonym event = "string \<times> objmeta"

fun mapWatches ::
  "(string \<times> (objmeta \<Rightarrow> 'k \<Rightarrow> nsname list \<times> 'k) \<times> (objmeta \<Rightarrow> bool)) list \<Rightarrow> event \<Rightarrow> 'k \<Rightarrow>
   nsname list \<times> 'k" where
  "mapWatches [] e s = ([], s)"
| "mapWatches ((kind, f, p) # ws) e s =
     (case (if kind = fst e \<and> p (snd e) then f (snd e) s else ([], s)) of
        (reqs, t) \<Rightarrow> (case mapWatches ws e t of (further, u) \<Rightarrow> (reqs @ further, u)))"

definition ownRequests :: "'k controllerSpec \<Rightarrow> event \<Rightarrow> nsname list" where
  "ownRequests c e = (if fst e = cs_For c then [metaKey (snd e)] else [])"

definition ownerRequests :: "'k controllerSpec \<Rightarrow> event \<Rightarrow> nsname list" where
  "ownerRequests c e =
     (if fst e \<notin> set (cs_Owns c) then []
      else case om_owner (snd e) of
        None \<Rightarrow> []
      | Some (kind, name) \<Rightarrow> if kind = cs_For c then [(om_namespace (snd e), name)] else [])"

definition eventRequests :: "'k controllerSpec \<Rightarrow> event \<Rightarrow> 'k \<Rightarrow> nsname list \<times> 'k" where
  "eventRequests c e s =
     (case mapWatches (cs_Watches c) e s of (reqs, t) \<Rightarrow> (ownRequests c e @ ownerRequests c e @ reqs, t))"

section \<open>The work queue\<close>

text \<open>
  The queue holds a request at most once. A request is taken off when its pass ends clean; it
  stays, to be tried later, after an error or a wish to be repeated.
\<close>

record 'k operator =
  op_cluster :: 'k
  op_events :: "event list"
  op_queue :: "nsname list"

definition enqueue :: "nsname list \<Rightarrow> nsname list \<Rightarrow> nsname list" where
  "enqueue reqs q = fold List.insert reqs q"

definition deliver :: "'k controllerSpec \<Rightarrow> event \<Rightarrow> 'k operator \<Rightarrow> 'k operator" where
  "deliver c e w =
     (case eventRequests c e (op_cluster w) of
        (reqs, s) \<Rightarrow> \<lparr>op_cluster = s, op_events = remove1 e (op_events w), op_queue = enqueue reqs (op_queue w)\<rparr>)"

definition processNext ::
  "'k controllerSpec \<Rightarrow> nsname \<Rightarrow> event list \<Rightarrow> 'k operator \<Rightarrow> 'k operator" where
  "processNext c req evs w =
     (case cs_Reconcile c req (op_cluster w) of
        (res, s) \<Rightarrow> \<lparr>op_cluster = s, op_events = op_events w @ evs,
          op_queue = (if res = Inr None then removeAll req (op_queue w) else op_queue w)\<rparr>)"

text \<open>Every new state of a passthrough model or of a Secret is announced by an event.\<close>

definition announced ::
  "('k \<Rightarrow> nsname \<Rightarrow> PassthroughModel option) \<Rightarrow> ('k \<Rightarrow> nsname \<Rightarrow> secret option) \<Rightarrow> 'k \<Rightarrow> 'k \<Rightarrow>
   event list \<Rightarrow> bool" where
  "announced viewP viewS s t evs \<longleftrightarrow>
     (\<forall>n x. viewP t n = Some x \<longrightarrow> viewP s n \<noteq> Some x \<longrightarrow> (''PassthroughModel'', pm_meta x) \<in> set evs) \<and>
     (\<forall>n x. viewS t n = Some x \<longrightarrow> viewS s n \<noteq> Some x \<longrightarrow> (''Secret'', sec_meta x) \<in> set evs)"

definition externalPolicy :: "nsname \<Rightarrow> nsname" where
  "externalPolicy n = (fst n, snd n @ ''-external-auth'')"

text \<open>
  What happens besides the controller's own work: keys are minted and revoked, and anything else
  (users, the other controller) that does not write the external policies of passthrough models.
\<close>

inductive outside ::
  "keyEnv \<Rightarrow> 'k Manager \<Rightarrow> ('k \<Rightarrow> string \<Rightarrow> nsname \<Rightarrow> json option) \<Rightarrow>
   ('k \<Rightarrow> nsname \<Rightarrow> PassthroughModel option) \<Rightarrow> 'k \<Rightarrow> 'k \<Rightarrow> bool"
  for env m viewT viewP where
  mints: "createKey env m draws mn u d s = (q, t) \<Longrightarrow> outside env m viewT viewP s t"
| revokes: "revokeKey m mn cid s = (p, t) \<Longrightarrow> outside env m viewT viewP s t"
| elsewhere: "(\<And>n. viewP t n \<noteq> None \<Longrightarrow>
      viewT t ''SecurityPolicy'' (externalPolicy n) = viewT s ''SecurityPolicy'' (externalPolicy n)) \<Longrightarrow>
    outside env m viewT viewP s t"

inductive_cases outsideE: "outside env m viewT viewP s t"

text \<open>
  The whole system around the passthrough controller. \<open>lossy\<close> admits the case in which the models
  cannot be listed when a Secret event arrives; the code then drops the event.
\<close>

inductive operator_step ::
  "bool \<Rightarrow> keyEnv \<Rightarrow> 'k Manager \<Rightarrow> 'k Reconciler \<Rightarrow> ('k \<Rightarrow> nsname \<Rightarrow> secret option) \<Rightarrow>
   ('k \<Rightarrow> string \<Rightarrow> nsname \<Rightarrow> json option) \<Rightarrow> ('k \<Rightarrow> nsname \<Rightarrow> PassthroughModel option) \<Rightarrow>
   'k operator \<Rightarrow> 'k operator \<Rightarrow> bool"
  for lossy env m r viewS viewT viewP where
  change: "outside env m viewT viewP (op_cluster w) t \<Longrightarrow> announced viewP viewS (op_cluster w) t evs \<Longrightarrow>
    operator_step lossy env m r viewS viewT viewP w (w\<lparr>op_cluster := t, op_events := op_events w @ evs\<rparr>)"
| event: "e \<in> set (op_events w) \<Longrightarrow>
    lossy \<or> \<not> isl (fst (tc_list (kc_passthrough (rc_client r)) (om_namespace (snd e)) [] (op_cluster w))) \<Longrightarrow>
    operator_step lossy env m r viewS viewT viewP w (deliver (SetupPassthroughController r) e w)"
| pass: "req \<in> set (op_queue w) \<Longrightarrow>
    announced viewP viewS (op_cluster w) (op_cluster (processNext (SetupPassthroughController r) req evs w)) evs \<Longrightarrow>
    operator_step lossy env m r viewS viewT viewP w (processNext (SetupPassthroughController r) req evs w)"

inductive_cases operator_stepE: "operator_step lossy env m r viewS viewT viewP w w'"

text \<open>At start-up the cache announces every object that is there.\<close>

definition started ::
  "('k \<Rightarrow> nsname \<Rightarrow> PassthroughModel option) \<Rightarrow> 'k operator \<Rightarrow> bool" where
  "started viewP w \<longleftrightarrow> op_queue w = [] \<and>
     (\<forall>n x. viewP (op_cluster w) n = Some x \<longrightarrow> (''PassthroughModel'', pm_meta x) \<in> set (op_events w))"

section \<open>In line, or under way\<close>

definition servesExternally :: "PassthroughModel \<Rightarrow> bool" where
  "servesExternally pm \<longleftrightarrow> \<not> om_deleting (pm_meta pm) \<and>
     boolOrDefault (tog_enabled (pep_external (pspec_endpoints (pm_spec pm)))) True"

text \<open>The stored policy admits exactly the client IDs of a Secret.\<close>

definition policyFollows ::
  "(json option \<Rightarrow> gateway_request \<Rightarrow> bool) \<Rightarrow> json option \<Rightarrow> secret \<Rightarrow> bool" where
  "policyFollows allows policy x \<longleftrightarrow> (case policy of
     None \<Rightarrow> False
   | Some p \<Rightarrow> \<forall>rq c. map_of (gr_headers rq) apiKeyClientIDHeader = Some c \<longrightarrow>
       (allows (authorizationOf p) rq \<longleftrightarrow> c \<in> dom (map_of (sec_data x))))"

text \<open>The events that will put a model into the queue.\<close>

definition wakes :: "nsname \<Rightarrow> event \<Rightarrow> bool" where
  "wakes n e \<longleftrightarrow> fst e = ''PassthroughModel'' \<and> metaKey (snd e) = n \<or>
     fst e = ''Secret'' \<and> managedByOperatorPredicate (snd e) \<and> isAPIKeySecretName (om_name (snd e)) \<and>
     om_namespace (snd e) = fst n"

definition underWay :: "nsname \<Rightarrow> 'k operator \<Rightarrow> bool" where
  "underWay n w \<longleftrightarrow> n \<in> set (op_queue w) \<or> (\<exists>e \<in> set (op_events w). wakes n e)"

lemma set_enqueue [simp]: "set (enqueue reqs q) = set reqs \<union> set q"
  unfolding enqueue_def by (induction reqs arbitrary: q) auto

lemma underWay_events:
  "underWay n w \<Longrightarrow> underWay n (w\<lparr>op_cluster := t, op_events := op_events w @ evs\<rparr>)"
  by (auto simp: underWay_def)

text \<open>What the gateway is promised about one model.\<close>

definition inLine ::
  "(json option \<Rightarrow> gateway_request \<Rightarrow> bool) \<Rightarrow> ('k \<Rightarrow> nsname \<Rightarrow> secret option) \<Rightarrow>
   ('k \<Rightarrow> string \<Rightarrow> nsname \<Rightarrow> json option) \<Rightarrow> ('k \<Rightarrow> nsname \<Rightarrow> PassthroughModel option) \<Rightarrow> nsname \<Rightarrow>
   'k \<Rightarrow> bool" where
  "inLine allows viewS viewT viewP n s \<longleftrightarrow>
     (\<forall>pm x. viewP s n = Some pm \<and> servesExternally pm \<and>
        viewS s (fst n, secretName (snd n)) = Some x \<and> managedByOperatorPredicate (sec_meta x) \<longrightarrow>
      policyFollows allows (viewT s ''SecurityPolicy'' (externalPolicy n)) x)"

lemma inLine_frame:
  assumes "inLine allows viewS viewT viewP n s"
    and "\<And>pm. viewP t n = Some pm \<Longrightarrow> viewP s n = Some pm"
    and "\<And>x. viewS t (fst n, secretName (snd n)) = Some x \<Longrightarrow> managedByOperatorPredicate (sec_meta x) \<Longrightarrow>
      viewS s (fst n, secretName (snd n)) = Some x"
    and "viewP t n \<noteq> None \<Longrightarrow>
      viewT t ''SecurityPolicy'' (externalPolicy n) = viewT s ''SecurityPolicy'' (externalPolicy n)"
  shows "inLine allows viewS viewT viewP n t"
  using assms unfolding inLine_def by (metis option.distinct(1))

locale watched_system = system m r viewS viewM viewL viewT viewP
  for m :: "'k Manager" and r :: "'k Reconciler" and viewS viewM viewL viewT viewP +
  assumes secrets_quiet_trees: "unaffected viewT (mgr_secrets m)"
    and configmaps_quiet_trees: "unaffected viewT (mgr_configmaps m)"
begin

sublocale trees: frame "same viewT"
  by unfold_locales (simp_all add: same_def)

lemmas trees_manager = trees.keeps_manager
  [OF secrets_quiet_trees [unfolded unaffected_def] configmaps_quiet_trees [unfolded unaffected_def]]

lemma trees_createKey: "createKey env m draws mn u d s = (q, t) \<Longrightarrow> viewT t = viewT s"
  by (rule keeps_sameD [OF trees_manager(1)])

lemma trees_revokeKey: "revokeKey m mn cid s = (q, t) \<Longrightarrow> viewT t = viewT s"
  by (rule keeps_sameD [OF trees_manager(2)])

text \<open>Nothing outside the controller writes an external policy of a passthrough model.\<close>

lemma outside_policies:
  assumes "outside env m viewT viewP s t" and "viewP t n \<noteq> None"
  shows "viewT t ''SecurityPolicy'' (externalPolicy n) = viewT s ''SecurityPolicy'' (externalPolicy n)"
  using assms(1) by (rule outsideE) (use assms(2) in \<open>auto dest: trees_createKey trees_revokeKey\<close>)

text \<open>A pass writes the policies of its own model only.\<close>

lemma trees_status': "keeps (same viewT) (updateStatusPassthrough r pm phase conds)"
  by (rule keepsI) (simp add: same_def pass.trees_status)

lemma gateway_policies:
  assumes "BuildPassthroughResources pm cfg ids names = Inr res"
    and "(kind, i) \<notin> treeIdent ` set (present (gatewayObjects res))"
  shows "applyGateway r pm res s = (conds, t) \<Longrightarrow> viewT t kind i = viewT s kind i"
proof -
  have all: "viewT t kind i = viewT s kind i"
    if "applyAll r pm objs s = (e, t)" "set objs \<subseteq> set (gatewayObjects res)" for objs s e t
  proof -
    have "set (present xs) \<subseteq> set (present ys)" if "set xs \<subseteq> set ys" for xs ys :: "json option list"
    proof -
      have mem: "x \<in> set (present zs) \<longleftrightarrow> Some x \<in> set zs" for x and zs :: "json option list"
        by (induction zs rule: present.induct) auto
      show ?thesis using that by (auto simp: mem)
    qed
    with assms(2) that(2) have "(kind, i) \<notin> treeIdent ` set (present objs)" by blast
    with pass.applyLoop_effect [OF that(1) [unfolded applyAll_def]] show ?thesis by blast
  qed
  have ep: "viewT t kind i = viewT s kind i"
    if "applyEndpoint r pm c x a b s = (y, t)" "set [a, b] \<subseteq> set (gatewayObjects res)" for c x a b s y t
    using that all [of "[a, b]"] by (auto simp: applyEndpoint_def split: if_splits prod.splits)
  assume "applyGateway r pm res s = (conds, t)"
  then show "viewT t kind i = viewT s kind i"
    by (auto simp: applyGateway_def gatewayObjects_def split: prod.splits dest!: all ep)
qed

lemma build_policies:
  assumes "BuildPassthroughResources pm cfg ids names = Inr res" and "n \<noteq> (pm_namespace pm, pm_name pm)"
  shows "(''SecurityPolicy'', externalPolicy n) \<notin> treeIdent ` set (present (gatewayObjects res))"
proof -
  let ?e = "pspec_endpoints (pm_spec pm)"
  have "externalPolicy n \<noteq> (pm_namespace pm, pm_name pm @ ''-external-auth'')"
    using assms(2) by (cases n) (auto simp: externalPolicy_def)
  moreover have "externalPolicy n \<noteq> (ns, a @ ''-internal-auth'')" for ns a
  proof
    assume "externalPolicy n = (ns, a @ ''-internal-auth'')"
    then have "rev (snd n @ ''-external-auth'') = rev (a @ ''-internal-auth'')" by (simp add: externalPolicy_def)
    then show False by simp
  qed
  ultimately show ?thesis using assms(1)
    by (cases "boolOrDefault (tog_enabled (pep_external ?e)) True";
        cases "boolOrDefault (tog_enabled (pep_internal ?e)) True")
      (auto simp: BuildPassthroughResources_def Let_def gatewayObjects_def providerObjects_def pass.built_idents)
qed

definition policyAt :: "nsname \<Rightarrow> 'k \<Rightarrow> json option" where
  "policyAt n s = viewT s ''SecurityPolicy'' (externalPolicy n)"

sublocale policy: frame "same (policyAt n)" for n
  by unfold_locales (simp_all add: same_def)

lemma trees_policy: "keeps (same viewT) f \<Longrightarrow> keeps (same (policyAt n)) f"
  by (erule keeps_weaken) (simp add: same_def policyAt_def)

lemma policy_gather: "keeps (same (policyAt n)) (gatherPassthrough r pm)"
proof (rule trees_policy)
  have "keeps (same viewT) (apiKeyClientIDs (kc_secret (rc_client r)) a b)" for a b
    using keeps_sameD [OF unaffectedD(1) [OF pass.secret_quiet_trees]]
    by (auto simp: keeps_def same_def apiKeyClientIDs_def split: prod.splits sum.splits if_splits)
  moreover have "keeps (same viewT) (apiKeySecretNamesWith (kc_secret (rc_client r)) a b)" for a b
    using keeps_sameD [OF unaffectedD(2) [OF pass.secret_quiet_trees]]
    by (auto simp: keeps_def same_def apiKeySecretNamesWith_def split: prod.splits sum.splits)
  ultimately show "keeps (same viewT) (gatherPassthrough r pm)"
    unfolding gatherPassthrough_def by (intro trees.keeps_bind trees.keeps_wrap trees.keeps_return)
qed

lemma policy_endpoints:
  assumes "n \<noteq> (pm_namespace pm, pm_name pm)"
  shows "keeps (same (policyAt n)) (reconcileEndpoints r pm)"
proof -
  have status: "keeps (same (policyAt n)) (updateStatusPassthrough r pm p cs)" for p cs
    by (rule trees_policy [OF trees_status'])
  have gw: "keeps (same (policyAt n)) (reconcileGateway r pm res)"
    if "BuildPassthroughResources pm (rc_Config r) ids names = Inr res" for ids names res
  proof (rule keepsI)
    fix s q t assume run: "reconcileGateway r pm res s = (q, t)"
    obtain conds u where a: "applyGateway r pm res s = (conds, u)" by fastforce
    have upd: "keeps (same (policyAt n)) (bindE (updateStatusPassthrough r pm p conds) (\<lambda>u. returnE x))"
      for p and x :: "int option" by (intro policy.keeps_bind policy.keeps_return status)
    from run a have "policyAt n t = policyAt n u"
      by (auto simp: reconcileGateway_def Let_def dest: keeps_sameD [OF upd])
    with gateway_policies [OF that build_policies [OF that assms] a]
    show "same (policyAt n) s t" by (simp add: same_def policyAt_def)
  qed
  have "keeps (same (policyAt n)) (case x of (ids, names) \<Rightarrow>
      case BuildPassthroughResources pm (rc_Config r) ids names of
        Inl e \<Rightarrow> bindE (ignoreE (updateStatusPassthrough r pm PassthroughPhaseError [buildFailedCondition e]))
          (\<lambda>u. throwE (wrapErr ''building passthrough resources'' e))
      | Inr res \<Rightarrow> applyPassthrough r pm res)" for x
  proof (cases x)
    case (Pair ids names)
    show ?thesis
    proof (cases "BuildPassthroughResources pm (rc_Config r) ids names")
      case (Inl e)
      then show ?thesis unfolding Pair
        by simp (intro policy.keeps_bind policy.keeps_ignore policy.keeps_throw status)
    next
      case (Inr res)
      have "keeps (same (policyAt n)) (applyPassthrough r pm res)"
        unfolding applyPassthrough_def pm_createOrUpdate_eq
        by (intro policy.keeps_bind policy.keeps_wrap gw [OF Inr] trees_policy pass.trees_secret pass.trees_configmap)
      then show ?thesis by (simp add: Pair Inr)
    qed
  qed
  then show ?thesis unfolding reconcileEndpoints_def
    by (rule policy.keeps_bind [OF policy_gather])
qed

lemma trees_delete: "keeps (same viewT) (reconcileDeletePassthrough r pm)"
proof -
  note q = unaffectedD [OF pass.secret_quiet_trees] unaffectedD [OF pass.configmap_quiet_trees]
    unaffectedD [OF pass.passthrough_quiet]
  show ?thesis unfolding reconcileDeletePassthrough_def deleteKeyObjects_def
    by (intro trees.keeps_if trees.keeps_bind trees.keeps_wrap trees.keeps_return trees.keeps_deleteIfPresent q)
qed

lemma pass_policies:
  assumes run: "ReconcilePassthrough r req s = (q, t)" and other: "n \<noteq> req"
  shows "policyAt n t = policyAt n s"
proof -
  let ?c = "kc_passthrough (rc_client r)"
  obtain g u where g: "tc_get ?c req s = (g, u)" by fastforce
  have su: "policyAt n u = policyAt n s"
    using quietD(1) [OF pass.passthrough_quiet g] by (simp add: policyAt_def)
  show ?thesis
  proof (cases g)
    case (Inl e)
    with run g su show ?thesis by (simp add: ReconcilePassthrough_def Let_def)
  next
    case (Inr pm)
    from pass.P.get_ok [OF g [unfolded Inr]] have "viewP s req = Some pm" by blast
    then have k: "metaKey (pm_meta pm) = req" using pass.P.view_key by blast
    have ep: "keeps (same (policyAt n)) (reconcileEndpoints r p)" if "metaKey (pm_meta p) = req" for p
      using that other by (intro policy_endpoints) (auto simp: metaKey_def pm_name_def pm_namespace_def)
    show ?thesis
    proof (cases "om_deleting (pm_meta pm)")
      case True
      with run g Inr have "reconcileDeletePassthrough r pm u = (q, t)"
        by (simp add: ReconcilePassthrough_def Let_def)
      with su keeps_sameD [OF trees_policy [OF trees_delete]] show ?thesis by metis
    next
      case False
      let ?x = "pm\<lparr>pm_meta := lib_addFinalizer (rc_library r) (pm_meta pm) finalizerName\<rparr>"
      have add: "keeps (same (policyAt n)) (bindE (wrapE p (tc_update ?c ?x)) (\<lambda>pm'. reconcileEndpoints r pm'))"
        if "\<not> lib_hasFinalizer (rc_library r) (pm_meta pm) finalizerName" for p
      proof (rule policy.keeps_bind_result)
        show "keeps (same (policyAt n)) (wrapE p (tc_update ?c ?x))"
          by (intro policy.keeps_wrap trees_policy unaffectedD [OF pass.passthrough_quiet])
        fix s a t assume "wrapE p (tc_update ?c ?x) s = (Inr a, t)"
        then have "tc_update ?c ?x s = (Inr a, t)" by (simp add: wrapE_Inr)
        moreover have "alive (pm_meta ?x)" "metaKey (pm_meta ?x) = req"
          using that False k by (simp_all add: llm.has_finalizer llm.add_finalizer alive_def metaKey_def)
        ultimately have "metaKey (pm_meta a) = req" using pass.P.update_ok by metis
        then show "keeps (same (policyAt n)) (reconcileEndpoints r a)" by (rule ep)
      qed
      from run g Inr False have "policyAt n t = policyAt n u"
        by (auto simp: ReconcilePassthrough_def Let_def split: if_splits
            dest!: keeps_sameD [OF add, rotated] keeps_sameD [OF ep [OF k]])
      with su show ?thesis by simp
    qed
  qed
qed

text \<open>Delivering an event only reads, and enqueues what the event wakes.\<close>

lemma enqueueAll_reads:
  assumes "enqueueAllModelsForAPIKeySecret (kc_passthrough (rc_client r)) pm_meta obj s = (reqs, t)"
  shows "viewP t = viewP s \<and> viewS t = viewS s \<and> viewT t = viewT s"
proof -
  obtain q u where l: "tc_list (kc_passthrough (rc_client r)) (om_namespace obj) [] s = (q, u)" by fastforce
  from pass.P.list_view [OF l] quietD(2) [OF llm.quiet_passthrough l] quietD(2) [OF pass.passthrough_quiet l]
  have "viewP u = viewP s \<and> viewS u = viewS s \<and> viewT u = viewT s" by simp
  with assms l show ?thesis by (auto simp: enqueueAllModelsForAPIKeySecret_def split: if_splits sum.splits)
qed

lemma eventRequests_passthrough:
  "eventRequests (SetupPassthroughController r) e s =
     (if fst e = ''Secret'' \<and> managedByOperatorPredicate (snd e)
      then enqueueAllModelsForAPIKeySecret (kc_passthrough (rc_client r)) pm_meta (snd e) s
      else (if fst e = ''PassthroughModel'' then [metaKey (snd e)] else [], s))"
  by (auto simp: eventRequests_def SetupPassthroughController_def ownRequests_def ownerRequests_def split: prod.splits)

lemma deliver_reads:
  "viewP (op_cluster (deliver (SetupPassthroughController r) e w)) = viewP (op_cluster w)"
  "viewS (op_cluster (deliver (SetupPassthroughController r) e w)) = viewS (op_cluster w)"
  "viewT (op_cluster (deliver (SetupPassthroughController r) e w)) = viewT (op_cluster w)"
  by (auto simp: deliver_def eventRequests_passthrough split: prod.splits if_splits dest: enqueueAll_reads)

lemma deliver_wakes:
  assumes "wakes n e" and "viewP (op_cluster w) n \<noteq> None" and "fst n \<noteq> []"
    and "\<not> isl (fst (tc_list (kc_passthrough (rc_client r)) (om_namespace (snd e)) [] (op_cluster w)))"
  shows "n \<in> set (op_queue (deliver (SetupPassthroughController r) e w))"
proof (cases "fst e = ''Secret''")
  case False
  with assms(1) show ?thesis
    by (auto simp: wakes_def deliver_def eventRequests_passthrough split: prod.splits)
next
  case True
  with assms(1) have e: "managedByOperatorPredicate (snd e)" "isAPIKeySecretName (om_name (snd e))"
    "om_namespace (snd e) = fst n" by (auto simp: wakes_def)
  obtain reqs t where q: "enqueueAllModelsForAPIKeySecret (kc_passthrough (rc_client r)) pm_meta (snd e)
      (op_cluster w) = (reqs, t)" by fastforce
  obtain x where "viewP (op_cluster w) n = Some x" using assms(2) by blast
  with secret_change_enqueues_models [OF pass.P.kube_kind_axioms e(2) q, of "snd n" x] e(3) assms(3,4)
  have "n \<in> set reqs" by (auto simp: isl_def)
  with q e(1) True show ?thesis by (simp add: deliver_def eventRequests_passthrough)
qed

lemma deliver_queue: "set (op_queue w) \<subseteq> set (op_queue (deliver c e w))"
  by (auto simp: deliver_def split: prod.splits)

lemma deliver_events: "op_events (deliver c e w) = remove1 e (op_events w)"
  by (simp add: deliver_def split: prod.splits)

text \<open>After announced changes that leave the policy alone, a model is still in line or under way.\<close>

lemma announced_frame:
  assumes "announced viewP viewS s t evs" and "\<And>e. e \<in> set evs \<Longrightarrow> \<not> wakes n e"
  shows "viewP t n = Some pm \<Longrightarrow> viewP s n = Some pm"
    and "viewS t (fst n, secretName (snd n)) = Some x \<Longrightarrow> managedByOperatorPredicate (sec_meta x) \<Longrightarrow>
      viewS s (fst n, secretName (snd n)) = Some x"
proof -
  assume pm: "viewP t n = Some pm"
  show "viewP s n = Some pm"
  proof (rule ccontr)
    assume "viewP s n \<noteq> Some pm"
    with assms(1) pm have e: "(''PassthroughModel'', pm_meta pm) \<in> set evs"
      unfolding announced_def by blast
    have "metaKey (pm_meta pm) = n" using pass.P.view_key [OF pm] by blast
    then have "wakes n (''PassthroughModel'', pm_meta pm)" by (simp add: wakes_def)
    with assms(2) [OF e] show False by blast
  qed
next
  let ?n = "(fst n, secretName (snd n))"
  assume x: "viewS t ?n = Some x" and m: "managedByOperatorPredicate (sec_meta x)"
  show "viewS s ?n = Some x"
  proof (rule ccontr)
    assume "viewS s ?n \<noteq> Some x"
    with assms(1) x have e: "(''Secret'', sec_meta x) \<in> set evs" unfolding announced_def by blast
    have "metaKey (sec_meta x) = ?n" using llm.S.view_key [OF x] by blast
    moreover have "isAPIKeySecretName (secretName (snd n))"
      by (simp add: isAPIKeySecretName_def secretName_def APIKeySecretSuffix_def)
    ultimately have "wakes n (''Secret'', sec_meta x)" using m by (auto simp: wakes_def metaKey_def)
    with assms(2) [OF e] show False by blast
  qed
qed

abbreviation settled where
  "settled allows n w \<equiv> underWay n w \<or> inLine allows viewS viewT viewP n (op_cluster w)"

lemma settled_change:
  assumes "settled allows n w" and "announced viewP viewS (op_cluster w) t evs"
    and "viewP t n \<noteq> None \<Longrightarrow> policyAt n t = policyAt n (op_cluster w)"
    and "op_cluster w' = t" and "op_events w' = op_events w @ evs" and "n \<in> set (op_queue w) \<Longrightarrow> n \<in> set (op_queue w')"
  shows "settled allows n w'"
proof (cases "underWay n w'")
  case False
  with assms(5,6) have quiet: "\<And>e. e \<in> set evs \<Longrightarrow> \<not> wakes n e" and "\<not> underWay n w"
    by (auto simp: underWay_def)
  with assms(1) have "inLine allows viewS viewT viewP n (op_cluster w)" by blast
  then have "inLine allows viewS viewT viewP n t"
    by (rule inLine_frame) (use announced_frame [OF assms(2) quiet] assms(3) in \<open>auto simp: policyAt_def\<close>)
  with assms(4) show ?thesis by simp
qed simp

lemma settled_own_pass:
  assumes "envoy_gateway allows" and run: "ReconcilePassthrough r n s = (Inr None, t)"
    and "announced viewP viewS s t evs" and "\<And>e. e \<in> set evs \<Longrightarrow> \<not> wakes n e"
  shows "inLine allows viewS viewT viewP n t"
  unfolding inLine_def
proof (intro allI impI)
  fix pm x
  assume a: "viewP t n = Some pm \<and> servesExternally pm \<and>
    viewS t (fst n, secretName (snd n)) = Some x \<and> managedByOperatorPredicate (sec_meta x)"
  with announced_frame [OF assms(3,4)] have s: "viewP s n = Some pm"
    "viewS s (fst n, secretName (snd n)) = Some x" by blast+
  from run have run': "ReconcilePassthrough r (fst n, snd n) s = (Inr None, t)" by simp
  have "viewP s (fst n, snd n) = Some pm" "\<not> om_deleting (pm_meta pm)"
    "boolOrDefault (tog_enabled (pep_external (pspec_endpoints (pm_spec pm)))) True"
    using s(1) a by (simp_all add: servesExternally_def)
  from pass_follows_keys [OF assms(1) run' this] obtain policy where
    "viewT t ''SecurityPolicy'' (externalPolicy n) = Some policy"
    "\<forall>rq c. map_of (gr_headers rq) apiKeyClientIDHeader = Some c \<longrightarrow>
      (allows (authorizationOf policy) rq \<longleftrightarrow> c \<in> dom (map_of (dataOf (viewS s) (fst n, secretName (snd n)))))"
    unfolding externalPolicy_def by blast
  moreover have "dataOf (viewS s) (fst n, secretName (snd n)) = sec_data x" using s(2) by (simp add: dataOf_def)
  ultimately show "policyFollows allows (viewT t ''SecurityPolicy'' (externalPolicy n)) x"
    by (simp add: policyFollows_def)
qed

lemma settled_step:
  assumes "operator_step False env m r viewS viewT viewP w w'" and "envoy_gateway allows"
    and "settled allows n w" and "fst n \<noteq> []"
  shows "settled allows n w'"
  using assms(1)
proof (rule operator_stepE)
  fix t evs
  assume w': "w' = w\<lparr>op_cluster := t, op_events := op_events w @ evs\<rparr>"
    and out: "outside env m viewT viewP (op_cluster w) t" and ann: "announced viewP viewS (op_cluster w) t evs"
  show ?thesis
    by (rule settled_change [OF assms(3) ann]) (use outside_policies [OF out] w' in \<open>auto simp: policyAt_def\<close>)
next
  fix e
  assume w': "w' = deliver (SetupPassthroughController r) e w" and e: "e \<in> set (op_events w)"
    and list: "False \<or> \<not> isl (fst (tc_list (kc_passthrough (rc_client r)) (om_namespace (snd e)) [] (op_cluster w)))"
  note same = deliver_reads [of e w, folded w']
  show ?thesis
  proof (cases "viewP (op_cluster w) n = None")
    case True
    with same(1) show ?thesis by (simp add: inLine_def)
  next
    case False
    show ?thesis
    proof (cases "wakes n e")
      case True
      from deliver_wakes [OF this False assms(4)] list show ?thesis by (simp add: w' underWay_def)
    next
      case quiet: False
      have "x \<in> set (op_events w')" if "x \<in> set (op_events w)" "wakes n x" for x
        using that quiet by (metis deliver_events in_set_remove1 w')
      then have "underWay n w'" if "underWay n w"
        using that deliver_queue [of w "SetupPassthroughController r" e] unfolding underWay_def w' by blast
      moreover have "inLine allows viewS viewT viewP n (op_cluster w')"
        if "inLine allows viewS viewT viewP n (op_cluster w)"
        using that same by (simp add: inLine_def)
      ultimately show ?thesis using assms(3) by blast
    qed
  qed
next
  fix req evs
  let ?s = "op_cluster w"
  assume w': "w' = processNext (SetupPassthroughController r) req evs w" and req: "req \<in> set (op_queue w)"
    and ann: "announced viewP viewS ?s (op_cluster (processNext (SetupPassthroughController r) req evs w)) evs"
  obtain q t where run: "ReconcilePassthrough r req ?s = (q, t)" by fastforce
  have w: "op_cluster w' = t" "op_events w' = op_events w @ evs"
    "op_queue w' = (if q = Inr None then removeAll req (op_queue w) else op_queue w)"
    using run by (simp_all add: w' processNext_def SetupPassthroughController_def)
  note ann' = ann [folded w', unfolded w(1)]
  show ?thesis
  proof (cases "n = req")
    case False
    show ?thesis
      by (rule settled_change [OF assms(3) ann' _ w(1,2)]) (use pass_policies [OF run False] False w(3) in auto)
  next
    case True
    show ?thesis
    proof (cases "underWay n w'")
      case False
      with True req w have "q = Inr None" "\<And>e. e \<in> set evs \<Longrightarrow> \<not> wakes n e"
        by (auto simp: underWay_def split: if_splits)
      with settled_own_pass [OF assms(2) run [folded True, unfolded this(1)] ann'] show ?thesis by (simp add: w(1))
    qed simp
  qed
qed

lemma settled_start: "started viewP w \<Longrightarrow> settled allows n w"
proof -
  assume start: "started viewP w"
  show ?thesis
  proof (cases "viewP (op_cluster w) n")
    case None
    then show ?thesis by (simp add: inLine_def)
  next
    case (Some x)
    with start have e: "(''PassthroughModel'', pm_meta x) \<in> set (op_events w)"
      unfolding started_def by blast
    have "metaKey (pm_meta x) = n" using pass.P.view_key [OF Some] by blast
    then have "wakes n (''PassthroughModel'', pm_meta x)" by (simp add: wakes_def)
    with e have "underWay n w" unfolding underWay_def by blast
    then show ?thesis ..
  qed
qed

lemma settled_run:
  assumes "(operator_step False env m r viewS viewT viewP)\<^sup>*\<^sup>* w w'" and "started viewP w"
    and "envoy_gateway allows" and "fst n \<noteq> []"
  shows "settled allows n w'"
  using assms(1)
  by (induction rule: rtranclp_induct) (auto simp: settled_start [OF assms(2)] dest: settled_step [OF _ assms(3) _ assms(4)])

text \<open>What happens when the models cannot be listed.\<close>

lemma dropped_event:
  assumes "fst e = ''Secret''" and "fst (tc_list (kc_passthrough (rc_client r)) (om_namespace (snd e)) [] (op_cluster w)) = Inl err"
  shows "op_queue (deliver (SetupPassthroughController r) e w) = op_queue w"
proof -
  obtain u where "tc_list (kc_passthrough (rc_client r)) (om_namespace (snd e)) [] (op_cluster w) = (Inl err, u)"
    using assms(2) by (metis prod.collapse)
  with assms(1) show ?thesis
    by (auto simp: deliver_def eventRequests_passthrough enqueueAllModelsForAPIKeySecret_def enqueue_def)
qed

lemma lost_event:
  assumes idle: "op_events w = []" "op_queue w = []"
    and sec: "viewS (op_cluster w) (mgr_namespace m, secretName mn) = Some x"
    and pol: "policyFollows allows (viewT (op_cluster w) ''SecurityPolicy'' (externalPolicy (mgr_namespace m, mn))) x"
    and mint: "createKey env m draws mn u d (op_cluster w) = (Inr res, t)"
    and ann: "announced viewP viewS (op_cluster w) t [(''Secret'', meta)]"
    and list: "fst (tc_list (kc_passthrough (rc_client r)) (om_namespace meta) [] t) = Inl err"
  shows "\<exists>w'. (operator_step True env m r viewS viewT viewP)\<^sup>*\<^sup>* w w' \<and> op_events w' = [] \<and> op_queue w' = [] \<and>
    ckr_clientID res \<in> dom (map_of (dataOf (viewS (op_cluster w')) (mgr_namespace m, secretName mn))) \<and>
    (\<exists>p. viewT (op_cluster w') ''SecurityPolicy'' (externalPolicy (mgr_namespace m, mn)) = Some p \<and>
      (\<forall>rq. map_of (gr_headers rq) apiKeyClientIDHeader = Some (ckr_clientID res) \<longrightarrow> \<not> allows (authorizationOf p) rq))"
proof -
  let ?step = "operator_step True env m r viewS viewT viewP" and ?e = "(''Secret'', meta)"
  let ?w1 = "w\<lparr>op_cluster := t, op_events := op_events w @ [?e]\<rparr>"
  let ?w2 = "deliver (SetupPassthroughController r) ?e ?w1"
  have "?step w ?w1" by (rule change [OF mints [OF mint] ann])
  moreover have "?step ?w1 ?w2" by (rule event) simp_all
  ultimately have run: "?step\<^sup>*\<^sup>* w ?w2" by (meson converse_rtranclp_into_rtranclp r_into_rtranclp)
  from keys.createKey_spec [OF mint] sec obtain sec' where
    old: "map_of (sec_data x) (ckr_clientID res) = None"
    and new: "viewS t (mgr_namespace m, secretName mn) = Some sec'" "map_of (sec_data sec') (ckr_clientID res) = Some (ckr_apiKey res)"
    by (auto simp: keys.stored_def)
  from pol obtain p where p: "viewT (op_cluster w) ''SecurityPolicy'' (externalPolicy (mgr_namespace m, mn)) = Some p"
    and deny: "\<forall>rq. map_of (gr_headers rq) apiKeyClientIDHeader = Some (ckr_clientID res) \<longrightarrow> \<not> allows (authorizationOf p) rq"
    using old by (fastforce simp: policyFollows_def split: option.splits)
  have "op_queue ?w2 = []" using dropped_event [of ?e ?w1] list idle by simp
  moreover have "op_events ?w2 = []" using idle by (simp add: deliver_events)
  moreover have "viewS (op_cluster ?w2) = viewS t" "viewT (op_cluster ?w2) = viewT (op_cluster w)"
    using deliver_reads [of ?e ?w1] trees_createKey [OF mint] by simp_all
  ultimately show ?thesis using run new p deny
    by (intro exI [of _ ?w2]) (auto simp: dataOf_def)
qed

end

interpretation watched: watched_system serverManager "clusterReconciler cfg" secretsAt configmapsAt llmmodelsAt treesAt
  passthroughsAt for cfg
proof (intro watched_system.intro watched_system_axioms.intro)
  show "system serverManager (clusterReconciler cfg) secretsAt configmapsAt llmmodelsAt treesAt passthroughsAt"
    by (rule sys.system_axioms)
qed (unfold serverManager_def Manager.simps, (rule unaffected_rules; simp add: at_defs tick_def fun_eq_iff)+)

text \<open>An event for every stored object announces any change.\<close>

definition allEvents :: "cluster \<Rightarrow> event list" where
  "allEvents s = map (\<lambda>(n, x). (''PassthroughModel'', pm_meta x)) (cl_passthroughs s) @
     map (\<lambda>(n, x). (''Secret'', sec_meta x)) (cl_secrets s)"

lemma allEvents_announced: "announced passthroughsAt secretsAt s t (allEvents t)"
  unfolding announced_def allEvents_def
  by (force simp: passthroughsAt_def secretsAt_def dest!: visible_SomeD)

lemma allEvents_started: "started passthroughsAt \<lparr>op_cluster = s, op_events = allEvents s, op_queue = []\<rparr>"
  unfolding started_def allEvents_def by (force simp: passthroughsAt_def dest!: visible_SomeD)

section \<open>Properties\<close>

text \<open>C5: the gateway cannot fall behind unnoticed. Start the operator on any cluster and let keys be
  minted and revoked, models be created, changed and deleted, events arrive in any order, and
  passes succeed or fail: as long as no Secret event is dropped, for every passthrough model served
  externally the stored policy admits exactly the client IDs of its Secret, or its request is in
  the queue, or an event is under way that will put it there.\<close>

theorem gateway_never_left_behind:
  assumes "watched_system m r viewS viewM viewL viewT viewP" and "envoy_gateway allows"
    and "started viewP w0" and "(operator_step False env m r viewS viewT viewP)\<^sup>*\<^sup>* w0 w"
    and "viewP (op_cluster w) n = Some pm" and "servesExternally pm" and "fst n \<noteq> []"
    and "viewS (op_cluster w) (fst n, secretName (snd n)) = Some x" and "managedByOperatorPredicate (sec_meta x)"
  shows "policyFollows allows (viewT (op_cluster w) ''SecurityPolicy'' (externalPolicy n)) x \<or>
    n \<in> set (op_queue w) \<or> (\<exists>e \<in> set (op_events w). wakes n e)"
  using watched_system.settled_run [OF assms(1,4,3,2,7)] assms(5,6,8,9)
  unfolding inLine_def underWay_def by blast

definition watchStart :: cluster where
  "watchStart = issuingStart\<lparr>cl_secrets := [((''llm'', ''or-api-keys''),
     \<lparr>sec_meta = newMeta ''or-api-keys'' ''llm'' [(managedByLabel, operatorName)], sec_type = ''Opaque'',
      sec_data = []\<rparr>)]\<rparr>"

definition watchMint :: "(gerror + CreateKeyResult) \<times> cluster" where
  "watchMint = createKey sampleKeyEnv serverManager sampleDraws ''or'' ''alice'' ''d'' watchStart"

definition mintedSecret :: secret where
  "mintedSecret = snd (hd (cl_secrets (snd watchMint)))"

lemma watchMint_values:
  "passthroughsAt (snd watchMint) (''llm'', ''or'') = Some readyPassthrough"
  "servesExternally readyPassthrough" "managedByOperatorPredicate (sec_meta mintedSecret)"
  "sec_data mintedSecret \<noteq> []"
  by code_simp+

lemma watchMint_secret: "secretsAt (snd watchMint) (''llm'', ''or-api-keys'') = Some mintedSecret"
  by code_simp

theorem gateway_never_left_behind_witness:
  "\<exists>w. (operator_step False sampleKeyEnv serverManager (clusterReconciler sampleConfig) secretsAt treesAt
       passthroughsAt)\<^sup>*\<^sup>* \<lparr>op_cluster = watchStart, op_events = allEvents watchStart, op_queue = []\<rparr> w \<and>
     op_cluster w = snd watchMint \<and>
     (policyFollows evalAuthorization (treesAt (op_cluster w) ''SecurityPolicy'' (externalPolicy (''llm'', ''or'')))
        mintedSecret \<or>
      (''llm'', ''or'') \<in> set (op_queue w) \<or> (\<exists>e \<in> set (op_events w). wakes (''llm'', ''or'') e))"
proof -
  let ?start = "\<lparr>op_cluster = watchStart, op_events = allEvents watchStart, op_queue = []\<rparr>"
  let ?w = "?start\<lparr>op_cluster := snd watchMint, op_events := op_events ?start @ allEvents (snd watchMint)\<rparr>"
  let ?step = "operator_step False sampleKeyEnv serverManager (clusterReconciler sampleConfig) secretsAt treesAt passthroughsAt"
  have "createKey sampleKeyEnv serverManager sampleDraws ''or'' ''alice'' ''d'' watchStart = (fst watchMint, snd watchMint)"
    by (simp add: watchMint_def)
  then have "outside sampleKeyEnv serverManager treesAt passthroughsAt (op_cluster ?start) (snd watchMint)"
    unfolding operator.simps by (rule mints)
  then have "?step ?start ?w" by (rule change [OF _ allEvents_announced])
  then have run: "?step\<^sup>*\<^sup>* ?start ?w" by (rule r_into_rtranclp)
  have n: "fst (''llm'', ''or'') = ''llm''" "secretName (snd (''llm'', ''or'')) = ''or-api-keys''"
    by (simp_all add: secretName_def)
  have p: "passthroughsAt (op_cluster ?w) (''llm'', ''or'') = Some readyPassthrough" using watchMint_values(1) by simp
  have x: "secretsAt (op_cluster ?w) (fst (''llm'', ''or''), secretName (snd (''llm'', ''or''))) = Some mintedSecret"
    unfolding n using watchMint_secret by simp
  have ns: "fst (''llm'', ''or'') \<noteq> []" by simp
  from gateway_never_left_behind [OF watched.watched_system_axioms envoy.envoy_gateway_axioms allEvents_started run p
      watchMint_values(2) ns x watchMint_values(3)] run show ?thesis
    by (intro exI [of _ ?w]) simp
qed

text \<open>C36: a dropped event is not made up for. When a key is minted while everything is in line and idle,
  and listing the models fails when the Secret's event is handled, the operator is idle again, the
  key is stored, and the gateway denies every request made with it.\<close>

theorem dropped_event_leaves_key_denied:
  assumes "watched_system m r viewS viewM viewL viewT viewP"
    and "op_events w = []" and "op_queue w = []"
    and "viewS (op_cluster w) (mgr_namespace m, secretName mn) = Some x"
    and "policyFollows allows (viewT (op_cluster w) ''SecurityPolicy'' (externalPolicy (mgr_namespace m, mn))) x"
    and "createKey env m draws mn u d (op_cluster w) = (Inr res, t)"
    and "announced viewP viewS (op_cluster w) t [(''Secret'', meta)]"
    and "fst (tc_list (kc_passthrough (rc_client r)) (om_namespace meta) [] t) = Inl err"
  shows "\<exists>w'. (operator_step True env m r viewS viewT viewP)\<^sup>*\<^sup>* w w' \<and> op_events w' = [] \<and> op_queue w' = [] \<and>
    ckr_clientID res \<in> dom (map_of (dataOf (viewS (op_cluster w')) (mgr_namespace m, secretName mn))) \<and>
    (\<exists>p. viewT (op_cluster w') ''SecurityPolicy'' (externalPolicy (mgr_namespace m, mn)) = Some p \<and>
      (\<forall>rq. map_of (gr_headers rq) apiKeyClientIDHeader = Some (ckr_clientID res) \<longrightarrow> \<not> allows (authorizationOf p) rq))"
  by (rule watched_system.lost_event [OF assms])

definition denyAll :: json where
  "denyAll = buildAPIKeyAuthSecurityPolicy ''or-external-auth'' ''llm'' (JObj []) ''or-external'' [''or-api-keys''] []"

definition failingStart :: cluster where
  "failingStart = watchStart\<lparr>cl_trees := (\<lambda>k. if k = ''SecurityPolicy'' then [((''llm'', ''or-external-auth''), denyAll)] else []),
     cl_script := [Healthy, Healthy, Healthy, Healthy, Refuse ''boom'']\<rparr>"

definition failingMint :: "(gerror + CreateKeyResult) \<times> cluster" where
  "failingMint = createKey sampleKeyEnv serverManager sampleDraws ''or'' ''alice'' ''d'' failingStart"

definition emptySecret :: secret where
  "emptySecret = snd (hd (cl_secrets failingStart))"

lemma failingMint_values:
  "fst failingMint = Inr issuedKey"
  "fst (tc_list passthroughClient ''llm'' [] (snd failingMint)) = Inl (errorf ''boom'')"
  "cl_secrets (snd failingMint) = [((''llm'', ''or-api-keys''), snd (hd (cl_secrets (snd failingMint))))]"
  "om_namespace (sec_meta (snd (hd (cl_secrets (snd failingMint))))) = ''llm''"
  "secretsAt failingStart (''llm'', ''or-api-keys'') = Some emptySecret" "sec_data emptySecret = []"
  "treesAt failingStart ''SecurityPolicy'' (''llm'', ''or-external-auth'') = Some denyAll"
  by code_simp+

lemma failingMint_models: "passthroughsAt (snd failingMint) = passthroughsAt failingStart"
proof -
  have "cl_passthroughs (snd failingMint) = cl_passthroughs failingStart" by code_simp
  then show ?thesis by (simp add: passthroughsAt_def fun_eq_iff)
qed

theorem dropped_event_leaves_key_denied_witness:
  "\<exists>w p. (operator_step True sampleKeyEnv serverManager (clusterReconciler sampleConfig) secretsAt treesAt
       passthroughsAt)\<^sup>*\<^sup>* \<lparr>op_cluster = failingStart, op_events = [], op_queue = []\<rparr> w \<and> op_queue w = [] \<and>
     treesAt (op_cluster w) ''SecurityPolicy'' (''llm'', ''or-external-auth'') = Some p \<and>
     \<not> evalAuthorization (authorizationOf p)
       \<lparr>gr_headers = [(apiKeyClientIDHeader, ckr_clientID issuedKey)], gr_claims = []\<rparr>"
proof -
  let ?w = "\<lparr>op_cluster = failingStart, op_events = [], op_queue = []\<rparr>"
  let ?meta = "sec_meta (snd (hd (cl_secrets (snd failingMint))))"
  have n: "(mgr_namespace serverManager, secretName ''or'') = (''llm'', ''or-api-keys'')"
    "externalPolicy (mgr_namespace serverManager, ''or'') = (''llm'', ''or-external-auth'')"
    by (simp_all add: readyPassthrough_values(3) secretName_def externalPolicy_def)
  have sec: "secretsAt (op_cluster ?w) (mgr_namespace serverManager, secretName ''or'') = Some emptySecret"
    unfolding n using failingMint_values(5) by simp
  have pol: "policyFollows evalAuthorization
      (treesAt (op_cluster ?w) ''SecurityPolicy'' (externalPolicy (mgr_namespace serverManager, ''or''))) emptySecret"
    unfolding n by (simp add: failingMint_values(6,7) policyFollows_def denyAll_def
        envoy_gateway.external_allows_iff [OF envoy.envoy_gateway_axioms])
  have mint: "createKey sampleKeyEnv serverManager sampleDraws ''or'' ''alice'' ''d'' (op_cluster ?w) =
      (Inr issuedKey, snd failingMint)"
    using failingMint_values(1) unfolding failingMint_def operator.simps by (metis prod.collapse)
  have only: "x = snd (hd (cl_secrets (snd failingMint)))" if "secretsAt (snd failingMint) i = Some x" for i x
  proof -
    have "(i, x) \<in> set (cl_secrets (snd failingMint))" using that by (auto simp: secretsAt_def dest: visible_SomeD)
    then have "(i, x) \<in> {((''llm'', ''or-api-keys''), snd (hd (cl_secrets (snd failingMint))))}"
      by (subst (asm) failingMint_values(3)) simp
    then show ?thesis by simp
  qed
  have ann: "announced passthroughsAt secretsAt (op_cluster ?w) (snd failingMint) [(''Secret'', ?meta)]"
    unfolding announced_def operator.simps failingMint_models by (auto dest: only)
  have list: "fst (tc_list (kc_passthrough (rc_client (clusterReconciler sampleConfig))) (om_namespace ?meta) []
      (snd failingMint)) = Inl (errorf ''boom'')"
    using failingMint_values(2) by (simp add: failingMint_values(4))
  show ?thesis
    using dropped_event_leaves_key_denied [OF watched.watched_system_axioms _ _ sec pol mint ann list]
    unfolding n by fastforce
qed

end
