(* ===== verification/OperatorMain.thy ===== *)
theory OperatorMain
  imports Webhooks TlsSingleton Watches
begin

text \<open>
  \<open>operator/cmd/main.go\<close> and the registration functions of the webhooks: from the command line and
  the environment to a manager that runs the two controllers, the shared-TLS singleton, the
  webhooks and the health checks. The manager of controller-runtime is an argument; the locale
  \<open>runtime\<close> names what its calls promise. The package \<open>flag\<close> is modelled as far as main uses it.
\<close>

section \<open>Flags\<close>

record flags =
  fl_metricsAddr :: string
  fl_probeAddr :: string
  fl_enableLeaderElection :: bool
  fl_secureMetrics :: bool
  fl_webhookCertPath :: string
  fl_webhookCertName :: string
  fl_webhookCertKey :: string
  fl_metricsCertPath :: string
  fl_metricsCertName :: string
  fl_metricsCertKey :: string
  fl_enableHTTP2 :: bool

definition defaultFlags :: flags where
  "defaultFlags = \<lparr>fl_metricsAddr = ''0'', fl_probeAddr = '':8081'', fl_enableLeaderElection = False,
     fl_secureMetrics = True, fl_webhookCertPath = [], fl_webhookCertName = ''tls.crt'', fl_webhookCertKey = ''tls.key'',
     fl_metricsCertPath = [], fl_metricsCertName = ''tls.crt'', fl_metricsCertKey = ''tls.key'',
     fl_enableHTTP2 = False\<rparr>"

datatype flag = StringVar "string \<Rightarrow> flags \<Rightarrow> flags" | BoolVar "bool \<Rightarrow> flags \<Rightarrow> flags"

definition registeredFlags :: "(string \<times> flag) list" where
  "registeredFlags =
     [(''metrics-bind-address'', StringVar (\<lambda>v. fl_metricsAddr_update (\<lambda>_. v))),
      (''health-probe-bind-address'', StringVar (\<lambda>v. fl_probeAddr_update (\<lambda>_. v))),
      (''leader-elect'', BoolVar (\<lambda>v. fl_enableLeaderElection_update (\<lambda>_. v))),
      (''metrics-secure'', BoolVar (\<lambda>v. fl_secureMetrics_update (\<lambda>_. v))),
      (''webhook-cert-path'', StringVar (\<lambda>v. fl_webhookCertPath_update (\<lambda>_. v))),
      (''webhook-cert-name'', StringVar (\<lambda>v. fl_webhookCertName_update (\<lambda>_. v))),
      (''webhook-cert-key'', StringVar (\<lambda>v. fl_webhookCertKey_update (\<lambda>_. v))),
      (''metrics-cert-path'', StringVar (\<lambda>v. fl_metricsCertPath_update (\<lambda>_. v))),
      (''metrics-cert-name'', StringVar (\<lambda>v. fl_metricsCertName_update (\<lambda>_. v))),
      (''metrics-cert-key'', StringVar (\<lambda>v. fl_metricsCertKey_update (\<lambda>_. v))),
      (''enable-http2'', BoolVar (\<lambda>v. fl_enableHTTP2_update (\<lambda>_. v)))]"

definition parseBool :: "string \<Rightarrow> bool option" where
  "parseBool v =
     (if v \<in> {''1'', ''t'', ''T'', ''TRUE'', ''true'', ''True''} then Some True
      else if v \<in> {''0'', ''f'', ''F'', ''FALSE'', ''false'', ''False''} then Some False else None)"

definition cutEquals :: "string \<Rightarrow> string \<times> string option" where
  "cutEquals s = (takeWhile (\<lambda>c. c \<noteq> CHR ''='') s, if CHR ''='' \<in> set s then Some (tl (dropWhile (\<lambda>c. c \<noteq> CHR ''='') s)) else None)"

text \<open>
  \<open>flag.Parse\<close> stops at the first argument that is no flag; a help request exits with 0, any error
  with 2.
\<close>

fun parseFlags :: "(string \<times> flag) list \<Rightarrow> string list \<Rightarrow> flags \<Rightarrow> nat + flags" where
  "parseFlags fs [] o' = Inr o'"
| "parseFlags fs (a # as) o' =
     (if length a < 2 \<or> hd a \<noteq> CHR ''-'' \<or> a = ''--'' then Inr o'
      else
        let body = (if hasPrefix a ''--'' then drop 2 a else drop 1 a); (name, val) = cutEquals body
        in if body = [] \<or> hd body \<in> {CHR ''-'', CHR ''=''} then Inl 2
           else case map_of fs name of
             None \<Rightarrow> Inl (if name \<in> {''help'', ''h''} then 0 else 2)
           | Some (BoolVar f) \<Rightarrow>
               (case val of
                  None \<Rightarrow> parseFlags fs as (f True o')
                | Some v \<Rightarrow> (case parseBool v of None \<Rightarrow> Inl 2 | Some b \<Rightarrow> parseFlags fs as (f b o')))
           | Some (StringVar f) \<Rightarrow>
               (case val of
                  Some v \<Rightarrow> parseFlags fs as (f v o')
                | None \<Rightarrow> (case as of [] \<Rightarrow> Inl 2 | v # as' \<Rightarrow> parseFlags fs as' (f v o'))))"

section \<open>Server options\<close>

record tlsConfig =
  tls_NextProtos :: "string list"

definition disableHTTP2 :: "tlsConfig \<Rightarrow> tlsConfig" where
  "disableHTTP2 c = c\<lparr>tls_NextProtos := [''http/1.1'']\<rparr>"

definition tlsOpts :: "flags \<Rightarrow> (tlsConfig \<Rightarrow> tlsConfig) list" where
  "tlsOpts f = (if \<not> fl_enableHTTP2 f then [disableHTTP2] else [])"

record serverOptions =
  so_BindAddress :: string
  so_SecureServing :: bool
  so_TLSOpts :: "(tlsConfig \<Rightarrow> tlsConfig) list"
  so_Authenticated :: bool
  so_CertDir :: string
  so_CertName :: string
  so_KeyName :: string

text \<open>The fields of \<open>webhook.Options\<close> and \<open>metricsserver.Options\<close> that main sets; the rest stays zero.\<close>

definition webhookServerOptions :: "flags \<Rightarrow> serverOptions" where
  "webhookServerOptions f =
     (let opts = \<lparr>so_BindAddress = [], so_SecureServing = False, so_TLSOpts = tlsOpts f, so_Authenticated = False,
            so_CertDir = [], so_CertName = [], so_KeyName = []\<rparr>
      in if fl_webhookCertPath f \<noteq> []
         then opts\<lparr>so_CertDir := fl_webhookCertPath f, so_CertName := fl_webhookCertName f,
           so_KeyName := fl_webhookCertKey f\<rparr>
         else opts)"

definition metricsServerOptions :: "flags \<Rightarrow> serverOptions" where
  "metricsServerOptions f =
     (let opts = \<lparr>so_BindAddress = fl_metricsAddr f, so_SecureServing = fl_secureMetrics f, so_TLSOpts = tlsOpts f,
            so_Authenticated = fl_secureMetrics f, so_CertDir = [], so_CertName = [], so_KeyName = []\<rparr>
      in if fl_metricsCertPath f \<noteq> []
         then opts\<lparr>so_CertDir := fl_metricsCertPath f, so_CertName := fl_metricsCertName f,
           so_KeyName := fl_metricsCertKey f\<rparr>
         else opts)"

record managerOptions =
  mo_Metrics :: serverOptions
  mo_WebhookServer :: serverOptions
  mo_HealthProbeBindAddress :: string
  mo_LeaderElection :: bool
  mo_LeaderElectionID :: string

definition managerOptionsOf :: "flags \<Rightarrow> managerOptions" where
  "managerOptionsOf f =
     \<lparr>mo_Metrics = metricsServerOptions f, mo_WebhookServer = webhookServerOptions f,
      mo_HealthProbeBindAddress = fl_probeAddr f, mo_LeaderElection = fl_enableLeaderElection f,
      mo_LeaderElectionID = ''344e6e5b.nebari.dev''\<rparr>"

section \<open>The manager\<close>

record webhookSpec =
  wh_For :: string
  wh_Validator :: Validator

text \<open>
  The manager's calls change a state \<open>'m\<close>; its clients and the uncached reader are handed to what
  is registered. \<open>rt_getConfig\<close> is \<open>GetConfigOrDie\<close>, which exits with 1.
\<close>

record ('m, 'k) runtime_library =
  rt_flags :: "(string \<times> flag) list"
  rt_getConfig :: "gerror option"
  rt_newManager :: "managerOptions \<Rightarrow> ('m, unit) action"
  rt_client :: "'k clients"
  rt_library :: library
  rt_tlsLibrary :: tls_library
  rt_reader :: Validator
  rt_controller :: "'k controllerSpec \<Rightarrow> ('m, unit) action"
  rt_webhook :: "webhookSpec \<Rightarrow> ('m, unit) action"
  rt_add :: "'k ClusterTLSSingleton \<Rightarrow> ('m, unit) action"
  rt_healthz :: "string \<Rightarrow> ('m, unit) action"
  rt_readyz :: "string \<Rightarrow> ('m, unit) action"
  rt_start :: "('m, unit) action"

definition newValidator :: "('m, 'k) runtime_library \<Rightarrow> string \<Rightarrow> Validator" where
  "newValidator lib operatorNamespace = (rt_reader lib)\<lparr>va_OperatorNamespace := operatorNamespace\<rparr>"

definition SetupLLMModelWebhookWithManager ::
  "('m, 'k) runtime_library \<Rightarrow> string \<Rightarrow> ('m, unit) action" where
  "SetupLLMModelWebhookWithManager lib operatorNamespace =
     rt_webhook lib \<lparr>wh_For = ''LLMModel'', wh_Validator = newValidator lib operatorNamespace\<rparr>"

definition SetupPassthroughModelWebhookWithManager ::
  "('m, 'k) runtime_library \<Rightarrow> string \<Rightarrow> ('m, unit) action" where
  "SetupPassthroughModelWebhookWithManager lib operatorNamespace =
     rt_webhook lib \<lparr>wh_For = ''PassthroughModel'', wh_Validator = newValidator lib operatorNamespace\<rparr>"

section \<open>main\<close>

definition newReconciler :: "('m, 'k) runtime_library \<Rightarrow> environ \<Rightarrow> OperatorConfig \<Rightarrow> 'k Reconciler" where
  "newReconciler lib e cfg =
     \<lparr>rc_client = rt_client lib, rc_library = rt_library lib, rc_Config = cfg, rc_environ = e\<rparr>"

definition newSingleton :: "('m, 'k) runtime_library \<Rightarrow> OperatorConfig \<Rightarrow> 'k ClusterTLSSingleton" where
  "newSingleton lib cfg =
     \<lparr>ts_Client = kc_tree (rt_client lib), ts_library = rt_tlsLibrary lib, ts_Config = Some cfg, ts_Interval = 0\<rparr>"

definition setupWebhooks :: "('m, 'k) runtime_library \<Rightarrow> environ \<Rightarrow> ('m, unit) action" where
  "setupWebhooks lib e =
     (if getenv e ''ENABLE_WEBHOOKS'' \<noteq> ''false''
      then let operatorNamespace = getenv e ''POD_NAMESPACE''
        in bindE (wrapE ''unable to create webhook LLMModel'' (SetupLLMModelWebhookWithManager lib operatorNamespace))
          (\<lambda>_. wrapE ''unable to create webhook PassthroughModel'' (SetupPassthroughModelWebhookWithManager lib operatorNamespace))
      else returnE ())"

text \<open>Everything after the flags: the first error is logged under its text and ends the process.\<close>

definition setupManager :: "('m, 'k) runtime_library \<Rightarrow> environ \<Rightarrow> flags \<Rightarrow> ('m, unit) action" where
  "setupManager lib e f =
     bindE (case rt_getConfig lib of None \<Rightarrow> returnE () | Some err \<Rightarrow> throwE err) (\<lambda>_.
     bindE (wrapE ''unable to start manager'' (rt_newManager lib (managerOptionsOf f))) (\<lambda>_.
     bindE (wrapE ''unable to load operator config'' (liftE (LoadFromEnv e))) (\<lambda>cfg.
     bindE (wrapE ''unable to create controller LLMModel''
       (rt_controller lib (SetupLLMController (newReconciler lib e cfg)))) (\<lambda>_.
     bindE (wrapE ''unable to create controller PassthroughModel''
       (rt_controller lib (SetupPassthroughController (newReconciler lib e cfg)))) (\<lambda>_.
     bindE (wrapE ''unable to register ClusterTLSSingleton'' (rt_add lib (newSingleton lib cfg))) (\<lambda>_.
     bindE (setupWebhooks lib e) (\<lambda>_.
     bindE (wrapE ''unable to set up health check'' (rt_healthz lib ''healthz'')) (\<lambda>_.
     wrapE ''unable to set up ready check'' (rt_readyz lib ''readyz'')))))))))"

definition setupAndStart :: "('m, 'k) runtime_library \<Rightarrow> environ \<Rightarrow> flags \<Rightarrow> ('m, unit) action" where
  "setupAndStart lib e f = bindE (setupManager lib e f) (\<lambda>_. wrapE ''problem running manager'' (rt_start lib))"

text \<open>The exit code of the process, and what it left.\<close>

definition operatorMain :: "('m, 'k) runtime_library \<Rightarrow> environ \<Rightarrow> string list \<Rightarrow> 'm \<Rightarrow> nat \<times> 'm" where
  "operatorMain lib e args s =
     (case parseFlags (registeredFlags @ rt_flags lib) args defaultFlags of
        Inl code \<Rightarrow> (code, s)
      | Inr f \<Rightarrow> (case setupAndStart lib e f s of (Inl err, s') \<Rightarrow> (1, s') | (Inr _, s') \<Rightarrow> (0, s')))"

section \<open>What the manager promises\<close>

datatype 'k registration =
  Controller "'k controllerSpec"
| Runnable "'k ClusterTLSSingleton"
| Webhook webhookSpec
| Healthz string
| Readyz string

text \<open>
  A registration that succeeds is remembered after the earlier ones; only \<open>Start\<close> runs anything,
  and it runs what is registered. What a failed call leaves behind is open, short of starting.
\<close>

locale runtime =
  fixes lib :: "('m, 'k) runtime_library"
    and registered :: "'m \<Rightarrow> 'k registration list"
    and running :: "'m \<Rightarrow> (managerOptions \<times> 'k registration list) option"
    and options :: "'m \<Rightarrow> managerOptions option"
  assumes new_manager: "rt_newManager lib mo s = (q, t) \<Longrightarrow> running t = running s \<and>
      (q = Inr () \<longrightarrow> registered t = [] \<and> options t = Some mo)"
    and controller: "rt_controller lib c s = (q, t) \<Longrightarrow> running t = running s \<and>
      (q = Inr () \<longrightarrow> registered t = registered s @ [Controller c] \<and> options t = options s)"
    and add_runnable: "rt_add lib r s = (q, t) \<Longrightarrow> running t = running s \<and>
      (q = Inr () \<longrightarrow> registered t = registered s @ [Runnable r] \<and> options t = options s)"
    and webhook: "rt_webhook lib w s = (q, t) \<Longrightarrow> running t = running s \<and>
      (q = Inr () \<longrightarrow> registered t = registered s @ [Webhook w] \<and> options t = options s)"
    and healthz: "rt_healthz lib n s = (q, t) \<Longrightarrow> running t = running s \<and>
      (q = Inr () \<longrightarrow> registered t = registered s @ [Healthz n] \<and> options t = options s)"
    and readyz: "rt_readyz lib n s = (q, t) \<Longrightarrow> running t = running s \<and>
      (q = Inr () \<longrightarrow> registered t = registered s @ [Readyz n] \<and> options t = options s)"
    and start: "rt_start lib s = (q, t) \<Longrightarrow>
      running t = map_option (\<lambda>mo. (mo, registered s)) (options s)"
begin

text \<open>Nothing runs before \<open>Start\<close>.\<close>

lemma quiet_calls:
  "keeps (same running) (rt_newManager lib mo)" "keeps (same running) (rt_controller lib c)"
  "keeps (same running) (rt_add lib r)" "keeps (same running) (rt_webhook lib w)"
  "keeps (same running) (rt_healthz lib n)" "keeps (same running) (rt_readyz lib n)"
  by (auto intro!: keepsI simp: same_def dest: new_manager controller add_runnable webhook healthz readyz)

sublocale idle: frame "same running"
  by unfold_locales (simp_all add: same_def)

lemma webhooks_registered:
  assumes "setupWebhooks lib e s = (q, t)"
  shows "running t = running s \<and> (q = Inr () \<longrightarrow> options t = options s \<and> registered t = registered s @
    (if getenv e ''ENABLE_WEBHOOKS'' \<noteq> ''false''
     then map (\<lambda>kind. Webhook \<lparr>wh_For = kind, wh_Validator = newValidator lib (getenv e ''POD_NAMESPACE'')\<rparr>)
       [''LLMModel'', ''PassthroughModel''] else []))"
  using assms
  by (cases q) (auto simp: setupWebhooks_def SetupLLMModelWebhookWithManager_def Let_def action_simps
      SetupPassthroughModelWebhookWithManager_def split: if_splits dest!: webhook)

lemma config_namespace: "LoadFromEnv e = Inr cfg \<Longrightarrow> cfg_OperatorNamespace cfg = getenv e ''POD_NAMESPACE''"
  by (auto simp: LoadFromEnv_def require_def Let_def split: if_splits)

lemma setup_idle: "keeps (same running) (setupManager lib e f)"
  unfolding setupManager_def setupWebhooks_def Let_def SetupLLMModelWebhookWithManager_def
    SetupPassthroughModelWebhookWithManager_def
  by (intro idle.keeps_bind idle.keeps_wrap idle.keeps_lift idle.keeps_if idle.keeps_option idle.keeps_return
      idle.keeps_throw quiet_calls)

lemma setup_registers:
  assumes run: "setupManager lib e f s = (Inr (), t)"
  shows "\<exists>cfg. LoadFromEnv e = Inr cfg \<and> options t = Some (managerOptionsOf f) \<and>
    registered t = [Controller (SetupLLMController (newReconciler lib e cfg)),
      Controller (SetupPassthroughController (newReconciler lib e cfg)), Runnable (newSingleton lib cfg)] @
      (if getenv e ''ENABLE_WEBHOOKS'' \<noteq> ''false''
       then map (\<lambda>kind. Webhook \<lparr>wh_For = kind, wh_Validator = newValidator lib (cfg_OperatorNamespace cfg)\<rparr>)
         [''LLMModel'', ''PassthroughModel''] else []) @
      [Healthz ''healthz'', Readyz ''readyz'']"
proof -
  from run obtain s1 s2 s3 s4 s5 s6 s7 cfg where
    1: "rt_newManager lib (managerOptionsOf f) s1 = (Inr (), s2)" and load: "Inr cfg = LoadFromEnv e"
    and 2: "rt_controller lib (SetupLLMController (newReconciler lib e cfg)) s2 = (Inr (), s3)"
    and 3: "rt_controller lib (SetupPassthroughController (newReconciler lib e cfg)) s3 = (Inr (), s4)"
    and 4: "rt_add lib (newSingleton lib cfg) s4 = (Inr (), s5)"
    and 5: "setupWebhooks lib e s5 = (Inr (), s6)"
    and 6: "rt_healthz lib ''healthz'' s6 = (Inr (), s7)" and 7: "rt_readyz lib ''readyz'' s7 = (Inr (), t)"
    unfolding setupManager_def by (auto simp: action_simps)
  note cfg = load [symmetric]
  have "registered s2 = [] \<and> options s2 = Some (managerOptionsOf f)" using new_manager [OF 1] by simp
  with controller [OF 2] controller [OF 3] add_runnable [OF 4] webhooks_registered [OF 5] healthz [OF 6] readyz [OF 7]
    config_namespace [OF cfg] cfg
  show ?thesis by (intro exI [of _ cfg]) simp
qed

lemma main_starts:
  assumes run: "operatorMain lib e args s = (code, t)" and idle: "running s = None"
  shows "running t = None \<and> (code = 1 \<or> parseFlags (registeredFlags @ rt_flags lib) args defaultFlags = Inl code) \<or>
    (\<exists>f cfg. parseFlags (registeredFlags @ rt_flags lib) args defaultFlags = Inr f \<and> LoadFromEnv e = Inr cfg \<and>
      code \<in> {0, 1} \<and> running t = Some (managerOptionsOf f,
        [Controller (SetupLLMController (newReconciler lib e cfg)),
         Controller (SetupPassthroughController (newReconciler lib e cfg)), Runnable (newSingleton lib cfg)] @
        (if getenv e ''ENABLE_WEBHOOKS'' \<noteq> ''false''
         then map (\<lambda>kind. Webhook \<lparr>wh_For = kind, wh_Validator = newValidator lib (cfg_OperatorNamespace cfg)\<rparr>)
           [''LLMModel'', ''PassthroughModel''] else []) @
        [Healthz ''healthz'', Readyz ''readyz'']))"
proof (cases "parseFlags (registeredFlags @ rt_flags lib) args defaultFlags")
  case (Inl c)
  with run idle show ?thesis by (simp add: operatorMain_def)
next
  case flags: (Inr f)
  obtain q u where m: "setupManager lib e f s = (q, u)" by fastforce
  have u: "running u = None" using keeps_sameD [OF setup_idle m] idle by simp
  show ?thesis
  proof (cases q)
    case (Inl err)
    with run flags m u show ?thesis by (simp add: operatorMain_def setupAndStart_def bindE_def)
  next
    case (Inr x)
    obtain p where "rt_start lib u = (p, t)" and code: "code \<in> {0, 1}"
      using run flags m Inr by (auto simp: operatorMain_def setupAndStart_def bindE_def wrapE_def
          split: prod.splits sum.splits)
    with start [of u p t] setup_registers [of e f s u] m Inr flags show ?thesis by auto
  qed
qed

end

section \<open>A reference manager\<close>

text \<open>It records what is registered; a script makes calls fail.\<close>

record 'k manager =
  mg_options :: "managerOptions option"
  mg_registered :: "'k registration list"
  mg_running :: "(managerOptions \<times> 'k registration list) option"
  mg_script :: "bool list"

definition scripted :: "('k manager \<Rightarrow> 'k manager) \<Rightarrow> ('k manager, unit) action" where
  "scripted f m =
     (case mg_script m of
        False # bs \<Rightarrow> (Inl (errorf ''refused''), m\<lparr>mg_script := bs\<rparr>)
      | _ \<Rightarrow> (Inr (), (f m)\<lparr>mg_script := tl (mg_script m)\<rparr>))"

definition register :: "'k registration \<Rightarrow> ('k manager, unit) action" where
  "register x = scripted (\<lambda>m. m\<lparr>mg_registered := mg_registered m @ [x]\<rparr>)"

definition startManager :: "('k manager, unit) action" where
  "startManager m =
     (case mg_script m of
        False # bs \<Rightarrow> (Inl (errorf ''stopped''), m\<lparr>mg_running := map_option (\<lambda>mo. (mo, mg_registered m)) (mg_options m)\<rparr>)
      | _ \<Rightarrow> (Inr (), m\<lparr>mg_running := map_option (\<lambda>mo. (mo, mg_registered m)) (mg_options m)\<rparr>))"

definition noReader :: Validator where
  "noReader = \<lparr>va_namespace = managedNamespaces, va_llm = (\<lambda>n. Inl (notFoundError ''models'' (snd n))),
     va_passthrough = (\<lambda>n. Inl (notFoundError ''models'' (snd n))), va_OperatorNamespace = []\<rparr>"

definition referenceManager :: "(cluster manager, cluster) runtime_library" where
  "referenceManager =
     \<lparr>rt_flags = [], rt_getConfig = None,
      rt_newManager = (\<lambda>mo. scripted (\<lambda>m. m\<lparr>mg_options := Some mo, mg_registered := []\<rparr>)),
      rt_client = clusterClients, rt_library = sampleLibrary, rt_tlsLibrary = treeLibrary, rt_reader = noReader,
      rt_controller = (\<lambda>c. register (Controller c)), rt_webhook = (\<lambda>w. register (Webhook w)),
      rt_add = (\<lambda>r. register (Runnable r)), rt_healthz = (\<lambda>n. register (Healthz n)),
      rt_readyz = (\<lambda>n. register (Readyz n)), rt_start = startManager\<rparr>"

interpretation reference: runtime referenceManager mg_registered mg_running mg_options
  by unfold_locales
    (auto simp: referenceManager_def register_def scripted_def startManager_def split: list.splits bool.splits)

section \<open>Properties\<close>

text \<open>C6: the operator runs completely or not at all. When main returns, either nothing was ever started
  (bad flags, an incomplete configuration, any registration that failed), or the manager was
  started with the options of the flags and exactly these parts, all with the configuration loaded
  from the environment: both controllers, the shared-TLS singleton, the webhooks of both kinds
  unless they are switched off, and both health checks; the webhooks hold models to the same
  namespace the controllers work in.\<close>

theorem operator_runs_complete_or_not_at_all:
  assumes "runtime lib registered running options" and "running s = None"
    and "operatorMain lib e args s = (code, t)"
  shows "running t = None \<and> (code = 1 \<or> parseFlags (registeredFlags @ rt_flags lib) args defaultFlags = Inl code) \<or>
    (\<exists>f cfg. parseFlags (registeredFlags @ rt_flags lib) args defaultFlags = Inr f \<and> LoadFromEnv e = Inr cfg \<and>
      code \<in> {0, 1} \<and> running t = Some (managerOptionsOf f,
        [Controller (SetupLLMController (newReconciler lib e cfg)),
         Controller (SetupPassthroughController (newReconciler lib e cfg)), Runnable (newSingleton lib cfg)] @
        (if getenv e ''ENABLE_WEBHOOKS'' \<noteq> ''false''
         then map (\<lambda>kind. Webhook \<lparr>wh_For = kind, wh_Validator = newValidator lib (cfg_OperatorNamespace cfg)\<rparr>)
           [''LLMModel'', ''PassthroughModel''] else []) @
        [Healthz ''healthz'', Readyz ''readyz'']))"
  by (rule runtime.main_starts [OF assms(1,3,2)])

definition deployedEnviron :: environ where
  "deployedEnviron = [(''LLM_BASE_DOMAIN'', ''example.org''), (''LLM_EXTERNAL_GATEWAY_NAME'', ''ext''),
     (''LLM_INTERNAL_GATEWAY_NAME'', ''int''), (''LLM_OIDC_ISSUER_URL'', ''https://kc''), (''POD_NAMESPACE'', ''llm'')]"

definition freshManager :: "cluster manager" where
  "freshManager = \<lparr>mg_options = None, mg_registered = [], mg_running = None, mg_script = []\<rparr>"

definition deployedRun :: "nat \<times> cluster manager" where
  "deployedRun = operatorMain referenceManager deployedEnviron [''--leader-elect'', ''-metrics-secure=false''] freshManager"

lemma deployedRun_started: "\<not> Option.is_none (mg_running (snd deployedRun))"
  by code_simp

lemma deployed_values:
  "case parseFlags registeredFlags [''--leader-elect'', ''-metrics-secure=false''] defaultFlags of
     Inl _ \<Rightarrow> False | Inr f \<Rightarrow> fl_enableLeaderElection f \<and> \<not> fl_secureMetrics f"
  "case LoadFromEnv deployedEnviron of Inl _ \<Rightarrow> False | Inr cfg \<Rightarrow> cfg_OperatorNamespace cfg = ''llm''"
  by code_simp+

theorem operator_runs_complete_or_not_at_all_witness:
  "\<exists>mo rs. mg_running (snd deployedRun) = Some (mo, rs) \<and> mo_LeaderElection mo \<and> length rs = 7 \<and>
     Webhook \<lparr>wh_For = ''LLMModel'', wh_Validator = newValidator referenceManager ''llm''\<rparr> \<in> set rs"
proof -
  have fresh: "mg_running freshManager = None" by (simp add: freshManager_def)
  have run: "operatorMain referenceManager deployedEnviron [''--leader-elect'', ''-metrics-secure=false'']
      freshManager = (fst deployedRun, snd deployedRun)" by (simp add: deployedRun_def)
  have flags: "registeredFlags @ rt_flags referenceManager = registeredFlags" by (simp add: referenceManager_def)
  have started: "mg_running (snd deployedRun) \<noteq> None" using deployedRun_started by (simp add: is_none_code(1) Option.is_none_def)
  from operator_runs_complete_or_not_at_all [OF reference.runtime_axioms fresh run, unfolded flags] started
  obtain f cfg where f: "parseFlags registeredFlags [''--leader-elect'', ''-metrics-secure=false''] defaultFlags = Inr f"
    and cfg: "LoadFromEnv deployedEnviron = Inr cfg"
    and t: "mg_running (snd deployedRun) = Some (managerOptionsOf f,
      [Controller (SetupLLMController (newReconciler referenceManager deployedEnviron cfg)),
       Controller (SetupPassthroughController (newReconciler referenceManager deployedEnviron cfg)),
       Runnable (newSingleton referenceManager cfg)] @
      (if getenv deployedEnviron ''ENABLE_WEBHOOKS'' \<noteq> ''false''
       then map (\<lambda>kind. Webhook \<lparr>wh_For = kind, wh_Validator = newValidator referenceManager (cfg_OperatorNamespace cfg)\<rparr>)
         [''LLMModel'', ''PassthroughModel''] else []) @ [Healthz ''healthz'', Readyz ''readyz''])"
    by blast
  have "fl_enableLeaderElection f" "cfg_OperatorNamespace cfg = ''llm''" using deployed_values f cfg by simp_all
  moreover have "getenv deployedEnviron ''ENABLE_WEBHOOKS'' = []" by (simp add: getenv_def deployedEnviron_def)
  ultimately show ?thesis by (simp add: t managerOptionsOf_def)
qed

text \<open>C27: what a running operator admits it can serve: in an operator that was started with its pod
  namespace known, a model either webhook lets through lives in the namespace in which the
  controllers and the shared-TLS singleton work.\<close>

theorem admitted_models_live_with_operator:
  assumes "runtime lib registered running options" and "running s = None"
    and "operatorMain lib e args s = (code, t)" and "running t = Some (mo, rs)" and "digest sha"
    and "Webhook \<lparr>wh_For = kind, wh_Validator = v\<rparr> \<in> set rs" and "getenv e ''POD_NAMESPACE'' \<noteq> []"
  shows "\<exists>cfg. LoadFromEnv e = Inr cfg \<and> Runnable (newSingleton lib cfg) \<in> set rs \<and>
    (\<forall>m w. ValidateCreateLLM sha v (ObjLLM m) = Inr w \<longrightarrow> lm_namespace m = cfg_OperatorNamespace cfg) \<and>
    (\<forall>p w. ValidateCreatePassthrough v (ObjPassthrough p) = Inr w \<longrightarrow> pm_namespace p = cfg_OperatorNamespace cfg)"
proof -
  from runtime.main_starts [OF assms(1,3,2)] assms(4) obtain cfg where cfg: "LoadFromEnv e = Inr cfg"
    and rs: "rs = [Controller (SetupLLMController (newReconciler lib e cfg)),
         Controller (SetupPassthroughController (newReconciler lib e cfg)), Runnable (newSingleton lib cfg)] @
        (if getenv e ''ENABLE_WEBHOOKS'' \<noteq> ''false''
         then map (\<lambda>kind. Webhook \<lparr>wh_For = kind, wh_Validator = newValidator lib (cfg_OperatorNamespace cfg)\<rparr>)
           [''LLMModel'', ''PassthroughModel''] else []) @ [Healthz ''healthz'', Readyz ''readyz'']"
    by auto
  have ns: "cfg_OperatorNamespace cfg \<noteq> []" using runtime.config_namespace [OF assms(1) cfg] assms(7) by simp
  from assms(6) rs have v: "va_OperatorNamespace v = cfg_OperatorNamespace cfg"
    by (auto simp: newValidator_def split: if_splits)
  have "lm_namespace m = cfg_OperatorNamespace cfg" if "ValidateCreateLLM sha v (ObjLLM m) = Inr w" for m w
    using validateLLM_accepts [OF assms(5), of v m] that v ns by (auto simp: ValidateCreateLLM_def)
  moreover have "pm_namespace p = cfg_OperatorNamespace cfg"
    if "ValidateCreatePassthrough v (ObjPassthrough p) = Inr w" for p w
    using validatePassthrough_accepts [of v p] that v ns
    by (auto simp: ValidateCreatePassthrough_def operatorNamespace_accepts)
  ultimately show ?thesis using cfg rs by auto
qed

lemma deployed_validator: "newValidator referenceManager ''llm'' = validatorAt managedNamespaces ''llm'' emptyApi"
  by (simp add: newValidator_def referenceManager_def noReader_def validatorAt_def emptyApi_def answer_def fun_eq_iff)

theorem admitted_models_live_with_operator_witness:
  "\<exists>cfg w. LoadFromEnv deployedEnviron = Inr cfg \<and>
     ValidateCreateLLM sha256 (newValidator referenceManager ''llm'') (ObjLLM (publicModel ''m'')) = Inr w \<and>
     lm_namespace (publicModel ''m'') = cfg_OperatorNamespace cfg"
proof -
  have fresh: "mg_running freshManager = None" by (simp add: freshManager_def)
  have run: "operatorMain referenceManager deployedEnviron [''--leader-elect'', ''-metrics-secure=false'']
      freshManager = (fst deployedRun, snd deployedRun)" by (simp add: deployedRun_def)
  have pod: "getenv deployedEnviron ''POD_NAMESPACE'' \<noteq> []" "getenv deployedEnviron ''ENABLE_WEBHOOKS'' = []"
    by (simp_all add: getenv_def deployedEnviron_def)
  have "mg_running (snd deployedRun) \<noteq> None" using deployedRun_started by (simp add: Option.is_none_def)
  with reference.main_starts [OF run fresh] pod(2) obtain mo rs cfg where cfg: "LoadFromEnv deployedEnviron = Inr cfg"
    and rs: "mg_running (snd deployedRun) = Some (mo, rs)"
    and wh: "Webhook \<lparr>wh_For = ''LLMModel'', wh_Validator = newValidator referenceManager (cfg_OperatorNamespace cfg)\<rparr> \<in> set rs"
    by auto
  have ns: "cfg_OperatorNamespace cfg = ''llm''" using deployed_values(2) cfg by simp
  from publicModel_admitted obtain w where
    w: "ValidateCreateLLM sha256 (newValidator referenceManager ''llm'') (ObjLLM (publicModel ''m'')) = Inr w"
    by (auto simp: deployed_validator split: sum.splits)
  from admitted_models_live_with_operator [OF reference.runtime_axioms fresh run rs sha.digest_axioms wh pod(1)] cfg w
  show ?thesis unfolding ns by auto
qed

end
