(* ===== verification/ModelLifecycle.thy ===== *)
theory ModelLifecycle
  imports LLMController Secrets
begin

text \<open>
  The life of an \<open>LLMModel\<close>: its Deployment follows the configuration, its routes and policies
  follow its readiness, and its keys go with it.
\<close>

section \<open>The Deployment follows the configuration\<close>

locale llm_workload = deployment_kind "rc_client r" viewD + controller_library "rc_library r"
  for r :: "'k Reconciler" and viewD +
  assumes serviceaccount_quiet: "unaffected viewD (kc_serviceaccount (rc_client r))"
    and service_quiet: "unaffected viewD (kc_service (rc_client r))"
    and tree_quiet: "unaffected viewD (kc_tree (rc_client r) kind)"
begin

lemma same_frame: "frame (same viewD)"
  by (auto intro!: frame.intro simp: same_def)

lemma helpers_keep:
  "keeps (same viewD) (createOrUpdateServiceAccount (rc_client r) sa)"
  "keeps (same viewD) (createOrUpdateService (rc_client r) svc)"
  "keeps (same viewD) (createOrUpdateUnstructured (rc_client r) (rc_library r) t)"
  unfolding createOrUpdateServiceAccount_def createOrUpdateService_def createOrUpdateUnstructured_def
  by (rule frame.keeps_createOrUpdate [OF same_frame];
      rule unaffectedD [OF serviceaccount_quiet] unaffectedD [OF service_quiet] unaffectedD [OF tree_quiet])+

lemma owned_keeps:
  assumes "applyOwned (rc_library r) model what metaOf setMeta ap obj s = (Inr u, s')"
    and "\<And>x. keeps (same viewD) (ap x)"
  shows "viewD s' = viewD s"
  using assms by (auto simp: applyOwned_def bindE_Inr wrapE_Inr liftE_eq dest: keeps_sameD)

lemma applyTree_keeps: "applyTree r model t s = (q, s') \<Longrightarrow> viewD s' = viewD s"
  by (rule keeps_sameD [OF frame.keeps_ignore [OF same_frame helpers_keep(3)]]) (simp add: applyTree_def)

text \<open>Of a whole step, only the part that deals with the Deployment matters for it.\<close>

lemma step_deployment:
  assumes res: "BuildModelServiceResources model storage cfg = Inr res"
    and run: "reconcileModelServiceResources r model res s = (Inr u, s')"
  shows "\<exists>dep go t t'. applyDeployment (rc_client r) (modelConfigHash (rc_library r) model) dep t = (Inr go, t') \<and>
    viewD t = viewD s \<and> viewD s' = viewD t' \<and> metaKey (dep_meta dep) = (lm_namespace model, lm_name model) \<and>
    alive (dep_meta dep) \<and> dep_spec dep = dep_spec (ms_Deployment res) \<and>
    storedHash dep = modelConfigHash (rc_library r) model"
proof -
  let ?L = "rc_library r" and ?K = "rc_client r" and ?h = "modelConfigHash (rc_library r) model"
  let ?m0 = "inModelNamespace model (dep_meta (ms_Deployment res))"
  from run obtain v1 v2 m go t1 t2 t3 where
    1: "applyOwned ?L model ''ServiceAccount'' sac_meta sac_meta_update
        (createOrUpdateServiceAccount ?K) (ms_ServiceAccount res) s = (Inr v1, t1)" and
    2: "applyOwned ?L model ''Service'' svc_meta svc_meta_update
        (createOrUpdateService ?K) (ms_Service res) t1 = (Inr v2, t2)" and
    m: "Inr m = lib_setOwner ?L ''LLMModel'' (lm_meta model) ?m0" and
    3: "applyDeployment ?K ?h ((ms_Deployment res)\<lparr>dep_meta := annotateHash ?h m\<rparr>) t2 = (Inr go, t3)" and
    rest: "(if \<not> go then returnE () else case ms_PodMonitor res of None \<Rightarrow> returnE ()
        | Some t \<Rightarrow> applyTree r model t) t3 = (Inr u, s')"
    unfolding reconcileModelServiceResources_def Let_def
    by (auto simp: bindE_Inr wrapE_Inr liftE_eq SetOwnerReference_def)
  have v: "viewD t2 = viewD s"
    using owned_keeps [OF 1 helpers_keep(1)] owned_keeps [OF 2 helpers_keep(2)] by simp
  have w: "viewD s' = viewD t3"
    using rest by (auto simp: returnE_eq dest: applyTree_keeps split: if_splits option.splits)
  have meta: "dep_meta (ms_Deployment res) = newMeta (lm_name model) [] (StandardLabels model)"
    using res by (auto simp: BuildModelServiceResources_def buildDeployment_def Let_def)
  have key: "metaKey (annotateHash ?h m) = (lm_namespace model, lm_name model)" "alive (annotateHash ?h m)"
    using set_ownerD(1,2) [OF m [symmetric]] meta
    by (simp_all add: annotateHash_def inModelNamespace_def metaKey_def alive_def newMeta_def)
  show ?thesis
    by (rule exI [of _ "(ms_Deployment res)\<lparr>dep_meta := annotateHash ?h m\<rparr>"],
        rule exI [of _ go], rule exI [of _ t2], rule exI [of _ t3])
      (use 3 v w key in \<open>simp add: storedHash_def annotateHash_def\<close>)
qed

text \<open>One step, and two in a row.\<close>

lemma one_step:
  assumes "BuildModelServiceResources model storage cfg = Inr res"
    and "reconcileModelServiceResources r model res s = (Inr u, s')"
    and n: "n = (lm_namespace model, lm_name model)" and h: "h = modelConfigHash (rc_library r) model"
  shows "case viewD s n of
      Some d \<Rightarrow> if storedHash d \<noteq> [] \<and> storedHash d \<noteq> h then gone dep_meta (viewD s) n (viewD s')
        else (\<exists>y. viewD s' = (viewD s)(n \<mapsto> y) \<and> dep_spec y = dep_spec (ms_Deployment res) \<and> storedHash y = h)
    | None \<Rightarrow> \<exists>y. viewD s' = (viewD s)(n \<mapsto> y) \<and> dep_spec y = dep_spec (ms_Deployment res) \<and> storedHash y = h"
proof -
  obtain dep go t t' where *: "applyDeployment (rc_client r) h dep t = (Inr go, t')" "viewD t = viewD s"
    "viewD s' = viewD t'" "metaKey (dep_meta dep) = n" "alive (dep_meta dep)"
    "dep_spec dep = dep_spec (ms_Deployment res)" "storedHash dep = h"
    using step_deployment [OF assms(1,2)] unfolding n h by blast
  show ?thesis
    using applyDeployment_effect [OF *(1,5) *(4) [symmetric]] *(2,3,6,7)
    by (auto split: option.splits if_splits)
qed

lemma two_steps:
  assumes "BuildModelServiceResources model storage cfg = Inr res"
    and "reconcileModelServiceResources r model res s = (Inr u, s1)"
    and "reconcileModelServiceResources r model res t1 = (Inr u', t2)" and "viewD t1 = viewD s1"
    and n: "n = (lm_namespace model, lm_name model)"
    and free: "\<And>d. viewD s n = Some d \<Longrightarrow> om_finalizers (dep_meta d) = []"
  shows "\<exists>y. viewD t2 n = Some y \<and> dep_spec y = dep_spec (ms_Deployment res) \<and>
    storedHash y = modelConfigHash (rc_library r) model"
  using one_step [OF assms(1,2) n refl] one_step [OF assms(1,3) n refl] free unfolding assms(4)
  by (auto simp: gone_def split: option.splits if_splits)

end

interpretation workload: llm_workload "clusterReconciler cfg" deploymentsAt for cfg
proof (intro llm_workload.intro llm_workload_axioms.intro; unfold clusterReconciler_simps)
  show "deployment_kind clusterClients deploymentsAt" by (rule served.deployment_kind_axioms)
  show "controller_library sampleLibrary" by (rule sample_lib.controller_library_axioms)
qed (unfold clusterClients_simps, (rule unaffected_rules; simp add: at_defs tick_def fun_eq_iff)+)

section \<open>Sample clusters\<close>

definition servedModel :: LLMModel where
  "servedModel = (sampleModel ''m'' ''llm'' (groupAccess [''ml'']))
     \<lparr>lm_meta := (newMeta ''m'' ''llm'' [])\<lparr>om_finalizers := [finalizerName]\<rparr>\<rparr>"

definition podSpec :: PodSpec where
  "podSpec = \<lparr>pod_serviceAccount = [], pod_initContainers = [], pod_containers = [], pod_volumes = [],
     pod_tolerations = [], pod_nodeSelector = [], pod_affinity = None, pod_fsGroup = None\<rparr>"

definition deploymentFor :: "string \<Rightarrow> Deployment" where
  "deploymentFor hash = \<lparr>dep_meta = (newMeta ''m'' ''llm'' [])\<lparr>om_annotations := [(modelConfigHashAnno, hash)]\<rparr>,
     dep_spec = \<lparr>dps_replicas = Some 1, dps_strategy = [], dps_selector = [], dps_labels = [], dps_pod = podSpec\<rparr>,
     dep_readyReplicas = 1\<rparr>"

definition servedCluster :: "string \<Rightarrow> cluster" where
  "servedCluster hash = emptyCluster\<lparr>cl_llmmodels := [((''llm'', ''m''), servedModel)],
     cl_deployments := [((''llm'', ''m''), deploymentFor hash)]\<rparr>"

text \<open>A server on which every call for a SecurityPolicy times out.\<close>

definition timedOut :: gerror where
  "timedOut = errorf ''etcdserver: request timed out''"

definition timingOut :: "('k, 'o) typed_client" where
  "timingOut = \<lparr>tc_get = (\<lambda>n. throwE timedOut), tc_list = (\<lambda>ns sel. throwE timedOut),
     tc_create = (\<lambda>x. throwE timedOut), tc_update = (\<lambda>x. throwE timedOut),
     tc_status_update = (\<lambda>x. throwE timedOut), tc_delete = (\<lambda>n. throwE timedOut)\<rparr>"

definition policiesDown :: "cluster Reconciler" where
  "policiesDown = (clusterReconciler sampleConfig)\<lparr>rc_client := clusterClients\<lparr>kc_tree :=
     (\<lambda>kind. if kind = ''SecurityPolicy'' then timingOut else treeClient kind)\<rparr>\<rparr>"

text \<open>A model that is being deleted, with one issued key.\<close>

definition releasedModel :: LLMModel where
  "releasedModel = servedModel\<lparr>lm_meta := (lm_meta servedModel)\<lparr>om_deleting := True\<rparr>\<rparr>"

definition releasedCluster :: "fault list \<Rightarrow> cluster" where
  "releasedCluster script = (sampleCluster script [(''user-a'', ''sk-1'')] [(''user-a'', ''{}'')])
     \<lparr>cl_llmmodels := [((''llm'', ''m''), releasedModel)]\<rparr>"

section \<open>A Secret that cannot be read\<close>

context llm_cluster
begin

text \<open>
  The deletion of a model whose Secret cannot be read: when the calls after the failed read succeed,
  so does the pass.
\<close>

lemma read_model: "tc_get (kc_llmmodel (rc_client r)) req s = (Inr m, t) \<Longrightarrow> viewL s req = Some m"
  using N.get_ok by blast

lemma unread_secret_passes:
  assumes model: "tc_get (kc_llmmodel (rc_client r)) req s = (Inr m, t)"
    and del: "om_deleting (lm_meta m)" and has: "finalizerName \<in> set (om_finalizers (lm_meta m))"
    and secret: "tc_get (kc_secret (rc_client r)) (fst req, APIKeySecretName (snd req)) t = (Inl e, t1)"
    and cm: "deleteIfPresent (kc_configmap (rc_client r)) (fst req, APIKeyMetadataConfigMapName (snd req)) t1 = (Inr u, t2)"
    and put: "tc_update (kc_llmmodel (rc_client r))
      (m\<lparr>lm_meta := lib_removeFinalizer (rc_library r) (lm_meta m) finalizerName\<rparr>)
      (snd (deleteLegacyGrant r m t2)) = (Inr y, s')"
  shows "ReconcileLLM r req s = (Inr None, s') \<and> viewS s' = viewS s"
proof -
  have key: "lm_namespace m = fst req" "lm_name m = snd req"
    using N.view_key [of s req m] N.get_ok [OF model] by (auto simp: metaKey_def lm_namespace_def lm_name_def)
  obtain v t3 where grant: "deleteLegacyGrant r m t2 = (Inr v, t3)"
    by (cases "deleteLegacyGrant r m t2")
      (auto simp: deleteLegacyGrant_def Let_def ignoreE_eq returnE_eq split: if_splits)
  note put = put [unfolded grant snd_conv]
  have "deleteKeyObjects (rc_client r) (fst req) (snd req) t = (Inr u, t2)"
    using secret cm by (simp add: deleteKeyObjects_def deleteIfPresent_def [of "kc_secret (rc_client r)"] bindE_def wrapE_def)
  then have "reconcileDeleteLLM r m t = (Inr None, s')"
    using has grant put by (simp add: reconcileDeleteLLM_def has_finalizer key bindE_def wrapE_def returnE_def)
  then have "ReconcileLLM r req s = (Inr None, s')"
    using model del by (simp add: ReconcileLLM_def Let_def)
  moreover have "viewS t = viewS s" using quietD(1) [OF quiet_llmmodel model] by auto
  moreover have "viewS t1 = viewS t" using S.get_view [OF secret] by simp
  moreover have "keeps (same viewS) (deleteIfPresent (kc_configmap (rc_client r)) n)" for n
    by (rule frame.keeps_deleteIfPresent) (auto intro!: frame.intro simp: same_def
        intro: clientKeepsD [OF iffD1 [OF unaffected_def configmap_quiet]])
  then have "viewS t2 = viewS t1" using cm by (auto dest: keeps_sameD)
  moreover have "viewS t3 = viewS t2" using legacy_grant_effect [OF grant] by simp
  moreover have "viewS s' = viewS t3" using quietD(4) [OF quiet_llmmodel put] by auto
  ultimately show ?thesis by simp
qed

end

text \<open>The external policy of a model admits exactly the client IDs it was built from.\<close>

lemma external_policy_admits:
  assumes "envoy_gateway allows" and "BuildAuthResources A cfg ids pool = Inr ar"
    and "ar_ExternalSecurityPolicy ar = Some p" and "map_of (gr_headers rq) apiKeyClientIDHeader = Some c"
  shows "allows (authorizationOf p) rq \<longleftrightarrow> c \<in> set ids"
proof -
  from assms(2,3) have "p = buildExternalSecurityPolicy A ids pool"
    by (auto simp: BuildAuthResources_def Let_def split: if_splits)
  with assms(4) show ?thesis
    by (simp add: buildExternalSecurityPolicy_def envoy_gateway.external_allows_iff [OF assms(1)])
qed

section \<open>Properties\<close>

text \<open>C9: the Deployment of a model follows its configuration within two passes of the step that deals
  with it, whatever was stored before. One made for the same configuration, or for none, is
  updated in place, also when the two configurations only agree in the fields the hash covers;
  one made for another configuration is deleted by the first pass and made anew by the second.
  No other Deployment is touched. Both passes are taken to end without an error, with nobody else
  writing the Deployment in between, and the stored Deployment to carry no finalizer.\<close>

theorem workload_follows_configuration:
  assumes "llm_workload r viewD" and "BuildModelServiceResources model storage cfg = Inr res"
    and "reconcileModelServiceResources r model res s = (Inr u, s1)"
    and "reconcileModelServiceResources r model res t1 = (Inr u', t2)" and "viewD t1 = viewD s1"
    and "n = (lm_namespace model, lm_name model)" and "h = modelConfigHash (rc_library r) model"
    and "\<And>d. viewD s n = Some d \<Longrightarrow> om_finalizers (dep_meta d) = []"
  shows "(\<exists>y. viewD t2 n = Some y \<and> dep_spec y = dep_spec (ms_Deployment res) \<and> storedHash y = h) \<and>
    (viewD s1 n = None \<or>
      (\<exists>y. viewD s1 n = Some y \<and> dep_spec y = dep_spec (ms_Deployment res) \<and> storedHash y = h)) \<and>
    (viewD s1 n = None \<longleftrightarrow> (\<exists>d. viewD s n = Some d \<and> storedHash d \<noteq> [] \<and> storedHash d \<noteq> h)) \<and>
    (\<forall>d old. viewD s n = Some d \<and> storedHash d = modelConfigHash (rc_library r) old \<and>
       configFields old = configFields model \<longrightarrow> viewD s1 n \<noteq> None) \<and>
    (\<forall>k. k \<noteq> n \<longrightarrow> viewD t2 k = viewD s k)"
proof -
  note one = llm_workload.one_step [OF assms(1-3,6,7)]
  have two: "\<exists>y. viewD t2 n = Some y \<and> dep_spec y = dep_spec (ms_Deployment res) \<and> storedHash y = h"
    using llm_workload.two_steps [OF assms(1-6)] assms(7,8) by blast
  have other: "viewD s' k = viewD s k"
    if "reconcileModelServiceResources r model res s = (Inr v, s')" and "k \<noteq> n" for s s' v k
    using llm_workload.one_step [OF assms(1,2) that(1) assms(6,7)] that(2)
    by (auto simp: gone_def split: option.splits if_splits simp del: split_paired_All)
  have "\<forall>d old. viewD s n = Some d \<and> storedHash d = modelConfigHash (rc_library r) old \<and>
      configFields old = configFields model \<longrightarrow> viewD s1 n \<noteq> None"
    using one assms(7) by (auto simp: modelConfigHash_fields split: if_splits)
  moreover have "viewD s1 n = None \<or>
      (\<exists>y. viewD s1 n = Some y \<and> dep_spec y = dep_spec (ms_Deployment res) \<and> storedHash y = h)"
    and "viewD s1 n = None \<longleftrightarrow> (\<exists>d. viewD s n = Some d \<and> storedHash d \<noteq> [] \<and> storedHash d \<noteq> h)"
    using one assms(8) by (auto simp: gone_def split: option.splits if_splits)
  moreover have "\<forall>k. k \<noteq> n \<longrightarrow> viewD t2 k = viewD s k"
    using other [OF assms(3)] other [OF assms(4)] assms(5) by auto
  ultimately show ?thesis using two by blast
qed

definition servedStorage :: StorageResult where
  "servedStorage = \<lparr>str_PVC = None, str_InitContainer = None, str_Volumes = [], str_VolumeMounts = [],
     str_ModelPath = []\<rparr>"

lemma twoPasses_value:
  "case BuildModelServiceResources servedModel servedStorage sampleConfig of
     Inl e \<Rightarrow> False
   | Inr res \<Rightarrow>
       (case reconcileModelServiceResources (clusterReconciler sampleConfig) servedModel res (servedCluster ''00'') of
          (q1, s1) \<Rightarrow> (case reconcileModelServiceResources (clusterReconciler sampleConfig) servedModel res s1 of
             (q2, s2) \<Rightarrow> q1 = Inr () \<and> q2 = Inr ()))"
  by code_simp

lemma servedCluster_deployment:
  "deploymentsAt (servedCluster h) (''llm'', ''m'') = Some (deploymentFor h)"
  "om_finalizers (dep_meta (deploymentFor h)) = []" "storedHash (deploymentFor h) = h"
  by (simp_all add: deploymentsAt_def servedCluster_def deploymentFor_def newMeta_def visible_def metaKey_def
      alive_def storedHash_def emptyCluster_def)

lemma servedHash_value: "modelConfigHash sampleLibrary servedModel = ''6d68756767696e67''"
  by code_simp

theorem workload_follows_configuration_witness:
  "\<exists>res s1 s2 y. BuildModelServiceResources servedModel servedStorage sampleConfig = Inr res \<and>
     reconcileModelServiceResources (clusterReconciler sampleConfig) servedModel res (servedCluster ''00'') = (Inr (), s1) \<and>
     reconcileModelServiceResources (clusterReconciler sampleConfig) servedModel res s1 = (Inr (), s2) \<and>
     deploymentsAt s1 (''llm'', ''m'') = None \<and> deploymentsAt s2 (''llm'', ''m'') = Some y \<and>
     dep_spec y = dep_spec (ms_Deployment res) \<and> storedHash y = ''6d68756767696e67''"
proof -
  let ?r = "clusterReconciler sampleConfig"
  from twoPasses_value obtain res s1 s2 where
    res: "BuildModelServiceResources servedModel servedStorage sampleConfig = Inr res" and
    1: "reconcileModelServiceResources ?r servedModel res (servedCluster ''00'') = (Inr (), s1)" and
    2: "reconcileModelServiceResources ?r servedModel res s1 = (Inr (), s2)"
    by (auto split: sum.splits prod.splits)
  have n: "(''llm'', ''m'') = (lm_namespace servedModel, lm_name servedModel)"
    by (simp add: servedModel_def sampleModel_def lm_namespace_def lm_name_def newMeta_def)
  have h: "''6d68756767696e67'' = modelConfigHash (rc_library ?r) servedModel"
    using servedHash_value by simp
  show ?thesis
    using workload_follows_configuration [OF workload.llm_workload_axioms res 1 2 refl n h] res 1 2
      servedCluster_deployment [of "''00''"] by auto
qed

text \<open>C8: a pass over a model that is being deleted touches the Secret and the ConfigMap of this model only.
  When it ends without an error, its finalizer is off, or the model gone if it was the last one,
  and both objects are gone, or marked when something else holds a finalizer on them. The one
  exception: an object that could not be read is left in place.\<close>

theorem deleted_model_releases_keys:
  assumes "llm_cluster r viewS viewM viewL" and "ReconcileLLM r req s = (Inr x, s')"
    and "viewL s req = Some m" and "om_deleting (lm_meta m)" and "finalizerName \<in> set (om_finalizers (lm_meta m))"
    and "t = snd (tc_get (kc_llmmodel (rc_client r)) req s)"
    and "sn = (fst req, APIKeySecretName (snd req))" and "mn = (fst req, APIKeyMetadataConfigMapName (snd req))"
  shows "keysKept viewS viewM {sn, mn} s s' \<and>
    (gone sec_meta (viewS s) sn (viewS s') \<or> (viewS s' = viewS s \<and> unreadable (kc_secret (rc_client r)) sn t)) \<and>
    (gone cm_meta (viewM s) mn (viewM s') \<or> (viewM s' = viewM s \<and>
      unreadable (kc_configmap (rc_client r)) mn (snd (deleteIfPresent (kc_secret (rc_client r)) sn t)))) \<and>
    (case viewL s' req of None \<Rightarrow> set (om_finalizers (lm_meta m)) = {finalizerName}
     | Some y \<Rightarrow> set (om_finalizers (lm_meta y)) = set (om_finalizers (lm_meta m)) - {finalizerName})"
  using llm_cluster.pass_releases [OF assms(1-6)] llm_cluster.reconcile_keeps [OF assms(1,2)] assms(3,4,7,8)
  by (simp add: keyObjects_def)

lemma releasedRun_value:
  "case ReconcileLLM (clusterReconciler sampleConfig) (''llm'', ''m'') (releasedCluster []) of
     (q, s') \<Rightarrow> q = Inr None"
  "\<not> unreadable secretClient (''llm'', ''m-api-keys'') (snd (tc_get llmmodelClient (''llm'', ''m'') (releasedCluster [])))"
  by code_simp+

lemma releasedCluster_model:
  "llmmodelsAt (releasedCluster script) (''llm'', ''m'') = Some releasedModel"
  "om_deleting (lm_meta releasedModel)" "finalizerName \<in> set (om_finalizers (lm_meta releasedModel))"
  "secretsAt (releasedCluster script) (''llm'', ''m-api-keys'') = Some (sampleSecret [(''user-a'', ''sk-1'')])"
  "om_finalizers (sec_meta (sampleSecret d)) = []"
  by (simp_all add: llmmodelsAt_def secretsAt_def releasedCluster_def releasedModel_def servedModel_def
      sampleModel_def newMeta_def visible_def metaKey_def alive_def finalizerName_def sampleCluster_def
      sampleSecret_def emptyCluster_def)

theorem deleted_model_releases_keys_witness:
  "secretsAt (snd (ReconcileLLM (clusterReconciler sampleConfig) (''llm'', ''m'') (releasedCluster [])))
     (''llm'', ''m-api-keys'') = None"
proof -
  let ?r = "clusterReconciler sampleConfig" and ?s = "releasedCluster []"
  obtain s' where run: "ReconcileLLM ?r (''llm'', ''m'') ?s = (Inr None, s')"
    using releasedRun_value(1) by (cases "ReconcileLLM ?r (''llm'', ''m'') ?s") auto
  have "gone sec_meta (secretsAt ?s) (''llm'', ''m-api-keys'') (secretsAt s')"
    using deleted_model_releases_keys [OF llmc.llm_cluster_axioms run releasedCluster_model(1-3) refl refl refl]
      releasedRun_value(2) by (simp add: APIKeySecretName_def APIKeySecretSuffix_def)
  then show ?thesis using run releasedCluster_model(4,5) by (simp add: gone_def)
qed

text \<open>C35: a failed read of the Secret while its model is being deleted, whatever the error, is not an
  error of the pass: when the other calls succeed, so does the pass, the finalizer is off, or the
  model gone if it was the last one, and every Secret is there with all its keys as before. The
  external policy built from it for a next model of that name admits every
  client ID of the old one.\<close>

theorem failed_read_orphans_keys:
  assumes "llm_cluster r viewS viewM viewL" and "envoy_gateway allows"
    and "tc_get (kc_llmmodel (rc_client r)) req s = (Inr m, t)" and "om_deleting (lm_meta m)"
    and "finalizerName \<in> set (om_finalizers (lm_meta m))" and "sn = (fst req, APIKeySecretName (snd req))"
    and "tc_get (kc_secret (rc_client r)) sn t = (Inl e, t1)"
    and "deleteIfPresent (kc_configmap (rc_client r)) (fst req, APIKeyMetadataConfigMapName (snd req)) t1 = (Inr u, t2)"
    and "tc_update (kc_llmmodel (rc_client r))
      (m\<lparr>lm_meta := lib_removeFinalizer (rc_library r) (lm_meta m) finalizerName\<rparr>)
      (snd (deleteLegacyGrant r m t2)) = (Inr y, s')"
    and "BuildAuthResources A cfg (ClientIDsFromSecret (viewS s' sn)) pool = Inr ar"
    and "ar_ExternalSecurityPolicy ar = Some p"
    and "map_of (gr_headers rq) apiKeyClientIDHeader = Some c"
  shows "ReconcileLLM r req s = (Inr None, s') \<and> viewS s' = viewS s \<and>
    (case viewL s' req of None \<Rightarrow> set (om_finalizers (lm_meta m)) = {finalizerName}
     | Some z \<Rightarrow> finalizerName \<notin> set (om_finalizers (lm_meta z))) \<and>
    (allows (authorizationOf p) rq \<longleftrightarrow> (\<exists>x. viewS s sn = Some x \<and> c \<in> dom (map_of (sec_data x))))"
proof -
  note pass = llm_cluster.unread_secret_passes [OF assms(1,3-5) assms(7) [unfolded assms(6)] assms(8,9)]
  have m: "viewL s req = Some m"
    by (rule llm_cluster.read_model [OF assms(1,3)])
  have "case viewL s' req of None \<Rightarrow> set (om_finalizers (lm_meta m)) = {finalizerName}
     | Some z \<Rightarrow> finalizerName \<notin> set (om_finalizers (lm_meta z))"
    using llm_cluster.pass_releases [OF assms(1) _ m assms(4,5), of None s' t] pass assms(3)
    by (auto split: option.splits)
  moreover have "allows (authorizationOf p) rq \<longleftrightarrow> c \<in> set (ClientIDsFromSecret (viewS s sn))"
    using external_policy_admits [OF assms(2,10-12)] pass by simp
  ultimately show ?thesis using pass
    by (cases "viewS s sn") (auto simp: ClientIDsFromSecret_def dom_map_of_conv_image_fst)
qed

definition orphanStart :: cluster where
  "orphanStart = releasedCluster [Healthy, Refuse ''etcdserver: request timed out'']"

definition orphanRead :: cluster where
  "orphanRead = snd (tc_get secretClient (''llm'', ''m-api-keys'') (snd (tc_get llmmodelClient (''llm'', ''m'') orphanStart)))"

definition orphanPut :: "(gerror + LLMModel) \<times> cluster" where
  "orphanPut = tc_update llmmodelClient
     (releasedModel\<lparr>lm_meta := lib_removeFinalizer sampleLibrary (lm_meta releasedModel) finalizerName\<rparr>)
     (snd (deleteLegacyGrant (clusterReconciler sampleConfig) releasedModel
       (snd (deleteIfPresent configmapClient (''llm'', ''m-api-key-metadata'') orphanRead))))"

lemma orphan_values:
  "\<not> isl (fst (tc_get llmmodelClient (''llm'', ''m'') orphanStart))"
  "isl (fst (tc_get secretClient (''llm'', ''m-api-keys'') (snd (tc_get llmmodelClient (''llm'', ''m'') orphanStart))))"
  "fst (deleteIfPresent configmapClient (''llm'', ''m-api-key-metadata'') orphanRead) = Inr ()"
  "\<not> isl (fst orphanPut)"
  by code_simp+

definition userRequest :: gateway_request where
  "userRequest = \<lparr>gr_headers = [(apiKeyClientIDHeader, ''user-a'')], gr_claims = []\<rparr>"

theorem failed_read_orphans_keys_witness:
  "\<exists>s' ar p. ReconcileLLM (clusterReconciler sampleConfig) (''llm'', ''m'') orphanStart = (Inr None, s') \<and>
     BuildAuthResources servedModel sampleConfig
       (ClientIDsFromSecret (secretsAt s' (''llm'', ''m-api-keys''))) [''m-api-keys''] = Inr ar \<and>
     ar_ExternalSecurityPolicy ar = Some p \<and> evalAuthorization (authorizationOf p) userRequest"
proof -
  let ?r = "clusterReconciler sampleConfig" and ?req = "(''llm'', ''m'')"
  obtain m t where g: "tc_get (kc_llmmodel (rc_client ?r)) ?req orphanStart = (Inr m, t)"
    using orphan_values(1)
    by (cases "tc_get llmmodelClient ?req orphanStart"; cases "fst (tc_get llmmodelClient ?req orphanStart)") auto
  from llm_cluster.read_model [OF llmc.llm_cluster_axioms g]
  have m: "m = releasedModel" using releasedCluster_model(1) by (simp add: orphanStart_def)
  obtain e where sec: "tc_get (kc_secret (rc_client ?r)) (''llm'', ''m-api-keys'') t = (Inl e, orphanRead)"
    using orphan_values(2) g by (auto simp: orphanRead_def isl_def) (metis prod.collapse)
  obtain t2 where cm: "deleteIfPresent (kc_configmap (rc_client ?r)) (fst ?req, APIKeyMetadataConfigMapName (snd ?req)) orphanRead = (Inr (), t2)"
    using orphan_values(3) by (simp add: APIKeyMetadataConfigMapName_def) (metis prod.collapse)
  obtain y s' where put: "tc_update (kc_llmmodel (rc_client ?r))
      (m\<lparr>lm_meta := lib_removeFinalizer (rc_library ?r) (lm_meta m) finalizerName\<rparr>)
      (snd (deleteLegacyGrant ?r m t2)) = (Inr y, s')"
    using orphan_values(4) cm
    by (cases orphanPut; cases "fst orphanPut") (auto simp: orphanPut_def m APIKeyMetadataConfigMapName_def)
  obtain ar p where ar: "BuildAuthResources servedModel sampleConfig
      (ClientIDsFromSecret (secretsAt s' (''llm'', ''m-api-keys''))) [''m-api-keys''] = Inr ar"
      "ar_ExternalSecurityPolicy ar = Some p"
    by (auto simp: BuildAuthResources_def Let_def servedModel_def sampleModel_def)
  have sn: "(''llm'', ''m-api-keys'') = (fst ?req, APIKeySecretName (snd ?req))"
    by (simp add: APIKeySecretName_def APIKeySecretSuffix_def)
  have c: "map_of (gr_headers userRequest) apiKeyClientIDHeader = Some ''user-a''" by (simp add: userRequest_def)
  have old: "om_deleting (lm_meta m)" "finalizerName \<in> set (om_finalizers (lm_meta m))"
    using releasedCluster_model(2,3) by (simp_all add: m)
  note claim = failed_read_orphans_keys [where viewS = secretsAt and viewM = configmapsAt and viewL = llmmodelsAt
      and allows = evalAuthorization and req = ?req and sn = "(''llm'', ''m-api-keys'')" and s' = s', OF llmc.llm_cluster_axioms envoy.envoy_gateway_axioms g old sn sec cm put ar c]
  have "secretsAt orphanStart (''llm'', ''m-api-keys'') = Some (sampleSecret [(''user-a'', ''sk-1'')])"
    by (simp add: releasedCluster_model(4) orphanStart_def)
  then have "evalAuthorization (authorizationOf p) userRequest" using claim by (simp add: sampleSecret_def)
  with claim ar show ?thesis by blast
qed

text \<open>C34: the step that writes the policies of a served model never fails, so a pass can create the
  external route of a model that is not public while no policy guards it, and still end without an
  error, ask for no other pass and report the model as ready.\<close>

theorem unguarded_route_reported_ready:
  "fst (reconcileSecurityPolicies r auth s) = Inr () \<and>
   (case ReconcileLLM policiesDown (''llm'', ''m'') (servedCluster []) of
      (q, s') \<Rightarrow> q = Inr None \<and> treesAt s' ''AIGatewayRoute'' (''llm'', ''m-external'') \<noteq> None \<and>
        treesAt s' ''SecurityPolicy'' (''llm'', ''m-external-auth'') = None \<and>
        map_option (lst_phase \<circ> lm_status) (llmmodelsAt s' (''llm'', ''m'')) = Some PhaseReady)"
proof
  show "fst (reconcileSecurityPolicies r auth s) = Inr ()"
    by (simp add: reconcileSecurityPolicies_def Let_def whenSome_def bindE_def ignoreE_def returnE_def
        split: option.splits prod.splits)
qed code_simp

end
