(* ===== verification/Spec2Isabelle.thy ===== *)
theory Spec2Isabelle
  imports KeyManagerProcess OperatorMain ModelLifecycle
begin

text \<open>
  A model of the LLM serving pack: the key-manager (\<open>src/key-manager\<close>), which mints, lists and
  revokes the API keys of a user, and the operator (\<open>src/operator\<close>), which turns the custom
  resources \<open>LLMModel\<close> and \<open>PassthroughModel\<close> into workloads, routes and security policies.

  The two meet in the cluster only. The key-manager writes a key into the Secret
  \<open><model>-api-keys\<close>, under a client ID, and its metadata into the ConfigMap
  \<open><model>-api-key-metadata\<close>. The operator creates both objects empty, reads the client IDs of the
  Secret back and renders them into the allow-list of the model's external SecurityPolicy; the
  internal policy admits tokens by the groups of the model. Envoy Gateway enforces the policies.

  \<^bold>\<open>Conventions.\<close> A Go string is a list of bytes, a Go map an association list with distinct keys,
  a pointer an option, an error a value of \<open>gerror\<close>. A call that may fail and may change the world
  is an \<open>action\<close>: a function from the state to an error or a value, and the state after it, also
  when it failed. Log lines are left out. Code that is not in the repository is an argument of the
  definitions: the Kubernetes client, controller-runtime and apimachinery, golang-jwt, the JSON and
  YAML codecs, Envoy Gateway, the random source and the clock. What the code relies on of them is
  the \<open>assumes\<close> of a locale, and every locale is interpreted: the API on the reference server of the
  theory Cluster (objects by kind, resource versions, and a script of refused, stale and lost
  calls), the others on concrete functions beside their locale.

  \<^bold>\<open>Shared theories.\<close>
  \<^item> Prelude: strings and numbers (\<open>strings\<close>, \<open>strconv\<close>, \<open>fmt\<close>), errors, actions and their rules,
    frames (\<open>keeps R f\<close>: what a call does to the state however it ends).
  \<^item> Digest: SHA-256 and unpadded base64; locale \<open>digest\<close>.
  \<^item> Json: decoded JSON and \<open>unstructured\<close> trees, the verb \<open>%v\<close>.
  \<^item> Kube: metadata, Secrets, ConfigMaps, the typed client; locales \<open>kube_kind\<close> (reads and writes of
    a kind), \<open>kube_deletes\<close> (deletion and finalizers), \<open>kube_two\<close> (two kinds do not interfere).
  \<^item> ApiTypes: \<open>operator/api/v1alpha1/*_types.go\<close> and the configuration record. Workloads: the typed
    objects of \<open>k8s.io/api\<close> the operator builds. Cluster: the reference server.

  \<^bold>\<open>The key-manager.\<close>
  \<^item> Secrets: \<open>internal/secrets/manager.go\<close>. Client IDs (sanitising, hashing, the probe for a free
    number, which ends within the number of stored entries), minting, listing and revoking with
    their two-object writes and three attempts. The locale \<open>key_stores\<close> gives the effect of every
    attempt on the two stores under any failure; the properties are preservation of all stored
    keys, freshness, exact revocation, and the states a partial failure leaves behind.
  \<^item> Watcher: \<open>internal/models/watcher.go\<close>, the cache of models and its access filter; locale
    \<open>model_lists\<close>.
  \<^item> Middleware, Handler: \<open>internal/api/middleware.go\<close> and \<open>handler.go\<close>; locale \<open>key_manager\<close>.
    Authentication, authorisation of minting, ownership of deletion.
  \<^item> Jwt: \<open>internal/api/jwt_validator.go\<close>, its start-up loop (five active attempts, then a slow poll
    that may run for ever, hence a \<open>partial_function\<close>, with the proof that it returns at the first
    success), the refresh of keys and its cooldown, stated on a log of the requests sent
    (\<open>recorded\<close>), the checks of a token; locale \<open>jwt_library\<close>.
    The goroutine ends once it is stopped: \<open>stopsWithin\<close> measures how many waits are left, and \<open>Stop\<close>
    is a step relation over concurrent calls with an invariant that counts their steps.
  \<^item> Auditing: \<open>internal/audit/auditor.go\<close>; locale \<open>audited_keys\<close>.
  \<^item> KeyManagerMain, KeyManagerProcess: \<open>cmd/main.go\<close>. The first composes configuration, middleware
    and routes; the second is the process: start-up with its fatal exits (\<open>startKeyManager\<close>), and
    \<open>km_step\<close>, a relation on the state of everything that runs beside each other: model sync, audit,
    key refresh, requests, shutdown. Its world is the pair of the validator's side and the cluster's
    (\<open>alongside\<close> lifts a client to the pair). In the locale \<open>running_manager\<close>, an invariant over all
    runs: cached keys are keys the realm served, the configuration stays, requests bring no identity.
    Hence keys change only for tokens of the realm, or in dev mode for requests under its fixed
    identity; and two ways in which the process ends badly.

  \<^bold>\<open>The operator.\<close>
  \<^item> Config, Common: \<open>internal/config/config.go\<close>, \<open>reconcilers/common.go\<close> (slugs, labels, hosts).
  \<^item> Auth, Routing: \<open>reconcilers/auth.go\<close>, \<open>routing.go\<close>, \<open>passthrough.go\<close>: policies and routes; locale
    \<open>envoy_gateway\<close>, with an evaluator that satisfies it.
  \<^item> ClusterTLS: \<open>reconcilers/clustertls.go\<close>; locale \<open>nested_slice\<close>; merging a listener refines an
    update of the map from listener names to listeners.
  \<^item> Storage, ModelService, InferencePool: \<open>reconcilers/storage.go\<close>, \<open>modelservice.go\<close>,
    \<open>networkpolicy.go\<close>, \<open>inferencepool.go\<close>: the workloads, their typing and who selects whose pods.
  \<^item> ApiKeys: \<open>internal/controller/apikeys.go\<close>; locale \<open>secret_reader\<close>.
  \<^item> Watches: the functions \<open>SetupWithManager\<close> of both controllers, with events, the work queue and its
    repetitions as controller-runtime documents them (\<open>deliver\<close>, \<open>processNext\<close>), and \<open>operator_step\<close>, the
    runs of the passthrough controller beside a key-manager. Locale \<open>watched_system\<close>: when no event
    is lost, the policy of a model follows its keys or a pass is under way; when the list behind an
    event fails, the event is lost and a key stays denied.
  \<^item> OperatorMain: \<open>operator/cmd/main.go\<close> and the registration of the webhooks: flags, server options,
    the registrations in order with their exits; locale \<open>runtime\<close> for the manager of
    controller-runtime. The operator runs complete or not at all.
  \<^item> Webhooks: \<open>internal/webhook/v1alpha1\<close>; locale \<open>api_reader\<close>. Both webhooks admit exactly what
    their rules say; a name is refused exactly when it is stored for the other kind, so creations one
    after the other never let two kinds share a name, and two judged on the same state can.

  \<^item> Controllers: what the reconcilers of \<open>internal/controller\<close> share: a record of clients, a record
    of library functions (finalizers, owner references, accessors of trees, quantities, YAML), the
    step "create the object or update the stored one", the release of a model's key objects. Locales:
    \<open>controller_library\<close>; \<open>tree_cluster\<close> and \<open>tree_controller\<close> (objects without a Go type);
    \<open>controller_cluster\<close> (Secrets and ConfigMaps beside all other kinds). The relation \<open>keysKept\<close> says
    which key objects a step leaves alone; its rules compose through a whole pass.
  \<^item> LLMController: \<open>llmmodel_controller.go\<close>, the pass over an \<open>LLMModel\<close> with all its helpers; a pass
    is an action that returns the delay (100 ms, 15 s) after which it wants to be repeated, or none.
    Locales \<open>llm_cluster\<close> and \<open>deployment_kind\<close>. ModelLifecycle has its properties: the Deployment
    follows the configuration within two passes (locale \<open>llm_workload\<close>), deletion releases the keys,
    and two states the code reaches that it should not: an open route reported as ready, and keys
    that outlive their model after a failed read.
  \<^item> PassthroughController: \<open>passthroughmodel_controller.go\<close>; locale \<open>passthrough_cluster\<close>. A pass that
    ends without asking to be repeated (60 s) leaves every gateway object as built.
  \<^item> TlsSingleton: \<open>clustertls_singleton.go\<close>, the resync loop; locale \<open>tls_cluster\<close>, which extends
    \<open>tree_cluster\<close> and \<open>nested_slice\<close>. What a pass may touch, and that a second one changes nothing.

  \<^bold>\<open>Across components.\<close> Isolation: a credential named by the key-manager is admitted by the operator's
  policy of its own model only, short of a collision of digests between two pairs of user and model
  for which keys were minted; and the groups of a token decide alike in both programs, but for a
  groups claim that is a bare string. System: mints,
  revocations and passes of both controllers as steps on one cluster (locale \<open>system\<close>); by induction
  over a run, an issued key stays until it is revoked or its model deleted, and the policy a clean
  pass leaves admits exactly the stored client IDs.

  \<^bold>\<open>Bounds.\<close> Retries of the key-manager: three attempts, as in the code. \<open>dropEncodings\<close> (trimming
  white space) runs with the length of the string as fuel, which it cannot exceed. A Go \<open>int\<close> that
  can overflow (the RSA exponent, the sum of a duration) wraps at 64 bits.

  \<^bold>\<open>Not modelled.\<close> Generated code (\<open>zz_generated.deepcopy.go\<close>, \<open>groupversion_info.go\<close>): values
  cannot be shared here, so a deep copy has nothing to do. Goroutines are steps of a relation, and
  one handler, pass or fetch is one step: \<open>System\<close> and \<open>km_step\<close> interleave whole operations. The
  cache of the manager is not modelled: reads of the reconcilers are taken to be up to date, although
  \<open>mgr.GetClient()\<close> may lag behind the server (see Kube); that the policy follows the keys after one
  clean pass (System) depends on it. Timers, sockets and signals are such steps or
  values too (the key-manager's timeouts of single connections are left out). The reconcilers are
  never handed a nil configuration by main, so their tests for one are left out, except in the
  resync loop. Garbage collection by owner reference; the logger and its flags; the frontend, the
  Helm charts and the documents of the repository.
\<close>

end
